theory Spec2Isabelle
  imports Main "HOL-Library.AList" "HOL-Library.Multiset"
begin

section \<open>Strings and the patterns of the resource resolver\<close>

text \<open>
  Source: \<^verbatim>\<open>packages/productive-cli/src/utils/resource-resolver.ts\<close>.

  A JavaScript string is a sequence of UTF-16 code units. The model uses \<^typ>\<open>string\<close>
  and reads a \<^typ>\<open>char\<close> as the code unit of the same number, so it covers the strings
  whose code units are below 256 (ASCII and Latin-1).
\<close>

definition code_of :: "char \<Rightarrow> nat" where
  "code_of c = of_char c"

text \<open>The class \<^verbatim>\<open>\d\<close> of a regular expression without the unicode flag: 0 to 9.\<close>

definition is_digit :: "char \<Rightarrow> bool" where
  "is_digit c = (c \<in> set ''0123456789'')"

text \<open>
  The class \<^verbatim>\<open>\s\<close> (white space and line terminators), below 256: TAB, LF, VT, FF,
  CR, SP and NBSP. The same set is what \<^verbatim>\<open>String.prototype.trim\<close> strips.
\<close>

definition is_space :: "char \<Rightarrow> bool" where
  "is_space c = (code_of c \<in> {9, 10, 11, 12, 13, 32, 160})"

text \<open>
  \<^verbatim>\<open>toLowerCase\<close> on one code unit below 256: A to Z, and the Latin-1 capitals
  0xC0 to 0xDE without the multiplication sign 0xD7, move up by 32.
\<close>

definition toLowerCase_char :: "char \<Rightarrow> char" where
  "toLowerCase_char c =
     (let n = code_of c in
      if (65 \<le> n \<and> n \<le> 90) \<or> (192 \<le> n \<and> n \<le> 222 \<and> n \<noteq> 215)
      then char_of (n + 32) else c)"

definition toLowerCase :: "string \<Rightarrow> string" where
  "toLowerCase s = map toLowerCase_char s"

text \<open>
  \<^verbatim>\<open>toUpperCase\<close> on the ASCII letters. It is the canonicalisation that the flag
  \<^verbatim>\<open>i\<close> applies to a code unit when it is compared with an ASCII letter of a pattern
  (no code unit from 128 on is canonicalised to an ASCII letter), and it is what
  \<^verbatim>\<open>String.prototype.toUpperCase\<close> does to the strings that match the number patterns
  below (letters, a hyphen and digits, all ASCII), the only ones \<^verbatim>\<open>resolve\<close> applies it
  to. On the small letters of Latin-1 it is not \<^verbatim>\<open>String.prototype.toUpperCase\<close>, which
  maps them too (some of them to code units from 256 on, or to two code units).
\<close>

definition toUpperCase_char :: "char \<Rightarrow> char" where
  "toUpperCase_char c =
     (let n = code_of c in if 97 \<le> n \<and> n \<le> 122 then char_of (n - 32) else c)"

definition toUpperCase :: "string \<Rightarrow> string" where
  "toUpperCase s = map toUpperCase_char s"

definition trim :: "string \<Rightarrow> string" where
  "trim s = rev (dropWhile is_space (rev (dropWhile is_space s)))"

text \<open>\<^verbatim>\<open>const NUMERIC_ID_PATTERN = /^\d+$/;\<close>\<close>

definition NUMERIC_ID_PATTERN :: "string \<Rightarrow> bool" where
  "NUMERIC_ID_PATTERN s = (s \<noteq> [] \<and> list_all is_digit s)"

text \<open>
  \<^verbatim>\<open>const EMAIL_PATTERN = /^[^\s@]+@[^\s@]+\.[^\s@]+$/;\<close>
  The first group cannot cross an at sign, so it is the text before the first one; what
  follows that at sign must be free of at signs and of white space and hold a dot that is
  neither its first nor its last character.
\<close>

definition not_space_at :: "char \<Rightarrow> bool" where
  "not_space_at c = (\<not> is_space c \<and> c \<noteq> CHR ''@'')"

definition has_inner_dot :: "string \<Rightarrow> bool" where
  "has_inner_dot d = list_ex (\<lambda>i. d ! i = CHR ''.'') [1 ..< length d - 1]"

definition EMAIL_PATTERN :: "string \<Rightarrow> bool" where
  "EMAIL_PATTERN s =
     (let local_part = takeWhile (\<lambda>c. c \<noteq> CHR ''@'') s;
          rest = dropWhile (\<lambda>c. c \<noteq> CHR ''@'') s
      in local_part \<noteq> [] \<and> list_all not_space_at local_part \<and> rest \<noteq> [] \<and>
         list_all not_space_at (tl rest) \<and> has_inner_dot (tl rest))"

text \<open>
  A pattern \<^verbatim>\<open>/^(A|B)-\d+$/i\<close>: one of the prefixes in any letter case, a hyphen, and
  one digit or more up to the end of the input.
\<close>

definition number_pattern :: "string list \<Rightarrow> string \<Rightarrow> bool" where
  "number_pattern prefixes s =
     list_ex (\<lambda>p. toUpperCase (take (length p) s) = p \<and>
                  take 1 (drop (length p) s) = ''-'' \<and>
                  NUMERIC_ID_PATTERN (drop (length p + 1) s)) prefixes"

text \<open>\<^verbatim>\<open>const PROJECT_NUMBER_PATTERN = /^(PRJ|P)-\d+$/i;\<close>\<close>

definition PROJECT_NUMBER_PATTERN :: "string \<Rightarrow> bool" where
  "PROJECT_NUMBER_PATTERN s = number_pattern [''PRJ'', ''P''] s"

text \<open>\<^verbatim>\<open>const DEAL_NUMBER_PATTERN = /^(D|DEAL)-\d+$/i;\<close>\<close>

definition DEAL_NUMBER_PATTERN :: "string \<Rightarrow> bool" where
  "DEAL_NUMBER_PATTERN s = number_pattern [''D'', ''DEAL''] s"

datatype ResolvableResourceType = person | project | company | deal | service

datatype confidence = high | medium | low

record DetectionResult =
  d_type :: ResolvableResourceType
  d_confidence :: confidence
  d_pattern :: string

definition detectResourceType :: "string \<Rightarrow> DetectionResult option" where
  "detectResourceType query =
     (if NUMERIC_ID_PATTERN query then None
      else if EMAIL_PATTERN query then
        Some \<lparr>d_type = person, d_confidence = high, d_pattern = ''email''\<rparr>
      else if PROJECT_NUMBER_PATTERN query then
        Some \<lparr>d_type = project, d_confidence = high, d_pattern = ''project_number''\<rparr>
      else if DEAL_NUMBER_PATTERN query then
        Some \<lparr>d_type = deal, d_confidence = high, d_pattern = ''deal_number''\<rparr>
      else None)"

definition isNumericId :: "string \<Rightarrow> bool" where
  "isNumericId v = NUMERIC_ID_PATTERN v"

definition needsResolution :: "string \<Rightarrow> bool" where
  "needsResolution v = (\<not> isNumericId v)"

subsection \<open>Programs with state and exceptions\<close>

text \<open>
  A function of the source that reads or changes the world outside it (the API, a cache,
  the file system) is a state transformer that either throws (\<open>Inl\<close>) or returns
  (\<open>Inr\<close>). \<open>await\<close> is sequencing, \<open>try { m } catch { h }\<close> is \<open>io_catch m h\<close>.
\<close>

type_synonym ('s, 'e, 'a) prog = "'s \<Rightarrow> ('e + 'a) \<times> 's"

definition io_return :: "'a \<Rightarrow> ('s, 'e, 'a) prog" where
  "io_return v = (\<lambda>s. (Inr v, s))"

definition io_throw :: "'e \<Rightarrow> ('s, 'e, 'a) prog" where
  "io_throw e = (\<lambda>s. (Inl e, s))"

definition io_bind :: "('s, 'e, 'a) prog \<Rightarrow> ('a \<Rightarrow> ('s, 'e, 'b) prog) \<Rightarrow> ('s, 'e, 'b) prog" where
  "io_bind m f = (\<lambda>s. case m s of (Inl e, s') \<Rightarrow> (Inl e, s') | (Inr v, s') \<Rightarrow> f v s')"

definition io_catch :: "('s, 'e, 'a) prog \<Rightarrow> ('e \<Rightarrow> ('s, 'f, 'a) prog) \<Rightarrow> ('s, 'f, 'a) prog" where
  "io_catch m h = (\<lambda>s. case m s of (Inl e, s') \<Rightarrow> h e s' | (Inr v, s') \<Rightarrow> (Inr v, s'))"

text \<open>A pure computation that may throw, run inside a program.\<close>

definition io_lift :: "'e + 'a \<Rightarrow> ('s, 'e, 'a) prog" where
  "io_lift r = (\<lambda>s. (r, s))"

subsection \<open>The resolver's data and its collaborators\<close>

record ResolveResult =
  r_id :: string
  r_type :: ResolvableResourceType
  r_label :: string
  r_query :: string
  r_exact :: bool

text \<open>
  \<^verbatim>\<open>ResolveOptions\<close>. An absent \<^verbatim>\<open>first\<close> is \<open>False\<close>; the field \<^verbatim>\<open>cache\<close> is
  left out: \<^verbatim>\<open>resolve\<close> never reads it.
\<close>

record ResolveOptions =
  o_type :: "ResolvableResourceType option"
  o_projectId :: "string option"
  o_first :: bool
  o_orgId :: "string option"

record ResolveError =
  e_message :: string
  e_query :: string
  e_type :: "ResolvableResourceType option"
  e_suggestions :: "ResolveResult list option"

text \<open>The API layer's resources: an id and a bag of optional attributes.\<close>

record attributes =
  first_name :: "string option"
  last_name :: "string option"
  a_name :: "string option"

record resource =
  res_id :: string
  res_attributes :: attributes

text \<open>A request to the API: the filter (as its entries) and \<^verbatim>\<open>perPage\<close>.\<close>

datatype api_call =
    getPeople "(string \<times> string) list" nat
  | getProjects "(string \<times> string) list" nat
  | getCompanies "(string \<times> string) list" nat
  | getDeals "(string \<times> string) list" nat
  | getServices "(string \<times> string) list" nat

datatype api_error = ApiError string

datatype cache_error = CacheError

text \<open>What \<^verbatim>\<open>resolve\<close> can throw: its own \<^verbatim>\<open>ResolveError\<close>, or what the API layer threw.\<close>

datatype thrown = Thrown_ResolveError ResolveError | Thrown_by_api api_error

text \<open>
  The trace of the calls that leave the resolver: a request to the API, a read of the
  resolve cache (tenant, key) and a write to it (tenant, key, value, endpoint, TTL in
  milliseconds).
\<close>

datatype event =
    ApiCall api_call
  | CacheGet string string
  | CacheSet string string ResolveResult string int

text \<open>
  The collaborators are not part of the resolver and are parameters of the model. The API
  answers a request, given the trace so far, with an error or a list of resources.
  \<^verbatim>\<open>getSqliteCache(orgId).cacheGet(key)\<close> and \<^verbatim>\<open>getSqliteCache(orgId).cacheSet(key,
  value, endpoint, ttl)\<close> (module \<^verbatim>\<open>sqlite-cache\<close>) act on a store of any type \<open>'c\<close> and
  may fail.
\<close>

record 'c collaborators =
  api_response :: "event list \<Rightarrow> api_call \<Rightarrow> api_error + resource list"
  sqlite_cacheGet :: "string \<Rightarrow> string \<Rightarrow> 'c \<Rightarrow> (cache_error + ResolveResult option) \<times> 'c"
  sqlite_cacheSet ::
    "string \<Rightarrow> string \<Rightarrow> ResolveResult \<Rightarrow> string \<Rightarrow> int \<Rightarrow> 'c \<Rightarrow> (cache_error + unit) \<times> 'c"

record 'c world =
  events :: "event list"
  store :: 'c

definition call_api :: "'c collaborators \<Rightarrow> api_call \<Rightarrow> ('c world, thrown, resource list) prog" where
  "call_api env c = (\<lambda>w.
     let w' = w\<lparr>events := events w @ [ApiCall c]\<rparr> in
     case api_response env (events w) c of
       Inl e \<Rightarrow> (Inl (Thrown_by_api e), w')
     | Inr data \<Rightarrow> (Inr data, w'))"

definition call_cacheGet ::
  "'c collaborators \<Rightarrow> string \<Rightarrow> string \<Rightarrow> ('c world, cache_error, ResolveResult option) prog" where
  "call_cacheGet env orgId key = (\<lambda>w.
     case sqlite_cacheGet env orgId key (store w) of
       (r, c') \<Rightarrow> (r, \<lparr>events = events w @ [CacheGet orgId key], store = c'\<rparr>))"

definition call_cacheSet ::
  "'c collaborators \<Rightarrow> string \<Rightarrow> string \<Rightarrow> ResolveResult \<Rightarrow> string \<Rightarrow> int \<Rightarrow>
     ('c world, cache_error, unit) prog" where
  "call_cacheSet env orgId key v endpoint ttl = (\<lambda>w.
     case sqlite_cacheSet env orgId key v endpoint ttl (store w) of
       (r, c') \<Rightarrow> (r, \<lparr>events = events w @ [CacheSet orgId key v endpoint ttl], store = c'\<rparr>))"

text \<open>\<^verbatim>\<open>a || b\<close> on an optional string: absent and empty are both falsy.\<close>

definition or_else :: "string option \<Rightarrow> string \<Rightarrow> string" where
  "or_else a b = (case a of None \<Rightarrow> b | Some s \<Rightarrow> if s = [] then b else s)"

text \<open>\<^verbatim>\<open>if (v)\<close> on an optional string: the value when it is truthy.\<close>

definition truthy :: "string option \<Rightarrow> string option" where
  "truthy v = (case v of None \<Rightarrow> None | Some s \<Rightarrow> if s = [] then None else Some s)"

text \<open>\<^verbatim>\<open>s.replace(/^old/, new)\<close> for a literal \<^verbatim>\<open>old\<close>.\<close>

definition replace_prefix :: "string \<Rightarrow> string \<Rightarrow> string \<Rightarrow> string" where
  "replace_prefix old new s =
     (if take (length old) s = old then new @ drop (length old) s else s)"

text \<open>\<^verbatim>\<open>s.includes(sub)\<close>\<close>

definition str_includes :: "string \<Rightarrow> string \<Rightarrow> bool" where
  "str_includes s sub = list_ex (\<lambda>i. take (length sub) (drop i s) = sub) [0 ..< Suc (length s)]"

definition type_name :: "ResolvableResourceType \<Rightarrow> string" where
  "type_name t = (case t of person \<Rightarrow> ''person'' | project \<Rightarrow> ''project''
     | company \<Rightarrow> ''company'' | deal \<Rightarrow> ''deal'' | service \<Rightarrow> ''service'')"

definition dquote :: string where
  "dquote = [CHR 0x22]"

subsection \<open>The lookup strategies\<close>

definition person_label :: "resource \<Rightarrow> string" where
  "person_label p =
     trim (or_else (first_name (res_attributes p)) [] @ '' '' @
           or_else (last_name (res_attributes p)) [])"

definition resolvePersonByEmail ::
  "'c collaborators \<Rightarrow> string \<Rightarrow> ('c world, thrown, ResolveResult option) prog" where
  "resolvePersonByEmail env email =
     io_bind (call_api env (getPeople [(''email'', email)] 1)) (\<lambda>data.
       case data of
         [] \<Rightarrow> io_return None
       | p # _ \<Rightarrow> io_return (Some
           \<lparr>r_id = res_id p, r_type = person,
            r_label = (if person_label p = [] then email else person_label p),
            r_query = email, r_exact = True\<rparr>))"

definition resolvePersonByName ::
  "'c collaborators \<Rightarrow> string \<Rightarrow> ('c world, thrown, ResolveResult list) prog" where
  "resolvePersonByName env nm =
     io_bind (call_api env (getPeople [(''query'', nm)] 10)) (\<lambda>data.
       io_return (map (\<lambda>p.
         \<lparr>r_id = res_id p, r_type = person, r_label = person_label p,
          r_query = nm, r_exact = False\<rparr>) data))"

definition resolveProjectByNumber ::
  "'c collaborators \<Rightarrow> string \<Rightarrow> ('c world, thrown, ResolveResult option) prog" where
  "resolveProjectByNumber env projectNumber =
     (let normalizedNumber = replace_prefix ''P-'' ''PRJ-'' (toUpperCase projectNumber) in
      io_bind (call_api env (getProjects [(''project_number'', normalizedNumber)] 1)) (\<lambda>data.
        case data of
          [] \<Rightarrow>
            io_bind (call_api env (getProjects [(''project_number'', projectNumber)] 1)) (\<lambda>alt.
              case alt of
                [] \<Rightarrow> io_return None
              | p # _ \<Rightarrow> io_return (Some
                  \<lparr>r_id = res_id p, r_type = project,
                   r_label = or_else (a_name (res_attributes p)) projectNumber,
                   r_query = projectNumber, r_exact = True\<rparr>))
        | p # _ \<Rightarrow> io_return (Some
            \<lparr>r_id = res_id p, r_type = project,
             r_label = or_else (a_name (res_attributes p)) projectNumber,
             r_query = projectNumber, r_exact = True\<rparr>)))"

definition resolveProjectByName ::
  "'c collaborators \<Rightarrow> string \<Rightarrow> ('c world, thrown, ResolveResult list) prog" where
  "resolveProjectByName env nm =
     io_bind (call_api env (getProjects [(''query'', nm)] 10)) (\<lambda>data.
       io_return (map (\<lambda>p.
         \<lparr>r_id = res_id p, r_type = project, r_label = or_else (a_name (res_attributes p)) [],
          r_query = nm, r_exact = False\<rparr>) data))"

definition resolveCompanyByName ::
  "'c collaborators \<Rightarrow> string \<Rightarrow> ('c world, thrown, ResolveResult list) prog" where
  "resolveCompanyByName env nm =
     io_bind (call_api env (getCompanies [(''query'', nm)] 10)) (\<lambda>data.
       io_return (map (\<lambda>p.
         \<lparr>r_id = res_id p, r_type = company, r_label = or_else (a_name (res_attributes p)) [],
          r_query = nm, r_exact = False\<rparr>) data))"

definition resolveDealByNumber ::
  "'c collaborators \<Rightarrow> string \<Rightarrow> ('c world, thrown, ResolveResult option) prog" where
  "resolveDealByNumber env dealNumber =
     (let normalizedNumber = replace_prefix ''DEAL-'' ''D-'' (toUpperCase dealNumber) in
      io_bind (call_api env (getDeals [(''deal_number'', normalizedNumber)] 1)) (\<lambda>data.
        case data of
          [] \<Rightarrow>
            io_bind (call_api env (getDeals [(''deal_number'', dealNumber)] 1)) (\<lambda>alt.
              case alt of
                [] \<Rightarrow> io_return None
              | p # _ \<Rightarrow> io_return (Some
                  \<lparr>r_id = res_id p, r_type = deal,
                   r_label = or_else (a_name (res_attributes p)) dealNumber,
                   r_query = dealNumber, r_exact = True\<rparr>))
        | p # _ \<Rightarrow> io_return (Some
            \<lparr>r_id = res_id p, r_type = deal,
             r_label = or_else (a_name (res_attributes p)) dealNumber,
             r_query = dealNumber, r_exact = True\<rparr>)))"

definition resolveDealByName ::
  "'c collaborators \<Rightarrow> string \<Rightarrow> ('c world, thrown, ResolveResult list) prog" where
  "resolveDealByName env nm =
     io_bind (call_api env (getDeals [(''query'', nm)] 10)) (\<lambda>data.
       io_return (map (\<lambda>p.
         \<lparr>r_id = res_id p, r_type = deal, r_label = or_else (a_name (res_attributes p)) [],
          r_query = nm, r_exact = False\<rparr>) data))"

definition resolveServiceByName ::
  "'c collaborators \<Rightarrow> string \<Rightarrow> string option \<Rightarrow> ('c world, thrown, ResolveResult list) prog" where
  "resolveServiceByName env nm projectId =
     (let filter_arg = (case truthy projectId of
                          Some pid \<Rightarrow> [(''project_id'', pid)]
                        | None \<Rightarrow> [])
      in io_bind (call_api env (getServices filter_arg 200)) (\<lambda>data.
        let nameLower = toLowerCase nm;
            matches = filter (\<lambda>s.
              str_includes (toLowerCase (or_else (a_name (res_attributes s)) [])) nameLower) data
        in io_return (map (\<lambda>s.
          \<lparr>r_id = res_id s, r_type = service, r_label = or_else (a_name (res_attributes s)) [],
           r_query = nm,
           r_exact = (toLowerCase (or_else (a_name (res_attributes s)) []) = nameLower)\<rparr>)
          matches)))"

subsection \<open>The resolve cache\<close>

definition getResolveCacheKey :: "string \<Rightarrow> ResolvableResourceType \<Rightarrow> string \<Rightarrow> string" where
  "getResolveCacheKey orgId t query =
     ''resolve:'' @ orgId @ '':'' @ type_name t @ '':'' @ toLowerCase query"

definition CACHE_TTL_exact :: int where
  "CACHE_TTL_exact = 24 * 60 * 60 * 1000"

definition CACHE_TTL_fuzzy :: int where
  "CACHE_TTL_fuzzy = 60 * 60 * 1000"

definition getCachedResolve ::
  "'c collaborators \<Rightarrow> string \<Rightarrow> ResolvableResourceType \<Rightarrow> string \<Rightarrow>
     ('c world, 'e, ResolveResult option) prog" where
  "getCachedResolve env orgId t query =
     io_catch (call_cacheGet env orgId (getResolveCacheKey orgId t query))
       (\<lambda>_. io_return None)"

definition setCachedResolve ::
  "'c collaborators \<Rightarrow> string \<Rightarrow> ResolveResult \<Rightarrow> ('c world, 'e, unit) prog" where
  "setCachedResolve env orgId result =
     io_catch
       (call_cacheSet env orgId (getResolveCacheKey orgId (r_type result) (r_query result))
          result ''/resolve'' (if r_exact result then CACHE_TTL_exact else CACHE_TTL_fuzzy))
       (\<lambda>_. io_return ())"

subsection \<open>resolve\<close>

text \<open>Lines 472 to 481: try the cache first.\<close>

definition resolve_try_cache ::
  "'c collaborators \<Rightarrow> string \<Rightarrow> ResolveOptions \<Rightarrow> ('c world, thrown, ResolveResult option) prog" where
  "resolve_try_cache env query options =
     (case truthy (o_orgId options) of
        None \<Rightarrow> io_return None
      | Some orgId \<Rightarrow>
          (case (case o_type options of
                   Some t \<Rightarrow> Some t
                 | None \<Rightarrow> map_option d_type (detectResourceType query)) of
             None \<Rightarrow> io_return None
           | Some resourceType \<Rightarrow> getCachedResolve env orgId resourceType query))"

text \<open>Lines 483 to 498: the resource type and, when it was detected, the pattern.\<close>

definition resolve_determine_type ::
  "string \<Rightarrow> ResolveOptions \<Rightarrow> ResolveError + ResolvableResourceType \<times> string option" where
  "resolve_determine_type query options =
     (case o_type options of
        Some t \<Rightarrow> Inr (t, None)
      | None \<Rightarrow>
          (case detectResourceType query of
             Some detection \<Rightarrow> Inr (d_type detection, Some (d_pattern detection))
           | None \<Rightarrow> Inl
               \<lparr>e_message = ''Cannot determine resource type for '' @ dquote @ query @ dquote @
                   ''. Use --type to specify.'',
                e_query = query, e_type = None, e_suggestions = None\<rparr>))"

definition option_to_list :: "'a option \<Rightarrow> 'a list" where
  "option_to_list r = (case r of Some x \<Rightarrow> [x] | None \<Rightarrow> [])"

text \<open>Lines 500 to 538: the switch on the resource type.\<close>

definition resolve_by_type ::
  "'c collaborators \<Rightarrow> ResolvableResourceType \<Rightarrow> string option \<Rightarrow> string \<Rightarrow> string option \<Rightarrow>
     ('c world, thrown, ResolveResult list) prog" where
  "resolve_by_type env resourceType pattern query projectId =
     (case resourceType of
        person \<Rightarrow>
          if pattern = Some ''email'' \<or> EMAIL_PATTERN query
          then io_bind (resolvePersonByEmail env query) (\<lambda>r. io_return (option_to_list r))
          else resolvePersonByName env query
      | project \<Rightarrow>
          if pattern = Some ''project_number'' \<or> PROJECT_NUMBER_PATTERN query
          then io_bind (resolveProjectByNumber env query) (\<lambda>r. io_return (option_to_list r))
          else resolveProjectByName env query
      | company \<Rightarrow> resolveCompanyByName env query
      | deal \<Rightarrow>
          if pattern = Some ''deal_number'' \<or> DEAL_NUMBER_PATTERN query
          then io_bind (resolveDealByNumber env query) (\<lambda>r. io_return (option_to_list r))
          else resolveDealByName env query
      | service \<Rightarrow> resolveServiceByName env query projectId)"

text \<open>Lines 540 to 555: no match, the write to the cache, and \<^verbatim>\<open>first\<close>.\<close>

definition resolve_finish ::
  "'c collaborators \<Rightarrow> ResolvableResourceType \<Rightarrow> string \<Rightarrow> ResolveOptions \<Rightarrow> ResolveResult list \<Rightarrow>
     ('c world, thrown, ResolveResult list) prog" where
  "resolve_finish env resourceType query options results =
     (case results of
        [] \<Rightarrow> io_throw (Thrown_ResolveError
          \<lparr>e_message = ''No '' @ type_name resourceType @ '' found matching '' @
             dquote @ query @ dquote,
           e_query = query, e_type = Some resourceType, e_suggestions = None\<rparr>)
      | r0 # others \<Rightarrow>
          io_bind
            (case truthy (o_orgId options) of
               Some orgId \<Rightarrow>
                 if length results = 1 then setCachedResolve env orgId r0 else io_return ()
             | None \<Rightarrow> io_return ())
            (\<lambda>_. if o_first options \<and> length results > 1 then io_return [r0]
                  else io_return results))"

definition resolve ::
  "'c collaborators \<Rightarrow> string \<Rightarrow> ResolveOptions \<Rightarrow> ('c world, thrown, ResolveResult list) prog" where
  "resolve env query options =
     (if isNumericId query then
        io_return
          [\<lparr>r_id = query,
            r_type = (case o_type options of Some t \<Rightarrow> t | None \<Rightarrow> project),
            r_label = query, r_query = query, r_exact = True\<rparr>]
      else
        io_bind (resolve_try_cache env query options) (\<lambda>cached.
          case cached of
            Some r \<Rightarrow> io_return [r]
          | None \<Rightarrow>
              (case resolve_determine_type query options of
                 Inl err \<Rightarrow> io_throw (Thrown_ResolveError err)
               | Inr (resourceType, pattern) \<Rightarrow>
                   io_bind (resolve_by_type env resourceType pattern query (o_projectId options))
                     (resolve_finish env resourceType query options))))"

subsection \<open>Filters\<close>

definition resolveFilterValue ::
  "'c collaborators \<Rightarrow> string \<Rightarrow> ResolvableResourceType \<Rightarrow> ResolveOptions \<Rightarrow>
     ('c world, thrown, string) prog" where
  "resolveFilterValue env v t options =
     (if isNumericId v then io_return v
      else
        io_bind (resolve env v (options\<lparr>o_type := Some t, o_first := True\<rparr>)) (\<lambda>results.
          case results of
            [] \<Rightarrow> io_throw (Thrown_ResolveError
              \<lparr>e_message = ''No '' @ type_name t @ '' found matching '' @ dquote @ v @ dquote,
               e_query = v, e_type = Some t, e_suggestions = None\<rparr>)
          | r # _ \<Rightarrow> io_return (r_id r)))"

record metadata_entry =
  m_input :: string
  m_id :: string
  m_label :: string
  m_reusable :: bool

subsection \<open>Plain objects used as dictionaries\<close>

text \<open>
  \<^verbatim>\<open>typeMapping\<close>, \<^verbatim>\<open>resolved\<close> and \<^verbatim>\<open>metadata\<close> are plain objects: their prototype is
  \<^verbatim>\<open>Object.prototype\<close>, whose properties (ECMAScript, with its annex B) are listed here.
  An object is given by its own properties, as a map from keys.
\<close>

definition Object_prototype_properties :: "string list" where
  "Object_prototype_properties =
     [''constructor'', ''__defineGetter__'', ''__defineSetter__'', ''hasOwnProperty'',
      ''__lookupGetter__'', ''__lookupSetter__'', ''isPrototypeOf'', ''propertyIsEnumerable'',
      ''toString'', ''valueOf'', ''__proto__'', ''toLocaleString'']"

text \<open>
  \<^verbatim>\<open>typeMapping[key]\<close>: the own property when there is one (a resource type, by the type
  of \<^verbatim>\<open>typeMapping\<close>); else, for a key of the list above, the inherited value, which is a
  function or, for \<^verbatim>\<open>__proto__\<close>, the prototype itself: truthy and outside the union
  \<^verbatim>\<open>ResolvableResourceType\<close>; else \<^verbatim>\<open>undefined\<close>.
\<close>

datatype mapped_type = Own_type ResolvableResourceType | Inherited_value string

definition read_typeMapping ::
  "(string \<rightharpoonup> ResolvableResourceType) \<Rightarrow> string \<Rightarrow> mapped_type option" where
  "read_typeMapping typeMapping key =
     (case typeMapping key of
        Some t \<Rightarrow> Some (Own_type t)
      | None \<Rightarrow> if key \<in> set Object_prototype_properties then Some (Inherited_value key)
               else None)"

text \<open>
  The text that a template literal makes of an inherited value: of the prototype, of the
  function \<^verbatim>\<open>Object\<close> (the property \<^verbatim>\<open>constructor\<close>) and of the other native functions,
  as V8 prints them.
\<close>

definition inherited_text :: "string \<Rightarrow> string" where
  "inherited_text key =
     (if key = ''__proto__'' then ''[object Object]''
      else if key = ''constructor'' then ''function Object() { [native code] }''
      else ''function '' @ key @ ''() { [native code] }'')"

text \<open>
  \<^verbatim>\<open>resolved[key] = value\<close> with a string: an own property is created or overwritten,
  except for the key \<^verbatim>\<open>__proto__\<close>, where the assignment runs the setter that
  \<^verbatim>\<open>Object.prototype\<close> has for it, and the setter ignores a value that is neither an
  object nor null: nothing is stored.
\<close>

definition assign_string :: "(string \<rightharpoonup> string) \<Rightarrow> string \<Rightarrow> string \<Rightarrow> (string \<rightharpoonup> string)" where
  "assign_string obj key v = (if key = ''__proto__'' then obj else obj(key \<mapsto> v))"

text \<open>
  \<^verbatim>\<open>metadata[key] = { ... }\<close> with an object: for the key \<^verbatim>\<open>__proto__\<close> the setter makes
  the value the prototype of \<^verbatim>\<open>metadata\<close> and no own property is created.
  \<open>md_prototype\<close> is \<open>None\<close> while the prototype is \<^verbatim>\<open>Object.prototype\<close>.
\<close>

record metadata_object =
  md_own :: "string \<rightharpoonup> metadata_entry"
  md_prototype :: "metadata_entry option"

definition empty_metadata :: metadata_object where
  "empty_metadata = \<lparr>md_own = Map.empty, md_prototype = None\<rparr>"

definition assign_entry :: "metadata_object \<Rightarrow> string \<Rightarrow> metadata_entry \<Rightarrow> metadata_object" where
  "assign_entry obj key e =
     (if key = ''__proto__'' then obj\<lparr>md_prototype := Some e\<rparr>
      else obj\<lparr>md_own := (md_own obj)(key \<mapsto> e)\<rparr>)"

subsection \<open>resolveFilterIds\<close>

text \<open>
  \<^verbatim>\<open>resolve\<close> (lines 454 to 556) when \<^verbatim>\<open>options.type\<close> holds an inherited value, which
  \<^verbatim>\<open>resolveFilterIds\<close> passes on for some keys, and the query is not numeric (the call
  stands behind the test \<^verbatim>\<open>isNumericId(value)\<close>). The value is truthy, so it is the
  resource type: with a truthy \<^verbatim>\<open>orgId\<close> the cache is read under the key that the template
  literal of line 400 builds from the text of the value, and a hit is returned; otherwise
  no case of the \<^verbatim>\<open>switch\<close> matches, \<^verbatim>\<open>results\<close> stays empty and the \<^verbatim>\<open>ResolveError\<close> of
  line 542 is thrown, with that text in its message and the value as its type.
\<close>

record ResolveError_outside =
  x_message :: string
  x_query :: string
  x_type_text :: string

definition resolve_inherited_type ::
  "'c collaborators \<Rightarrow> string \<Rightarrow> string \<Rightarrow> ResolveOptions \<Rightarrow>
     ('c world, ResolveError_outside, ResolveResult list) prog" where
  "resolve_inherited_type env query type_text options =
     io_bind
       (case truthy (o_orgId options) of
          None \<Rightarrow> io_return None
        | Some orgId \<Rightarrow>
            io_catch
              (call_cacheGet env orgId
                 (''resolve:'' @ orgId @ '':'' @ type_text @ '':'' @ toLowerCase query))
              (\<lambda>_. io_return None))
       (\<lambda>cached.
          case cached of
            Some r \<Rightarrow> io_return [r]
          | None \<Rightarrow> io_throw
              \<lparr>x_message = ''No '' @ type_text @ '' found matching '' @ dquote @ query @ dquote,
               x_query = query, x_type_text = type_text\<rparr>)"

text \<open>
  \<^verbatim>\<open>resolveFilterIds\<close>, lines 608 to 647. \<^verbatim>\<open>filters\<close> is given by its own entries in the
  order of \<^verbatim>\<open>Object.entries\<close>; \<^verbatim>\<open>typeMapping\<close> by its own properties. The body of the loop
  is \<open>resolveFilterIds_step\<close>, on \<^verbatim>\<open>resolved\<close> (its own properties) and \<^verbatim>\<open>metadata\<close>;
  \<open>resolveFilterIds_store\<close> is what follows \<^verbatim>\<open>await resolve(...)\<close> inside the \<^verbatim>\<open>try\<close>.
\<close>

definition resolveFilterIds_store ::
  "string \<Rightarrow> string \<Rightarrow> (string \<rightharpoonup> string) \<times> metadata_object \<Rightarrow> ResolveResult list \<Rightarrow>
     ('c world, 'e, (string \<rightharpoonup> string) \<times> metadata_object) prog" where
  "resolveFilterIds_store key v acc results =
     (case acc of (resolved, metadata) \<Rightarrow>
        (case results of
           r # _ \<Rightarrow> io_return
             (assign_string resolved key (r_id r),
              assign_entry metadata key
                \<lparr>m_input = v, m_id = r_id r, m_label = r_label r, m_reusable = r_exact r\<rparr>)
         | [] \<Rightarrow> io_return (assign_string resolved key v, metadata)))"

definition resolveFilterIds_step ::
  "'c collaborators \<Rightarrow> (string \<rightharpoonup> ResolvableResourceType) \<Rightarrow> ResolveOptions \<Rightarrow> string \<times> string \<Rightarrow>
     (string \<rightharpoonup> string) \<times> metadata_object \<Rightarrow>
     ('c world, thrown, (string \<rightharpoonup> string) \<times> metadata_object) prog" where
  "resolveFilterIds_step env typeMapping options kv acc =
     (case kv of (key, v) \<Rightarrow> case acc of (resolved, metadata) \<Rightarrow>
        (case read_typeMapping typeMapping key of
           None \<Rightarrow> io_return (assign_string resolved key v, metadata)
         | Some t \<Rightarrow>
             if isNumericId v then io_return (assign_string resolved key v, metadata)
             else
               (case t of
                  Own_type ty \<Rightarrow>
                    io_catch
                      (io_bind (resolve env v (options\<lparr>o_type := Some ty, o_first := True\<rparr>))
                         (resolveFilterIds_store key v acc))
                      (\<lambda>_. io_return (assign_string resolved key v, metadata))
                | Inherited_value inherited \<Rightarrow>
                    io_catch
                      (io_bind
                         (resolve_inherited_type env v (inherited_text inherited)
                            (options\<lparr>o_first := True\<rparr>))
                         (resolveFilterIds_store key v acc))
                      (\<lambda>_. io_return (assign_string resolved key v, metadata)))))"

fun resolveFilterIds_loop ::
  "'c collaborators \<Rightarrow> (string \<rightharpoonup> ResolvableResourceType) \<Rightarrow> ResolveOptions \<Rightarrow>
     (string \<times> string) list \<Rightarrow>
     (string \<rightharpoonup> string) \<times> metadata_object \<Rightarrow>
     'c world \<Rightarrow> (thrown + (string \<rightharpoonup> string) \<times> metadata_object) \<times> 'c world" where
  "resolveFilterIds_loop env typeMapping options [] acc w = (Inr acc, w)"
| "resolveFilterIds_loop env typeMapping options (kv # rest) acc w =
     (case resolveFilterIds_step env typeMapping options kv acc w of
        (Inl e, w') \<Rightarrow> (Inl e, w')
      | (Inr acc', w') \<Rightarrow> resolveFilterIds_loop env typeMapping options rest acc' w')"

definition resolveFilterIds ::
  "'c collaborators \<Rightarrow> (string \<times> string) list \<Rightarrow> (string \<rightharpoonup> ResolvableResourceType) \<Rightarrow>
     ResolveOptions \<Rightarrow>
     ('c world, thrown, (string \<rightharpoonup> string) \<times> metadata_object) prog" where
  "resolveFilterIds env filters typeMapping options =
     resolveFilterIds_loop env typeMapping options filters (Map.empty, empty_metadata)"
section \<open>The TTL response cache\<close>

text \<open>
  Source: class \<^verbatim>\<open>FileCache\<close> (the second file of \<^verbatim>\<open>src/config.ts\<close>, lines 40 to 342).
\<close>

subsection \<open>The file system, the clock and the runtime\<close>

text \<open>
  What \<^verbatim>\<open>node:fs\<close>, \<^verbatim>\<open>JSON\<close> or \<^verbatim>\<open>node:crypto\<close> can throw.
\<close>

datatype js_exception = FsError | SyntaxError | TypeError

text \<open>
  The cache directory: whether it exists, and its files by name, in the order in which
  \<^verbatim>\<open>readdirSync\<close> lists them, each with its text (of a type \<open>'f\<close>; its size in bytes
  is given by the runtime below). Any call of \<^verbatim>\<open>node:fs\<close> can fail: \<open>faults\<close> says for
  every call, counted by \<open>ops\<close>, whether it does. \<open>pending_cleanups\<close> counts the callbacks
  \<^verbatim>\<open>() => this.cleanup()\<close> that \<^verbatim>\<open>setImmediate\<close> has queued.
\<close>

record 'f node_fs =
  dir_present :: bool
  files :: "(string \<times> 'f) list"
  faults :: "nat \<Rightarrow> bool"
  ops :: nat
  pending_cleanups :: nat

record ('d, 'p) CacheEntry =
  ce_data :: 'd
  ce_timestamp :: int
  ce_ttl :: int
  ce_endpoint :: string
  ce_params :: 'p

text \<open>
  What \<^verbatim>\<open>JSON.parse\<close> gives for the text of a file, as far as the cache reads it. The
  text of a file need not be that of an entry: it may be \<^verbatim>\<open>{}\<close>, \<^verbatim>\<open>[1,2]\<close> or \<^verbatim>\<open>42\<close>, and
  then \<^verbatim>\<open>JSON.parse\<close> returns and the properties read are \<^verbatim>\<open>undefined\<close>. Of the value
  parsed the cache reads four properties:
  \<^item> \<open>pj_data\<close> is \<^verbatim>\<open>entry.data\<close> (the type \<open>'d\<close> has a value for \<^verbatim>\<open>undefined\<close>);
  \<^item> \<open>pj_timestamp\<close> and \<open>pj_ttl\<close> are the numbers that \<^verbatim>\<open>entry.timestamp\<close> and
    \<^verbatim>\<open>entry.ttl\<close> stand for in arithmetic and in comparisons with a number; \<open>None\<close> is
    \<^verbatim>\<open>NaN\<close>, which is what a missing property gives. The numbers are whole numbers, as
    \<^verbatim>\<open>set\<close> writes them;
  \<^item> \<open>pj_endpoint\<close> is \<^verbatim>\<open>entry.endpoint\<close>: a string, an array (of which the strings among
    its elements are kept) or a value that has no method \<^verbatim>\<open>includes\<close>, such as
    \<^verbatim>\<open>undefined\<close>.
\<close>

datatype endpoint_value = Endpoint_string string | Endpoint_array "string list" | Endpoint_other

record 'd parsed_json =
  pj_data :: 'd
  pj_timestamp :: "int option"
  pj_ttl :: "int option"
  pj_endpoint :: endpoint_value

text \<open>
  What the sweep notes of a file it keeps: \<^verbatim>\<open>{ path, timestamp, size }\<close>. The time stamp
  is the property as read, so it may be missing.
\<close>

record file_info =
  fi_path :: string
  fi_timestamp :: "int option"
  fi_size :: int

text \<open>
  The parts of the runtime that the cache calls and that are not modelled further, as
  parameters: \<open>cache_key\<close> stands for lines 96 to 102 of \<^verbatim>\<open>getCacheKey\<close> (the first 16
  hexadecimal digits of the SHA-256 of the JSON text of endpoint, tenant and sorted
  parameters); \<open>json_stringify\<close> for \<^verbatim>\<open>JSON.stringify\<close> on a cache entry; \<open>json_parse\<close>
  for \<^verbatim>\<open>JSON.parse\<close> followed by the reads of the properties (a text that parses to
  \<^verbatim>\<open>null\<close> counts as one that throws: the first read of a property does, under the same
  handler); \<open>byte_length\<close> for the size that \<^verbatim>\<open>statSync\<close> reports for a file with that
  text. Each of the first three may throw. \<open>sort_inconsistent\<close> is the order in which
  \<^verbatim>\<open>Array.prototype.sort\<close> leaves the records of the sweep when its comparison function is
  not consistent, which ECMAScript leaves to the implementation.
\<close>

record ('d, 'p, 'f) runtime =
  cache_key :: "string \<Rightarrow> 'p \<Rightarrow> string \<Rightarrow> js_exception + string"
  json_stringify :: "('d, 'p) CacheEntry \<Rightarrow> js_exception + 'f"
  json_parse :: "'f \<Rightarrow> js_exception + 'd parsed_json"
  byte_length :: "'f \<Rightarrow> int"
  sort_inconsistent :: "file_info list \<Rightarrow> file_info list"

text \<open>Every call of \<^verbatim>\<open>node:fs\<close> consumes one entry of the fault schedule.\<close>

definition next_fault :: "'f node_fs \<Rightarrow> bool \<times> 'f node_fs" where
  "next_fault s = (faults s (ops s), s\<lparr>ops := Suc (ops s)\<rparr>)"

text \<open>\<^verbatim>\<open>existsSync\<close> never throws: it answers false when the call fails.\<close>

definition existsSync_dir :: "('f node_fs, js_exception, bool) prog" where
  "existsSync_dir = (\<lambda>s. case next_fault s of (f, s') \<Rightarrow> (Inr (\<not> f \<and> dir_present s'), s'))"

definition existsSync :: "string \<Rightarrow> ('f node_fs, js_exception, bool) prog" where
  "existsSync file = (\<lambda>s. case next_fault s of (f, s') \<Rightarrow>
     (Inr (\<not> f \<and> dir_present s' \<and> map_of (files s') file \<noteq> None), s'))"

definition mkdirSync :: "('f node_fs, js_exception, unit) prog" where
  "mkdirSync = (\<lambda>s. case next_fault s of (f, s') \<Rightarrow>
     if f then (Inl FsError, s') else (Inr (), s'\<lparr>dir_present := True\<rparr>))"

definition readFileSync :: "string \<Rightarrow> ('f node_fs, js_exception, 'f) prog" where
  "readFileSync file = (\<lambda>s. case next_fault s of (f, s') \<Rightarrow>
     if f \<or> \<not> dir_present s' then (Inl FsError, s')
     else (case map_of (files s') file of
             None \<Rightarrow> (Inl FsError, s')
           | Some content \<Rightarrow> (Inr content, s')))"

definition writeFileSync :: "string \<Rightarrow> 'f \<Rightarrow> ('f node_fs, js_exception, unit) prog" where
  "writeFileSync file content = (\<lambda>s. case next_fault s of (f, s') \<Rightarrow>
     if f \<or> \<not> dir_present s' then (Inl FsError, s')
     else (Inr (), s'\<lparr>files := AList.update file content (files s')\<rparr>))"

definition readdirSync :: "('f node_fs, js_exception, string list) prog" where
  "readdirSync = (\<lambda>s. case next_fault s of (f, s') \<Rightarrow>
     if f \<or> \<not> dir_present s' then (Inl FsError, s') else (Inr (map fst (files s')), s'))"

definition statSync :: "('d, 'p, 'f) runtime \<Rightarrow> string \<Rightarrow> ('f node_fs, js_exception, int) prog" where
  "statSync rt file = (\<lambda>s. case next_fault s of (f, s') \<Rightarrow>
     if f \<or> \<not> dir_present s' then (Inl FsError, s')
     else (case map_of (files s') file of
             None \<Rightarrow> (Inl FsError, s')
           | Some content \<Rightarrow> (Inr (byte_length rt content), s')))"

definition unlinkSync :: "string \<Rightarrow> ('f node_fs, js_exception, unit) prog" where
  "unlinkSync file = (\<lambda>s. case next_fault s of (f, s') \<Rightarrow>
     if f \<or> \<not> dir_present s' \<or> map_of (files s') file = None then (Inl FsError, s')
     else (Inr (), s'\<lparr>files := AList.delete file (files s')\<rparr>))"

text \<open>\<^verbatim>\<open>setImmediate(() => this.cleanup())\<close> queues the sweep and returns.\<close>

definition setImmediate_cleanup :: "('f node_fs, js_exception, unit) prog" where
  "setImmediate_cleanup = (\<lambda>s. (Inr (), s\<lparr>pending_cleanups := Suc (pending_cleanups s)\<rparr>))"

definition startsWith :: "string \<Rightarrow> string \<Rightarrow> bool" where
  "startsWith s p = (take (length p) s = p)"

definition endsWith :: "string \<Rightarrow> string \<Rightarrow> bool" where
  "endsWith s suffix = (length suffix \<le> length s \<and> drop (length s - length suffix) s = suffix)"

subsection \<open>The cache\<close>

text \<open>\<^verbatim>\<open>DEFAULT_TTLS\<close>, by its entries in the order of \<^verbatim>\<open>Object.entries\<close> (seconds).\<close>

definition DEFAULT_TTLS :: "(string \<times> int) list" where
  "DEFAULT_TTLS =
     [(''/projects'', 3600), (''/people'', 3600), (''/services'', 3600),
      (''/time_entries'', 300), (''/tasks'', 900), (''/budgets'', 900)]"

definition MAX_CACHE_SIZE :: int where
  "MAX_CACHE_SIZE = 50 * 1024 * 1024"

definition MAX_CACHE_ENTRIES :: nat where
  "MAX_CACHE_ENTRIES = 1000"

text \<open>
  The object: the directory is fixed (it is the state above), so the only field left is
  \<^verbatim>\<open>enabled\<close>.
\<close>

record FileCache =
  fc_enabled :: bool

definition ensureCacheDir :: "('f node_fs, js_exception, unit) prog" where
  "ensureCacheDir =
     io_bind existsSync_dir (\<lambda>ex. if \<not> ex then mkdirSync else io_return ())"

definition FileCache_new :: "bool \<Rightarrow> ('f node_fs, js_exception, FileCache) prog" where
  "FileCache_new enabled_arg =
     io_bind (if enabled_arg then ensureCacheDir else io_return ())
       (\<lambda>_. io_return \<lparr>fc_enabled = enabled_arg\<rparr>)"

definition getCacheKey ::
  "('d, 'p, 'f) runtime \<Rightarrow> string \<Rightarrow> 'p \<Rightarrow> string \<Rightarrow> ('f node_fs, js_exception, string) prog" where
  "getCacheKey rt endpoint params orgId = io_lift (cache_key rt endpoint params orgId)"

definition getTTL :: "string \<Rightarrow> int option \<Rightarrow> int" where
  "getTTL endpoint customTTL =
     (case customTTL of
        Some t \<Rightarrow> t
      | None \<Rightarrow>
          (case find (\<lambda>(pattern, ttl). startsWith endpoint pattern) DEFAULT_TTLS of
             Some (pattern, ttl) \<Rightarrow> ttl
           | None \<Rightarrow> 300))"

text \<open>
  \<^verbatim>\<open>age > entry.ttl\<close> with \<^verbatim>\<open>age = (Date.now() - entry.timestamp) / 1000\<close>. When the
  time stamp or the TTL is \<^verbatim>\<open>NaN\<close> the comparison is false. Otherwise the clock and the
  time stamp are whole milliseconds and the TTL whole seconds, and the test on doubles is
  the comparison of whole numbers below as long as the division is exact enough to tell
  \<open>ttl\<close> from \<open>ttl + 0.001\<close>, that is for ages below \<open>2^53\<close> milliseconds and TTLs
  below \<open>2^43\<close> seconds. \<open>now\<close> is the value of \<^verbatim>\<open>Date.now()\<close> during one operation.
\<close>

definition expired :: "int \<Rightarrow> 'd parsed_json \<Rightarrow> bool" where
  "expired now entry =
     (case pj_timestamp entry of
        None \<Rightarrow> False
      | Some timestamp \<Rightarrow>
          (case pj_ttl entry of
             None \<Rightarrow> False
           | Some ttl \<Rightarrow> now - timestamp > 1000 * ttl))"

text \<open>The \<^verbatim>\<open>try\<close> block of \<^verbatim>\<open>get\<close>, lines 127 to 143.\<close>

definition FileCache_get_body ::
  "('d, 'p, 'f) runtime \<Rightarrow> int \<Rightarrow> string \<Rightarrow> 'p \<Rightarrow> string \<Rightarrow>
     ('f node_fs, js_exception, 'd option) prog" where
  "FileCache_get_body rt now endpoint params orgId =
     io_bind (getCacheKey rt endpoint params orgId) (\<lambda>key.
       let filePath = key @ ''.json'' in
       io_bind (existsSync filePath) (\<lambda>ex.
         if \<not> ex then io_return None
         else
           io_bind (readFileSync filePath) (\<lambda>content.
             io_bind (io_lift (json_parse rt content)) (\<lambda>entry.
               if expired now entry then
                 io_bind (io_catch (unlinkSync filePath) (\<lambda>_. io_return ()))
                   (\<lambda>_. io_return None)
               else io_return (Some (pj_data entry))))))"

definition FileCache_get ::
  "('d, 'p, 'f) runtime \<Rightarrow> FileCache \<Rightarrow> int \<Rightarrow> string \<Rightarrow> 'p \<Rightarrow> string \<Rightarrow>
     ('f node_fs, js_exception, 'd option) prog" where
  "FileCache_get rt this now endpoint params orgId =
     (if \<not> fc_enabled this then io_return None
      else io_catch (FileCache_get_body rt now endpoint params orgId) (\<lambda>_. io_return None))"

text \<open>The \<^verbatim>\<open>try\<close> block of \<^verbatim>\<open>set\<close>, lines 162 to 177.\<close>

definition FileCache_set_body ::
  "('d, 'p, 'f) runtime \<Rightarrow> int \<Rightarrow> string \<Rightarrow> 'p \<Rightarrow> string \<Rightarrow> 'd \<Rightarrow> int option \<Rightarrow>
     ('f node_fs, js_exception, unit) prog" where
  "FileCache_set_body rt now endpoint params orgId data_arg ttl_option =
     io_bind (getCacheKey rt endpoint params orgId) (\<lambda>key.
       let filePath = key @ ''.json'';
           ttl = getTTL endpoint ttl_option;
           entry = \<lparr>ce_data = data_arg, ce_timestamp = now, ce_ttl = ttl,
                    ce_endpoint = endpoint, ce_params = params\<rparr>
       in io_bind (io_lift (json_stringify rt entry)) (\<lambda>content.
            io_bind (writeFileSync filePath content) (\<lambda>_. setImmediate_cleanup)))"

definition FileCache_set ::
  "('d, 'p, 'f) runtime \<Rightarrow> FileCache \<Rightarrow> int \<Rightarrow> string \<Rightarrow> 'p \<Rightarrow> string \<Rightarrow> 'd \<Rightarrow> int option \<Rightarrow>
     ('f node_fs, js_exception, unit) prog" where
  "FileCache_set rt this now endpoint params orgId data_arg ttl_option =
     (if \<not> fc_enabled this then io_return ()
      else io_catch (FileCache_set_body rt now endpoint params orgId data_arg ttl_option)
             (\<lambda>_. io_return ()))"

text \<open>
  \<^verbatim>\<open>entry.endpoint.includes(endpointPattern)\<close>: the substring test of a string, the
  membership test of an array, and a \<^verbatim>\<open>TypeError\<close> for a value without the method.
\<close>

definition endpoint_includes :: "endpoint_value \<Rightarrow> string \<Rightarrow> js_exception + bool" where
  "endpoint_includes endpoint pat =
     (case endpoint of
        Endpoint_string e \<Rightarrow> Inr (str_includes e pat)
      | Endpoint_array elements \<Rightarrow> Inr (pat \<in> set elements)
      | Endpoint_other \<Rightarrow> Inl TypeError)"

text \<open>The body of the loop of \<^verbatim>\<open>invalidate\<close>, lines 193 to 212.\<close>

definition invalidate_step ::
  "('d, 'p, 'f) runtime \<Rightarrow> string option \<Rightarrow> string \<Rightarrow> ('f node_fs, js_exception, unit) prog" where
  "invalidate_step rt endpointPattern file =
     (if \<not> endsWith file ''.json'' then io_return ()
      else
        (case truthy endpointPattern of
           None \<Rightarrow> unlinkSync file
         | Some pat \<Rightarrow>
             io_catch
               (io_bind (readFileSync file) (\<lambda>content.
                  io_bind (io_lift (json_parse rt content)) (\<lambda>entry.
                    io_bind (io_lift (endpoint_includes (pj_endpoint entry) pat)) (\<lambda>hit.
                      if hit then unlinkSync file else io_return ()))))
               (\<lambda>_. unlinkSync file)))"

fun invalidate_loop ::
  "('d, 'p, 'f) runtime \<Rightarrow> string option \<Rightarrow> string list \<Rightarrow> 'f node_fs \<Rightarrow>
     (js_exception + unit) \<times> 'f node_fs" where
  "invalidate_loop rt endpointPattern [] s = (Inr (), s)"
| "invalidate_loop rt endpointPattern (file # rest) s =
     (case invalidate_step rt endpointPattern file s of
        (Inl e, s') \<Rightarrow> (Inl e, s')
      | (Inr _, s') \<Rightarrow> invalidate_loop rt endpointPattern rest s')"

definition FileCache_invalidate ::
  "('d, 'p, 'f) runtime \<Rightarrow> FileCache \<Rightarrow> string option \<Rightarrow> ('f node_fs, js_exception, unit) prog" where
  "FileCache_invalidate rt this endpointPattern =
     (if \<not> fc_enabled this then io_return ()
      else io_catch (io_bind readdirSync (invalidate_loop rt endpointPattern))
             (\<lambda>_. io_return ()))"

definition FileCache_clear ::
  "('d, 'p, 'f) runtime \<Rightarrow> FileCache \<Rightarrow> ('f node_fs, js_exception, unit) prog" where
  "FileCache_clear rt this = FileCache_invalidate rt this None"

record cache_stats =
  st_entries :: nat
  st_size :: int
  st_oldestAge :: int

text \<open>
  The body of the loop of \<^verbatim>\<open>stats\<close>, lines 240 to 250, on (totalSize, oldestTimestamp).
  \<^verbatim>\<open>entry.timestamp < oldestTimestamp\<close> is false for \<^verbatim>\<open>NaN\<close>.
\<close>

definition stats_step ::
  "('d, 'p, 'f) runtime \<Rightarrow> string \<Rightarrow> int \<times> int \<Rightarrow> ('f node_fs, js_exception, int \<times> int) prog" where
  "stats_step rt file acc =
     (case acc of (totalSize, oldestTimestamp) \<Rightarrow>
        io_bind (statSync rt file) (\<lambda>size_arg.
          io_catch
            (io_bind (readFileSync file) (\<lambda>content.
               io_bind (io_lift (json_parse rt content)) (\<lambda>entry.
                 case pj_timestamp entry of
                   Some timestamp \<Rightarrow>
                     if timestamp < oldestTimestamp
                     then io_return (totalSize + size_arg, timestamp)
                     else io_return (totalSize + size_arg, oldestTimestamp)
                 | None \<Rightarrow> io_return (totalSize + size_arg, oldestTimestamp))))
            (\<lambda>_. io_return (totalSize + size_arg, oldestTimestamp))))"

fun stats_loop ::
  "('d, 'p, 'f) runtime \<Rightarrow> string list \<Rightarrow> int \<times> int \<Rightarrow> 'f node_fs \<Rightarrow>
     (js_exception + int \<times> int) \<times> 'f node_fs" where
  "stats_loop rt [] acc s = (Inr acc, s)"
| "stats_loop rt (file # rest) acc s =
     (case stats_step rt file acc s of
        (Inl e, s') \<Rightarrow> (Inl e, s')
      | (Inr acc', s') \<Rightarrow> stats_loop rt rest acc' s')"

text \<open>\<^verbatim>\<open>Math.round(d / 1000)\<close> for a whole number \<open>d\<close>: halves go up.\<close>

definition round_seconds :: "int \<Rightarrow> int" where
  "round_seconds d = (d + 500) div 1000"

definition zero_stats :: cache_stats where
  "zero_stats = \<lparr>st_entries = 0, st_size = 0, st_oldestAge = 0\<rparr>"

definition FileCache_stats_body ::
  "('d, 'p, 'f) runtime \<Rightarrow> int \<Rightarrow> ('f node_fs, js_exception, cache_stats) prog" where
  "FileCache_stats_body rt now =
     io_bind readdirSync (\<lambda>names.
       let json_files = filter (\<lambda>f. endsWith f ''.json'') names in
       io_bind (stats_loop rt json_files (0, now)) (\<lambda>(totalSize, oldestTimestamp).
         io_return \<lparr>st_entries = length json_files, st_size = totalSize,
                    st_oldestAge = round_seconds (now - oldestTimestamp)\<rparr>))"

definition FileCache_stats ::
  "('d, 'p, 'f) runtime \<Rightarrow> FileCache \<Rightarrow> int \<Rightarrow> ('f node_fs, js_exception, cache_stats) prog" where
  "FileCache_stats rt this now =
     io_bind existsSync_dir (\<lambda>ex.
       if \<not> fc_enabled this \<or> \<not> ex then io_return zero_stats
       else io_catch (FileCache_stats_body rt now) (\<lambda>_. io_return zero_stats))"

subsection \<open>The sweep\<close>

text \<open>
  The body of the first loop of \<^verbatim>\<open>cleanup\<close>, lines 275 to 300, on (totalSize,
  fileInfos). \<^verbatim>\<open>statSync\<close> stands outside the inner \<^verbatim>\<open>try\<close>; the \<^verbatim>\<open>unlinkSync\<close> of an
  expired entry stands inside it, so when it throws the handler runs and unlinks again.
  A file whose text parses and is not expired is kept and noted, also when it is not an
  entry: with a missing time stamp or TTL the test \<^verbatim>\<open>age > entry.ttl\<close> is false.
\<close>

definition cleanup_scan_step ::
  "('d, 'p, 'f) runtime \<Rightarrow> int \<Rightarrow> string \<Rightarrow> int \<times> file_info list \<Rightarrow>
     ('f node_fs, js_exception, int \<times> file_info list) prog" where
  "cleanup_scan_step rt now file acc =
     (case acc of (totalSize, fileInfos) \<Rightarrow>
        io_bind (statSync rt file) (\<lambda>size_arg.
          io_catch
            (io_bind (readFileSync file) (\<lambda>content.
               io_bind (io_lift (json_parse rt content)) (\<lambda>entry.
                 if expired now entry then
                   io_bind (unlinkSync file)
                     (\<lambda>_. io_return (totalSize + size_arg - size_arg, fileInfos))
                 else
                   io_return
                     (totalSize + size_arg,
                      fileInfos @ [\<lparr>fi_path = file, fi_timestamp = pj_timestamp entry,
                                     fi_size = size_arg\<rparr>]))))
            (\<lambda>_. io_bind (unlinkSync file)
                    (\<lambda>_. io_return (totalSize + size_arg - size_arg, fileInfos)))))"

fun cleanup_scan ::
  "('d, 'p, 'f) runtime \<Rightarrow> int \<Rightarrow> string list \<Rightarrow> int \<times> file_info list \<Rightarrow> 'f node_fs \<Rightarrow>
     (js_exception + int \<times> file_info list) \<times> 'f node_fs" where
  "cleanup_scan rt now [] acc s = (Inr acc, s)"
| "cleanup_scan rt now (file # rest) acc s =
     (case cleanup_scan_step rt now file acc s of
        (Inl e, s') \<Rightarrow> (Inl e, s')
      | (Inr acc', s') \<Rightarrow> cleanup_scan rt now rest acc' s')"

text \<open>
  \<^verbatim>\<open>fileInfos.sort((a, b) => a.timestamp - b.timestamp)\<close>, line 306. When every time
  stamp is a number the comparison function is consistent and the sort, which is stable,
  orders the records by time stamp. When a time stamp is missing the difference is
  \<^verbatim>\<open>NaN\<close>, which the sort reads as equal: the comparison function is then in general not
  consistent and the order is the implementation's.
\<close>

definition timestamp_number :: "file_info \<Rightarrow> int" where
  "timestamp_number info = (case fi_timestamp info of Some timestamp \<Rightarrow> timestamp | None \<Rightarrow> 0)"

definition sort_fileInfos :: "('d, 'p, 'f) runtime \<Rightarrow> file_info list \<Rightarrow> file_info list" where
  "sort_fileInfos rt fileInfos =
     (if list_all (\<lambda>info. fi_timestamp info \<noteq> None) fileInfos
      then sort_key timestamp_number fileInfos
      else sort_inconsistent rt fileInfos)"

text \<open>
  The \<^verbatim>\<open>while\<close> loop, lines 308 to 314, on (totalSize, fileInfos): \<^verbatim>\<open>shift()\<close> takes
  the head; a failing \<^verbatim>\<open>unlinkSync\<close> is swallowed and leaves \<^verbatim>\<open>totalSize\<close> as it is.
\<close>

fun cleanup_evict ::
  "int \<Rightarrow> file_info list \<Rightarrow> 'f node_fs \<Rightarrow> (js_exception + int \<times> file_info list) \<times> 'f node_fs" where
  "cleanup_evict totalSize [] s = (Inr (totalSize, []), s)"
| "cleanup_evict totalSize (oldest # rest) s =
     (if totalSize > MAX_CACHE_SIZE \<or> length (oldest # rest) > MAX_CACHE_ENTRIES then
        (case io_catch
                (io_bind (unlinkSync (fi_path oldest))
                   (\<lambda>_. io_return (totalSize - fi_size oldest)))
                (\<lambda>_. io_return totalSize) s of
           (Inl e, s') \<Rightarrow> (Inl (e :: js_exception), s')
         | (Inr totalSize', s') \<Rightarrow> cleanup_evict totalSize' rest s')
      else (Inr (totalSize, oldest # rest), s))"

definition FileCache_cleanup_body ::
  "('d, 'p, 'f) runtime \<Rightarrow> int \<Rightarrow> ('f node_fs, js_exception, unit) prog" where
  "FileCache_cleanup_body rt now =
     io_bind readdirSync (\<lambda>names.
       let json_files = filter (\<lambda>f. endsWith f ''.json'') names in
       io_bind (cleanup_scan rt now json_files (0, [])) (\<lambda>(totalSize, fileInfos).
         if totalSize > MAX_CACHE_SIZE \<or> length fileInfos > MAX_CACHE_ENTRIES then
           io_bind (cleanup_evict totalSize (sort_fileInfos rt fileInfos))
             (\<lambda>_. io_return ())
         else io_return ()))"

definition FileCache_cleanup ::
  "('d, 'p, 'f) runtime \<Rightarrow> int \<Rightarrow> ('f node_fs, js_exception, unit) prog" where
  "FileCache_cleanup rt now = io_catch (FileCache_cleanup_body rt now) (\<lambda>_. io_return ())"

text \<open>The event loop runs one queued sweep, at the time \<open>now\<close>.\<close>

definition run_pending_cleanup ::
  "('d, 'p, 'f) runtime \<Rightarrow> int \<Rightarrow> ('f node_fs, js_exception, unit) prog" where
  "run_pending_cleanup rt now = (\<lambda>s.
     if pending_cleanups s = 0 then (Inr (), s)
     else FileCache_cleanup rt now (s\<lparr>pending_cleanups := pending_cleanups s - 1\<rparr>))"

section \<open>The rate limiter\<close>

text \<open>
  Modelled from the spec: the rate limiter (sections 3, 4.1 and 5 of the specification:
  \<^verbatim>\<open>RateWindow\<close>, \<^verbatim>\<open>acquire\<close>) has no source file among the files of the repository
  at hand. The definitions below follow the words of the specification.

  A \<^verbatim>\<open>RateWindow\<close>: the class, the time stamps of the admissions in the trailing window
  (in the order of admission), the limit and the length of the window in milliseconds.
\<close>

record RateWindow =
  rw_classId :: string
  rw_timestamps :: "int list"
  rw_limit :: nat
  rw_windowMs :: int

text \<open>
  Modelled from the spec: "Prune timestamps older than \<^verbatim>\<open>now-windowMs\<close>". A time stamp is
  older than \<^verbatim>\<open>now-windowMs\<close> when it is smaller.
\<close>

definition prune :: "int \<Rightarrow> RateWindow \<Rightarrow> RateWindow" where
  "prune now w =
     w\<lparr>rw_timestamps := filter (\<lambda>t. \<not> t < now - rw_windowMs w) (rw_timestamps w)\<rparr>"

datatype admission = Admitted | Wait int

text \<open>
  Modelled from the spec: one pass of \<^verbatim>\<open>acquire\<close> at the time \<open>now\<close>: "Prune [...]; if
  remaining count < limit, append now, return; else wait \<^verbatim>\<open>windowMs-(now-oldest)\<close> and
  re-check". The oldest time stamp is the first of the sequence; with no time stamp left
  (a limit of zero) the pass waits for a whole window.
\<close>

definition acquire_pass :: "int \<Rightarrow> RateWindow \<Rightarrow> admission \<times> RateWindow" where
  "acquire_pass now w =
     (let w' = prune now w in
      if length (rw_timestamps w') < rw_limit w'
      then (Admitted, w'\<lparr>rw_timestamps := rw_timestamps w' @ [now]\<rparr>)
      else (case rw_timestamps w' of
              [] \<Rightarrow> (Wait (rw_windowMs w'), w')
            | oldest # _ \<Rightarrow> (Wait (rw_windowMs w' - (now - oldest)), w')))"

text \<open>
  Modelled from the spec: the limiter holds one window per class and is shared by all
  tasks, which run on one thread: a pass of \<^verbatim>\<open>acquire\<close> has no suspension point inside,
  so it is one step. The clock of the process only moves forward. \<open>lim_admitted\<close> is the
  record of all admissions of a class since the start; the limiter itself does not keep
  it, the model notes there every time stamp that a pass appends.
\<close>

record limiter =
  lim_clock :: int
  lim_windows :: "string \<Rightarrow> RateWindow"
  lim_admitted :: "string \<Rightarrow> int list"

text \<open>
  A limiter at the time \<open>t0\<close> with a limit and a window length for every class (a window
  is created when its class is first used, which is the same as starting empty).
\<close>

definition new_limiter :: "(string \<Rightarrow> nat \<times> int) \<Rightarrow> int \<Rightarrow> limiter" where
  "new_limiter config t0 =
     \<lparr>lim_clock = t0,
      lim_windows = (\<lambda>c. \<lparr>rw_classId = c, rw_timestamps = [], rw_limit = fst (config c),
                            rw_windowMs = snd (config c)\<rparr>),
      lim_admitted = (\<lambda>c. [])\<rparr>"

text \<open>
  Modelled from the spec: the default classes, "regular" (100 requests in 10 seconds) and
  "reports" (10 requests in 30 seconds). The specification names no other class; here
  every other name gets the values of "regular".
\<close>

definition default_classes :: "string \<Rightarrow> nat \<times> int" where
  "default_classes c = (if c = ''reports'' then (10, 30000) else (100, 10000))"

text \<open>
  Some task runs one pass of \<^verbatim>\<open>acquire\<close> for the class \<open>c\<close>, \<open>delay\<close> milliseconds after
  the last step of the limiter.
\<close>

definition attempt :: "string \<Rightarrow> nat \<Rightarrow> limiter \<Rightarrow> admission \<times> limiter" where
  "attempt c delay L =
     (let now = lim_clock L + int delay in
      case acquire_pass now (lim_windows L c) of
        (r, w') \<Rightarrow>
          (r, \<lparr>lim_clock = now,
               lim_windows = (lim_windows L)(c := w'),
               lim_admitted =
                 (case r of
                    Admitted \<Rightarrow> (lim_admitted L)(c := lim_admitted L c @ [now])
                  | Wait _ \<Rightarrow> lim_admitted L)\<rparr>))"

text \<open>
  Any interleaving of the passes of any number of tasks: the list gives, step by step, the
  class and the time since the step before.
\<close>

fun run :: "(string \<times> nat) list \<Rightarrow> limiter \<Rightarrow> limiter" where
  "run [] L = L"
| "run ((c, delay) # es) L = run es (snd (attempt c delay L))"

text \<open>
  Modelled from the spec: \<^verbatim>\<open>acquire(class)\<close> of one task while no other task runs: pass,
  and on a refusal sleep for the computed wait and pass again. A timer may fire late: the
  list gives, for every pass, by how much; it also bounds the number of passes (the call
  is still suspended when the list is used up, which is the result \<open>False\<close>).
\<close>

fun acquire :: "string \<Rightarrow> int \<Rightarrow> nat list \<Rightarrow> limiter \<Rightarrow> bool \<times> limiter" where
  "acquire c wait [] L = (False, L)"
| "acquire c wait (late # lates) L =
     (case attempt c (nat wait + late) L of
        (Admitted, L') \<Rightarrow> (True, L')
      | (Wait wait', L') \<Rightarrow> acquire c wait' lates L')"

text \<open>
  The admitted time stamps of a class in the trailing interval of length \<open>windowMs\<close> that
  ends at \<open>t\<close>, with both ends and without the far end.
\<close>

definition admitted_within :: "limiter \<Rightarrow> string \<Rightarrow> int \<Rightarrow> int list" where
  "admitted_within L c t =
     filter (\<lambda>a. t - rw_windowMs (lim_windows L c) \<le> a \<and> a \<le> t) (lim_admitted L c)"

definition admitted_within_open :: "limiter \<Rightarrow> string \<Rightarrow> int \<Rightarrow> int list" where
  "admitted_within_open L c t =
     filter (\<lambda>a. t - rw_windowMs (lim_windows L c) < a \<and> a \<le> t) (lim_admitted L c)"

section \<open>The statements' own vocabulary for the resolver\<close>

text \<open>
  The shapes of a query as the regular expressions describe them, written as
  decompositions of the string and not as the recognisers above: the two are proved equal
  below.
\<close>

definition digits_shape :: "string \<Rightarrow> bool" where
  "digits_shape s = (s \<noteq> [] \<and> (\<forall>c \<in> set s. c \<in> set ''0123456789''))"

definition email_shape :: "string \<Rightarrow> bool" where
  "email_shape s =
     (\<exists>a b c. s = a @ ''@'' @ b @ ''.'' @ c \<and> a \<noteq> [] \<and> b \<noteq> [] \<and> c \<noteq> [] \<and>
        (\<forall>x \<in> set (a @ b @ c). \<not> is_space x \<and> x \<noteq> CHR ''@''))"

definition number_shape :: "string list \<Rightarrow> string \<Rightarrow> bool" where
  "number_shape prefixes s =
     (\<exists>p ds. s = p @ ''-'' @ ds \<and> toUpperCase p \<in> set prefixes \<and>
        digits_shape ds)"

text \<open>
  The deal pattern read without the flag \<^verbatim>\<open>i\<close>, and type detection as claim C6 words it:
  a case-sensitive deal pattern, null for everything else.
\<close>

definition number_pattern_exact :: "string list \<Rightarrow> string \<Rightarrow> bool" where
  "number_pattern_exact prefixes s =
     list_ex (\<lambda>p. take (length p) s = p \<and>
                  take 1 (drop (length p) s) = ''-'' \<and>
                  NUMERIC_ID_PATTERN (drop (length p + 1) s)) prefixes"

definition detectType_as_stated :: "string \<Rightarrow> ResolvableResourceType option" where
  "detectType_as_stated q =
     (if NUMERIC_ID_PATTERN q then None
      else if EMAIL_PATTERN q then Some person
      else if PROJECT_NUMBER_PATTERN q then Some project
      else if number_pattern_exact [''D'', ''DEAL''] q then Some deal
      else None)"

text \<open>
  Between two worlds only requests to the API happened: the cache store is the same and
  the trace grew by API calls only.
\<close>

definition api_calls_only :: "'c world \<Rightarrow> 'c world \<Rightarrow> bool" where
  "api_calls_only w w' = (store w' = store w \<and> (\<exists>cs. events w' = events w @ map ApiCall cs))"

text \<open>
  A concrete set of collaborators for the examples: an API that knows one person by email
  and answers every company search with two companies, and a cache that is an association
  list and never fails.
\<close>

definition example_api :: "event list \<Rightarrow> api_call \<Rightarrow> api_error + resource list" where
  "example_api h c =
     (case c of
        getPeople f n \<Rightarrow>
          if f = [(''email'', ''user@example.com'')] then
            Inr [\<lparr>res_id = ''500521'',
                  res_attributes = \<lparr>first_name = Some ''John'', last_name = Some ''Doe'',
                                    a_name = None\<rparr>\<rparr>]
          else Inr []
      | getCompanies f n \<Rightarrow>
          Inr [\<lparr>res_id = ''1'',
                res_attributes = \<lparr>first_name = None, last_name = None, a_name = Some ''Acme''\<rparr>\<rparr>,
               \<lparr>res_id = ''2'',
                res_attributes = \<lparr>first_name = None, last_name = None,
                                  a_name = Some ''Acme Corp''\<rparr>\<rparr>]
      | _ \<Rightarrow> Inr [])"

definition example_env :: "(string \<times> ResolveResult) list collaborators" where
  "example_env =
     \<lparr>api_response = example_api,
      sqlite_cacheGet = (\<lambda>orgId key st. (Inr (map_of st key), st)),
      sqlite_cacheSet = (\<lambda>orgId key v endpoint ttl st. (Inr (), (key, v) # st))\<rparr>"

definition example_world :: "(string \<times> ResolveResult) list world" where
  "example_world = \<lparr>events = [], store = []\<rparr>"

definition example_options :: ResolveOptions where
  "example_options = \<lparr>o_type = None, o_projectId = None, o_first = False, o_orgId = Some ''org''\<rparr>"

definition example_john :: ResolveResult where
  "example_john =
     \<lparr>r_id = ''500521'', r_type = person, r_label = ''John Doe'',
      r_query = ''user@example.com'', r_exact = True\<rparr>"

definition example_acme :: "ResolveResult list" where
  "example_acme =
     [\<lparr>r_id = ''1'', r_type = company, r_label = ''Acme'', r_query = ''Acme'', r_exact = False\<rparr>,
      \<lparr>r_id = ''2'', r_type = company, r_label = ''Acme Corp'', r_query = ''Acme'',
        r_exact = False\<rparr>]"

definition example_filters :: "(string \<times> string) list" where
  "example_filters =
     [(''person_id'', ''user@example.com''), (''note'', ''abc''), (''company_id'', ''77'')]"

definition example_typeMapping :: "string \<rightharpoonup> ResolvableResourceType" where
  "example_typeMapping = [''person_id'' \<mapsto> person, ''company_id'' \<mapsto> company]"
section \<open>The statements' own vocabulary for the response cache\<close>

text \<open>
  A concrete runtime for the examples: data and parameters are strings; the text of a file
  is either an entry or garbage, together with its size in bytes; the key is made of the
  tenant and the parameters.
\<close>

type_synonym example_text = "(string, string) CacheEntry option \<times> int"

text \<open>What is read back from the text of an entry.\<close>

definition entry_as_parsed :: "('d, 'p) CacheEntry \<Rightarrow> 'd parsed_json" where
  "entry_as_parsed e =
     \<lparr>pj_data = ce_data e, pj_timestamp = Some (ce_timestamp e), pj_ttl = Some (ce_ttl e),
      pj_endpoint = Endpoint_string (ce_endpoint e)\<rparr>"

definition example_runtime :: "(string, string, example_text) runtime" where
  "example_runtime =
     \<lparr>cache_key = (\<lambda>endpoint params orgId. Inr (orgId @ ''-'' @ params)),
      json_stringify = (\<lambda>e. Inr (Some e, 100)),
      json_parse = (\<lambda>f. case fst f of None \<Rightarrow> Inl SyntaxError
                           | Some e \<Rightarrow> Inr (entry_as_parsed e)),
      byte_length = snd,
      sort_inconsistent = (\<lambda>fileInfos. fileInfos)\<rparr>"

definition example_entry :: "int \<Rightarrow> int \<Rightarrow> (string, string) CacheEntry" where
  "example_entry t ttl =
     \<lparr>ce_data = ''data'', ce_timestamp = t, ce_ttl = ttl, ce_endpoint = ''/projects'',
      ce_params = ''p''\<rparr>"

text \<open>A directory with one entry, in which the second call of \<^verbatim>\<open>node:fs\<close> fails.\<close>

definition example_faulty_fs :: "example_text node_fs" where
  "example_faulty_fs =
     \<lparr>dir_present = True,
      files = [(''org-p.json'', (Some (example_entry 1000 3600), 100))],
      faults = (\<lambda>n. n = 1), ops = 0, pending_cleanups = 0\<rparr>"

text \<open>A directory in which every call of \<^verbatim>\<open>node:fs\<close> fails but the first.\<close>

definition example_broken_fs :: "example_text node_fs" where
  "example_broken_fs =
     \<lparr>dir_present = True, files = [], faults = (\<lambda>n. 0 < n), ops = 0, pending_cleanups = 0\<rparr>"

text \<open>Collaborators whose resolve cache always fails.\<close>

definition example_failing_env :: "unit collaborators" where
  "example_failing_env =
     \<lparr>api_response = example_api,
      sqlite_cacheGet = (\<lambda>orgId key st. (Inl CacheError, st)),
      sqlite_cacheSet = (\<lambda>orgId key v endpoint ttl st. (Inl CacheError, st))\<rparr>"

text \<open>
  The default TTL as claim C3 words it: the table of the claim, the entry whose pattern is
  the longest prefix of the endpoint, and 300 seconds when no pattern is a prefix.
\<close>

definition claimed_ttl_table :: "(string \<times> int) list" where
  "claimed_ttl_table =
     [(''/projects'', 3600), (''/people'', 3600), (''/services'', 3600),
      (''/time_entries'', 300), (''/tasks'', 900), (''/budgets'', 900)]"

definition longer_match :: "string \<Rightarrow> string \<times> int \<Rightarrow> (string \<times> int) option \<Rightarrow> (string \<times> int) option" where
  "longer_match endpoint candidate best =
     (if startsWith endpoint (fst candidate) \<and>
         (case best of None \<Rightarrow> True | Some b \<Rightarrow> length (fst b) < length (fst candidate))
      then Some candidate else best)"

definition longest_matching :: "(string \<times> int) list \<Rightarrow> string \<Rightarrow> (string \<times> int) option" where
  "longest_matching table endpoint = fold (longer_match endpoint) table None"

definition claimed_default_ttl :: "string \<Rightarrow> int" where
  "claimed_default_ttl endpoint =
     (case longest_matching claimed_ttl_table endpoint of Some b \<Rightarrow> snd b | None \<Rightarrow> 300)"

text \<open>An empty cache directory in which no call fails.\<close>

definition example_empty_fs :: "example_text node_fs" where
  "example_empty_fs =
     \<lparr>dir_present = True, files = [], faults = (\<lambda>n. False), ops = 0, pending_cleanups = 0\<rparr>"





definition info_of :: "('d, 'p, 'f) runtime \<Rightarrow> string \<times> 'f \<Rightarrow> file_info" where
  "info_of rt f =
     \<lparr>fi_path = fst f,
      fi_timestamp =
        (case json_parse rt (snd f) of Inl _ \<Rightarrow> None | Inr entry \<Rightarrow> pj_timestamp entry),
      fi_size = byte_length rt (snd f)\<rparr>"



definition total_size :: "file_info list \<Rightarrow> int" where
  "total_size infos = sum_list (map fi_size infos)"






text \<open>
  The calls of \<^verbatim>\<open>node:fs\<close> that a sweep makes on the state \<open>s\<close> are those numbered from
  \<open>ops s\<close> up to, and without, the number that the counter has when the sweep is over. The
  sweep is undisturbed when none of them fails, the directory exists and its file names
  are distinct. What the schedule says of later calls does not matter to the sweep:
  \<open>without_later_faults\<close> clears the schedule from a number on, and a program is
  \<open>fault_local\<close> when it only moves the counter forward and does the same on a schedule
  cleared from its last call on.
\<close>

definition without_later_faults :: "nat \<Rightarrow> 'f node_fs \<Rightarrow> 'f node_fs" where
  "without_later_faults N s = s\<lparr>faults := (\<lambda>k. k < N \<and> faults s k)\<rparr>"

definition fault_local :: "('f node_fs, 'e, 'a) prog \<Rightarrow> bool" where
  "fault_local P =
     (\<forall>s. ops s \<le> ops (snd (P s)) \<and>
          (\<forall>N. ops (snd (P s)) \<le> N \<longrightarrow>
             P (without_later_faults N s) = (fst (P s), without_later_faults N (snd (P s)))))"








text \<open>
  A runtime in which the text of a file is any value that parses, or garbage, and two
  directories in which no call fails. The first holds a file \<^verbatim>\<open>{}\<close>, a file with a time
  stamp and no TTL, an unreadable file and an expired entry. The second holds two
  unexpired entries of 30 million bytes each and a small file with a time stamp, newer
  than theirs, and no TTL.
\<close>

type_synonym example_loose_text = "string parsed_json option \<times> int"

definition example_loose_runtime :: "(string, string, example_loose_text) runtime" where
  "example_loose_runtime =
     \<lparr>cache_key = (\<lambda>endpoint params orgId. Inr (orgId @ ''-'' @ params)),
      json_stringify = (\<lambda>e. Inr (Some (entry_as_parsed e), 100)),
      json_parse = (\<lambda>f. case fst f of None \<Rightarrow> Inl SyntaxError | Some v \<Rightarrow> Inr v),
      byte_length = snd,
      sort_inconsistent = (\<lambda>fileInfos. fileInfos)\<rparr>"

definition example_loose_fs :: "example_loose_text node_fs" where
  "example_loose_fs =
     \<lparr>dir_present = True,
      files =
        [(''empty_object.json'',
            (Some \<lparr>pj_data = ''undefined'', pj_timestamp = None, pj_ttl = None,
                    pj_endpoint = Endpoint_other\<rparr>, 2)),
         (''no_ttl.json'',
            (Some \<lparr>pj_data = ''data'', pj_timestamp = Some 0, pj_ttl = None,
                    pj_endpoint = Endpoint_string ''/projects''\<rparr>, 40)),
         (''garbage.json'', (None, 5)),
         (''expired.json'', (Some (entry_as_parsed (example_entry 0 1)), 100))],
      faults = (\<lambda>n. False), ops = 0, pending_cleanups = 0\<rparr>"




section \<open>The statements' own vocabulary for the rate limiter\<close>

text \<open>
  What every reachable state of the limiter satisfies: the configuration of a class does
  not change; from the current time on, the window and the record of admissions agree on
  the time stamps that a pruning keeps; and no trailing interval holds more admissions
  than the limit.
\<close>

definition limiter_inv :: "(string \<Rightarrow> nat \<times> int) \<Rightarrow> limiter \<Rightarrow> bool" where
  "limiter_inv config L =
     (\<forall>c. rw_limit (lim_windows L c) = fst (config c) \<and>
          rw_windowMs (lim_windows L c) = snd (config c) \<and>
          (\<forall>q. lim_clock L \<le> q \<longrightarrow>
             filter (\<lambda>a. q - snd (config c) \<le> a) (rw_timestamps (lim_windows L c)) =
             filter (\<lambda>a. q - snd (config c) \<le> a) (lim_admitted L c)) \<and>
          (\<forall>t. length (filter (\<lambda>a. t - snd (config c) \<le> a \<and> a \<le> t) (lim_admitted L c))
                 \<le> fst (config c)))"

text \<open>
  The scenario of the specification: a limit of 2 in a window of 1000 milliseconds for
  every class, and the state after two admissions back to back at the time 5000.
\<close>

definition example_config :: "string \<Rightarrow> nat \<times> int" where
  "example_config c = (2, 1000)"

definition example_two_admitted :: limiter where
  "example_two_admitted =
     run [(''regular'', 0), (''regular'', 0)] (new_limiter example_config 5000)"
section \<open>Properties of the patterns\<close>

lemma NUMERIC_ID_PATTERN_iff: "NUMERIC_ID_PATTERN s \<longleftrightarrow> digits_shape s"
  unfolding NUMERIC_ID_PATTERN_def digits_shape_def list_all_iff is_digit_def by simp

lemma dot_not_space_at: "not_space_at CHR ''.''"
  by (simp add: not_space_at_def is_space_def code_of_def)

lemma EMAIL_PATTERN_imp_shape:
  assumes "EMAIL_PATTERN s"
  shows "email_shape s"
proof -
  define a where "a = takeWhile (\<lambda>c. c \<noteq> CHR ''@'') s"
  define rest where "rest = dropWhile (\<lambda>c. c \<noteq> CHR ''@'') s"
  define d where "d = tl rest"
  from assms have a: "a \<noteq> []" "list_all not_space_at a" and rest: "rest \<noteq> []"
    and d: "list_all not_space_at d" "has_inner_dot d"
    unfolding EMAIL_PATTERN_def a_def rest_def d_def by (simp_all add: Let_def)
  have "hd rest = CHR ''@''"
    using rest hd_dropWhile[of "\<lambda>c. c \<noteq> CHR ''@''" s] unfolding rest_def by auto
  with rest have rest_eq: "rest = CHR ''@'' # d"
    unfolding d_def by (cases rest) auto
  have s_eq: "s = a @ rest" unfolding a_def rest_def by simp
  from d(2) obtain i where i: "1 \<le> i" "i < length d - 1" "d ! i = CHR ''.''"
    unfolding has_inner_dot_def list_ex_iff by auto
  define b where "b = take i d"
  define c where "c = drop (Suc i) d"
  have d_eq: "d = b @ CHR ''.'' # c"
    unfolding b_def c_def using i id_take_nth_drop[of i d] by simp
  have "b \<noteq> []" unfolding b_def using i by auto
  moreover have "c \<noteq> []" unfolding c_def using i by auto
  moreover have "s = a @ ''@'' @ b @ ''.'' @ c"
    using s_eq rest_eq d_eq by simp
  moreover have "\<forall>x \<in> set (a @ b @ c). \<not> is_space x \<and> x \<noteq> CHR ''@''"
    using a(2) d(1) unfolding d_eq list_all_iff not_space_at_def by auto
  ultimately show ?thesis using a(1) unfolding email_shape_def by blast
qed

lemma shape_imp_EMAIL_PATTERN:
  assumes "email_shape s"
  shows "EMAIL_PATTERN s"
proof -
  from assms have "\<exists>a b c. s = a @ ''@'' @ b @ ''.'' @ c \<and> a \<noteq> [] \<and> b \<noteq> [] \<and> c \<noteq> [] \<and>
        (\<forall>x \<in> set (a @ b @ c). \<not> is_space x \<and> x \<noteq> CHR ''@'')"
    unfolding email_shape_def .
  then obtain a b c where s: "s = a @ ''@'' @ b @ ''.'' @ c"
    and ne: "a \<noteq> []" "b \<noteq> []" "c \<noteq> []"
    and cls: "\<forall>x \<in> set (a @ b @ c). \<not> is_space x \<and> x \<noteq> CHR ''@''"
    by (elim exE conjE)
  define d where "d = b @ CHR ''.'' # c"
  have s': "s = a @ CHR ''@'' # d" using s d_def by simp
  have noat: "\<forall>x \<in> set a. x \<noteq> CHR ''@''" using cls by auto
  have tw: "takeWhile (\<lambda>c. c \<noteq> CHR ''@'') s = a"
    unfolding s' using noat by (simp add: takeWhile_tail)
  have dw: "dropWhile (\<lambda>c. c \<noteq> CHR ''@'') s = CHR ''@'' # d"
    unfolding s' using noat by (simp add: dropWhile_append3)
  have "list_all not_space_at a"
    using cls unfolding list_all_iff not_space_at_def by auto
  moreover have "list_all not_space_at d"
    using cls dot_not_space_at unfolding d_def list_all_iff not_space_at_def by auto
  moreover have "has_inner_dot d"
  proof -
    have "1 \<le> length b" using ne(2) by (cases b) simp_all
    moreover have "1 \<le> length c" using ne(3) by (cases c) simp_all
    moreover have "length d - 1 = length b + length c" unfolding d_def by simp
    ultimately have "1 \<le> length b \<and> length b < length d - 1" by linarith
    then have "length b \<in> set [1 ..< length d - 1]" by simp
    moreover have "d ! length b = CHR ''.''" unfolding d_def by simp
    ultimately show ?thesis unfolding has_inner_dot_def list_ex_iff by blast
  qed
  ultimately show ?thesis
    unfolding EMAIL_PATTERN_def tw dw using ne(1) by (simp add: Let_def)
qed

lemma EMAIL_PATTERN_iff: "EMAIL_PATTERN s \<longleftrightarrow> email_shape s"
  using EMAIL_PATTERN_imp_shape shape_imp_EMAIL_PATTERN by blast

lemma number_pattern_iff: "number_pattern ps s \<longleftrightarrow> number_shape ps s"
proof
  assume "number_pattern ps s"
  then obtain p where p: "p \<in> set ps" "toUpperCase (take (length p) s) = p"
      "take 1 (drop (length p) s) = ''-''" "NUMERIC_ID_PATTERN (drop (length p + 1) s)"
    unfolding number_pattern_def list_ex_iff by blast
  have "drop (length p) s = ''-'' @ drop (length p + 1) s"
    using p(3) by (metis append_take_drop_id drop_drop add.commute)
  then have "s = take (length p) s @ ''-'' @ drop (length p + 1) s"
    by (metis append_take_drop_id)
  then show "number_shape ps s"
    unfolding number_shape_def using p(1,2,4) NUMERIC_ID_PATTERN_iff by (metis (full_types))
next
  assume "number_shape ps s"
  then obtain p ds where s: "s = p @ ''-'' @ ds" and p: "toUpperCase p \<in> set ps"
    and ds: "digits_shape ds"
    unfolding number_shape_def by auto
  have len: "length (toUpperCase p) = length p" by (simp add: toUpperCase_def)
  have "toUpperCase (take (length (toUpperCase p)) s) = toUpperCase p"
    unfolding len s by simp
  moreover have "take 1 (drop (length (toUpperCase p)) s) = ''-''"
    unfolding len s by simp
  moreover have "NUMERIC_ID_PATTERN (drop (length (toUpperCase p) + 1) s)"
    unfolding len s using ds NUMERIC_ID_PATTERN_iff by simp
  ultimately show "number_pattern ps s"
    unfolding number_pattern_def list_ex_iff using p by blast
qed

lemma toUpperCase_char_at: "toUpperCase_char CHR ''@'' = CHR ''@''"
  by code_simp

lemma email_shape_at: "email_shape s \<Longrightarrow> CHR ''@'' \<in> set s"
proof -
  assume "email_shape s"
  then have "\<exists>a b c. s = a @ ''@'' @ b @ ''.'' @ c \<and> a \<noteq> [] \<and> b \<noteq> [] \<and> c \<noteq> [] \<and>
        (\<forall>x \<in> set (a @ b @ c). \<not> is_space x \<and> x \<noteq> CHR ''@'')"
    unfolding email_shape_def .
  then obtain a b c where "s = a @ ''@'' @ b @ ''.'' @ c" by (elim exE conjE)
  then show ?thesis by simp
qed

lemma digits_shapeD: "digits_shape s \<Longrightarrow> c \<in> set s \<Longrightarrow> c \<in> set ''0123456789''"
  unfolding digits_shape_def by (elim conjE bspec)

lemma number_shapeD:
  assumes "number_shape ps s"
  obtains p ds where "s = p @ ''-'' @ ds" "toUpperCase p \<in> set ps" "digits_shape ds"
proof -
  from assms have "\<exists>p ds. s = p @ ''-'' @ ds \<and> toUpperCase p \<in> set ps \<and> digits_shape ds"
    unfolding number_shape_def by simp
  then show ?thesis using that by (elim exE conjE)
qed

lemma at_not_digit: "CHR ''@'' \<notin> set ''0123456789''"
  by simp

lemma hyphen_not_digit: "CHR ''-'' \<notin> set ''0123456789''"
  by simp

lemma digits_not_email: "digits_shape s \<Longrightarrow> \<not> email_shape s"
  using email_shape_at digits_shapeD at_not_digit by blast

lemma digits_not_number: "digits_shape s \<Longrightarrow> \<not> number_shape ps s"
proof
  assume d: "digits_shape s" and e: "number_shape ps s"
  from e obtain p ds where "s = p @ ''-'' @ ds" by (rule number_shapeD)
  then have "CHR ''-'' \<in> set s" by simp
  with d show False using digits_shapeD hyphen_not_digit by blast
qed

lemma number_shape_no_at:
  assumes "number_shape ps s" and "\<forall>p \<in> set ps. CHR ''@'' \<notin> set p"
  shows "CHR ''@'' \<notin> set s"
proof
  assume at: "CHR ''@'' \<in> set s"
  from assms(1) obtain p ds where s: "s = p @ ''-'' @ ds" and p: "toUpperCase p \<in> set ps"
    and ds: "digits_shape ds"
    by (rule number_shapeD)
  from ds have "CHR ''@'' \<notin> set ds" using digits_shapeD at_not_digit by blast
  with at s have "CHR ''@'' \<in> set p" by simp
  then have "toUpperCase_char CHR ''@'' \<in> set (toUpperCase p)"
    unfolding toUpperCase_def by (metis image_eqI set_map)
  then have "CHR ''@'' \<in> set (toUpperCase p)" by (simp only: toUpperCase_char_at)
  with p assms(2) show False by blast
qed

lemma email_not_number:
  assumes "email_shape s" and "\<forall>p \<in> set ps. CHR ''@'' \<notin> set p"
  shows "\<not> number_shape ps s"
  using assms email_shape_at number_shape_no_at by blast

lemma number_shape_hd:
  assumes "number_shape ps s" and "\<forall>p \<in> set ps. p \<noteq> [] \<and> hd p = c"
  shows "s \<noteq> [] \<and> toUpperCase_char (hd s) = c"
proof -
  from assms(1) obtain p ds where s: "s = p @ ''-'' @ ds" and p: "toUpperCase p \<in> set ps"
    by (rule number_shapeD)
  from p assms(2) have ne: "toUpperCase p \<noteq> []" and h: "hd (toUpperCase p) = c" by blast+
  from ne have pne: "p \<noteq> []" unfolding toUpperCase_def by simp
  then have "hd (toUpperCase p) = toUpperCase_char (hd p)"
    unfolding toUpperCase_def by (simp add: hd_map)
  with h pne s show ?thesis by simp
qed

lemma project_not_deal:
  "number_shape [''PRJ'', ''P''] s \<Longrightarrow> \<not> number_shape [''D'', ''DEAL''] s"
proof
  assume a: "number_shape [''PRJ'', ''P''] s" and b: "number_shape [''D'', ''DEAL''] s"
  have "toUpperCase_char (hd s) = CHR ''P''" using number_shape_hd[OF a, of "CHR ''P''"] by simp
  moreover have "toUpperCase_char (hd s) = CHR ''D''" using number_shape_hd[OF b, of "CHR ''D''"] by simp
  ultimately show False by simp
qed

lemma detect_examples:
  "detectResourceType ''a@b.co'' = Some \<lparr>d_type = person, d_confidence = high, d_pattern = ''email''\<rparr>"
  "map_option d_type (detectResourceType ''PRJ-42'') = Some project"
  "map_option d_type (detectResourceType ''P-42'') = Some project"
  "detectResourceType ''42'' = None"
  "detectResourceType ''Acme'' = None"
  by code_simp+

text \<open>
  Claim C6, as stated, gives the deal pattern without the flag \<^verbatim>\<open>i\<close> and sends every
  other string to null. The source's pattern has the flag: the lower-case \<^verbatim>\<open>d-42\<close> is
  detected as a deal, where the claim's reading gives null.
\<close>

theorem detectResourceType_deal_case_counterexample:
  "map_option d_type (detectResourceType ''d-42'') = Some deal \<and>
   detectType_as_stated ''d-42'' = None"
  by code_simp

text \<open>
  Claim C6, amended: the deal pattern is case-insensitive too. Type detection gives null
  for a string of digits, and such a string is never resolved: it needs no resolution, and
  \<^verbatim>\<open>resolve\<close> passes it through as the id without a lookup (the world is unchanged).
  Detection gives person, high, \<^verbatim>\<open>email\<close> for an email-shaped string; project for
  \<^verbatim>\<open>^(PRJ|P)-\d+$\<close> in any letter case; deal for \<^verbatim>\<open>^(D|DEAL)-\d+$\<close> in any letter
  case; null for every other string. The four shapes exclude one another, so the order of
  the tests does not matter. The five examples of the specification are part of the
  statement.
\<close>

theorem detectResourceType_by_shape:
  "detectResourceType q =
     (if digits_shape q then None
      else if email_shape q then
        Some \<lparr>d_type = person, d_confidence = high, d_pattern = ''email''\<rparr>
      else if number_shape [''PRJ'', ''P''] q then
        Some \<lparr>d_type = project, d_confidence = high, d_pattern = ''project_number''\<rparr>
      else if number_shape [''D'', ''DEAL''] q then
        Some \<lparr>d_type = deal, d_confidence = high, d_pattern = ''deal_number''\<rparr>
      else None) \<and>
   \<not> (digits_shape q \<and> email_shape q) \<and>
   \<not> (digits_shape q \<and> number_shape [''PRJ'', ''P''] q) \<and>
   \<not> (digits_shape q \<and> number_shape [''D'', ''DEAL''] q) \<and>
   \<not> (email_shape q \<and> number_shape [''PRJ'', ''P''] q) \<and>
   \<not> (email_shape q \<and> number_shape [''D'', ''DEAL''] q) \<and>
   \<not> (number_shape [''PRJ'', ''P''] q \<and> number_shape [''D'', ''DEAL''] q) \<and>
   detectResourceType ''a@b.co'' =
     Some \<lparr>d_type = person, d_confidence = high, d_pattern = ''email''\<rparr> \<and>
   map_option d_type (detectResourceType ''PRJ-42'') = Some project \<and>
   map_option d_type (detectResourceType ''P-42'') = Some project \<and>
   detectResourceType ''42'' = None \<and>
   detectResourceType ''Acme'' = None \<and>
   needsResolution q = (\<not> digits_shape q) \<and>
   (digits_shape q \<longrightarrow>
      (\<exists>r. resolve env q options w = (Inr [r], w) \<and> r_id r = q \<and> r_exact r))"
proof -
  have eq: "detectResourceType q =
     (if digits_shape q then None
      else if email_shape q then
        Some \<lparr>d_type = person, d_confidence = high, d_pattern = ''email''\<rparr>
      else if number_shape [''PRJ'', ''P''] q then
        Some \<lparr>d_type = project, d_confidence = high, d_pattern = ''project_number''\<rparr>
      else if number_shape [''D'', ''DEAL''] q then
        Some \<lparr>d_type = deal, d_confidence = high, d_pattern = ''deal_number''\<rparr>
      else None)"
    unfolding detectResourceType_def PROJECT_NUMBER_PATTERN_def DEAL_NUMBER_PATTERN_def
      NUMERIC_ID_PATTERN_iff EMAIL_PATTERN_iff number_pattern_iff ..
  have at1: "\<forall>p \<in> set [''PRJ'', ''P'']. CHR ''@'' \<notin> set p" by simp
  have at2: "\<forall>p \<in> set [''D'', ''DEAL'']. CHR ''@'' \<notin> set p" by simp
  have d1: "\<not> (digits_shape q \<and> email_shape q)" using digits_not_email by blast
  have d2: "\<not> (digits_shape q \<and> number_shape [''PRJ'', ''P''] q)"
    using digits_not_number by blast
  have d3: "\<not> (digits_shape q \<and> number_shape [''D'', ''DEAL''] q)"
    using digits_not_number by blast
  have d4: "\<not> (email_shape q \<and> number_shape [''PRJ'', ''P''] q)"
    using email_not_number[OF _ at1] by blast
  have d5: "\<not> (email_shape q \<and> number_shape [''D'', ''DEAL''] q)"
    using email_not_number[OF _ at2] by blast
  have d6: "\<not> (number_shape [''PRJ'', ''P''] q \<and> number_shape [''D'', ''DEAL''] q)"
    using project_not_deal by blast
  have nr: "needsResolution q = (\<not> digits_shape q)"
    by (simp add: needsResolution_def isNumericId_def NUMERIC_ID_PATTERN_iff)
  have pt: "digits_shape q \<longrightarrow>
      (\<exists>r. resolve env q options w = (Inr [r], w) \<and> r_id r = q \<and> r_exact r)"
    by (simp add: resolve_def isNumericId_def NUMERIC_ID_PATTERN_iff io_return_def)
  from eq d1 d2 d3 d4 d5 d6 detect_examples nr pt show ?thesis by (intro conjI)
qed

theorem detectResourceType_by_shape_witness:
  "email_shape ''x@y.org'' \<and> \<not> digits_shape ''x@y.org'' \<and>
   detectResourceType ''x@y.org'' =
     Some \<lparr>d_type = person, d_confidence = high, d_pattern = ''email''\<rparr> \<and>
   needsResolution ''x@y.org'' \<and>
   digits_shape ''42'' \<and> \<not> needsResolution ''42'' \<and>
   (\<exists>r. resolve example_env ''42'' example_options example_world = (Inr [r], example_world) \<and>
        r_id r = ''42'' \<and> r_exact r)"
proof -
  have "EMAIL_PATTERN ''x@y.org''" by code_simp
  then have e: "email_shape ''x@y.org''" by (simp only: EMAIL_PATTERN_iff)
  note t = detectResourceType_by_shape [of "''x@y.org''" example_env example_options example_world]
  from t e have nd: "\<not> digits_shape ''x@y.org''" by blast
  from t nd have nr: "needsResolution ''x@y.org''" by blast
  from t have "detectResourceType ''x@y.org'' =
     (if digits_shape ''x@y.org'' then None
      else if email_shape ''x@y.org'' then
        Some \<lparr>d_type = person, d_confidence = high, d_pattern = ''email''\<rparr>
      else if number_shape [''PRJ'', ''P''] ''x@y.org'' then
        Some \<lparr>d_type = project, d_confidence = high, d_pattern = ''project_number''\<rparr>
      else if number_shape [''D'', ''DEAL''] ''x@y.org'' then
        Some \<lparr>d_type = deal, d_confidence = high, d_pattern = ''deal_number''\<rparr>
      else None)" by (rule conjunct1)
  with e nd have det: "detectResourceType ''x@y.org'' =
     Some \<lparr>d_type = person, d_confidence = high, d_pattern = ''email''\<rparr>"
    by (simp only: if_True if_False simp_thms)
  have "NUMERIC_ID_PATTERN ''42''" by code_simp
  then have n: "digits_shape ''42''" by (simp only: NUMERIC_ID_PATTERN_iff)
  note u = detectResourceType_by_shape [of "''42''" example_env example_options example_world]
  from u n have nn: "\<not> needsResolution ''42''" by blast
  from u n have pt: "\<exists>r. resolve example_env ''42'' example_options example_world =
      (Inr [r], example_world) \<and> r_id r = ''42'' \<and> r_exact r"
    by blast
  from e nd det nr n nn pt show ?thesis by (intro conjI)
qed
section \<open>Properties of the resolver\<close>

subsection \<open>Helper lemmas\<close>

lemma io_bind_apply:
  "io_bind m f s = (case m s of (Inl e, s') \<Rightarrow> (Inl e, s') | (Inr v, s') \<Rightarrow> f v s')"
  by (simp add: io_bind_def)

lemma resolve_finish_nonempty:
  "resolve_finish env t query options results w = (Inr rs, w') \<Longrightarrow> rs \<noteq> []"
  unfolding resolve_finish_def io_bind_apply io_throw_def io_return_def
  by (auto split: list.splits prod.splits sum.splits if_splits)

lemma resolve_nonempty:
  assumes "resolve env query options w = (Inr rs, w')"
  shows "rs \<noteq> []"
proof (cases "isNumericId query")
  case True
  with assms show ?thesis by (auto simp: resolve_def io_return_def)
next
  case False
  with assms show ?thesis
    unfolding resolve_def io_bind_apply io_throw_def io_return_def
    by (auto split: prod.splits sum.splits option.splits dest: resolve_finish_nonempty)
qed

lemma api_calls_only_refl: "api_calls_only w w"
  unfolding api_calls_only_def by (auto intro: exI[of _ "[]"])

lemma api_calls_only_trans:
  "api_calls_only w w1 \<Longrightarrow> api_calls_only w1 w2 \<Longrightarrow> api_calls_only w w2"
  unfolding api_calls_only_def
  by (auto, metis map_append)

lemma call_api_only: "call_api env c w = (r, w') \<Longrightarrow> api_calls_only w w'"
  unfolding call_api_def api_calls_only_def Let_def
  by (auto split: sum.splits intro: exI[of _ "[c]"])

lemma io_bind_only:
  assumes "io_bind m f w = (r, w')"
    and "\<And>x w1. m w = (x, w1) \<Longrightarrow> api_calls_only w w1"
    and "\<And>v w1. m w = (Inr v, w1) \<Longrightarrow> f v w1 = (r, w') \<Longrightarrow> api_calls_only w1 w'"
  shows "api_calls_only w w'"
proof (cases "m w")
  case (Pair x w1)
  show ?thesis
  proof (cases x)
    case (Inl e)
    with Pair assms(1) have "w' = w1" by (simp add: io_bind_apply)
    with assms(2)[OF Pair] show ?thesis by simp
  next
    case (Inr v)
    with Pair assms(1) have "f v w1 = (r, w')" by (simp add: io_bind_apply)
    with assms(3) Pair Inr have "api_calls_only w1 w'" by simp
    with assms(2)[OF Pair] show ?thesis by (rule api_calls_only_trans)
  qed
qed

lemma io_return_only: "io_return v w = (r, w') \<Longrightarrow> api_calls_only w w'"
  by (auto simp: io_return_def api_calls_only_refl)

lemma resolvePersonByEmail_only:
  "resolvePersonByEmail env q w = (r, w') \<Longrightarrow> api_calls_only w w'"
  unfolding resolvePersonByEmail_def
  by (erule io_bind_only) (auto dest: call_api_only io_return_only split: list.splits)

lemma resolvePersonByName_only:
  "resolvePersonByName env q w = (r, w') \<Longrightarrow> api_calls_only w w'"
  unfolding resolvePersonByName_def
  by (erule io_bind_only) (auto dest: call_api_only io_return_only split: list.splits)

lemma resolveProjectByName_only:
  "resolveProjectByName env q w = (r, w') \<Longrightarrow> api_calls_only w w'"
  unfolding resolveProjectByName_def
  by (erule io_bind_only) (auto dest: call_api_only io_return_only split: list.splits)

lemma resolveCompanyByName_only:
  "resolveCompanyByName env q w = (r, w') \<Longrightarrow> api_calls_only w w'"
  unfolding resolveCompanyByName_def
  by (erule io_bind_only) (auto dest: call_api_only io_return_only split: list.splits)

lemma resolveDealByName_only:
  "resolveDealByName env q w = (r, w') \<Longrightarrow> api_calls_only w w'"
  unfolding resolveDealByName_def
  by (erule io_bind_only) (auto dest: call_api_only io_return_only split: list.splits)

lemma resolveServiceByName_only:
  "resolveServiceByName env q pid w = (r, w') \<Longrightarrow> api_calls_only w w'"
  unfolding resolveServiceByName_def Let_def
  by (erule io_bind_only) (auto dest: call_api_only io_return_only split: list.splits)

lemma resolveProjectByNumber_only:
  "resolveProjectByNumber env q w = (r, w') \<Longrightarrow> api_calls_only w w'"
  unfolding resolveProjectByNumber_def Let_def
  apply (erule io_bind_only)
   apply (erule call_api_only)
  apply (simp split: list.splits)
   apply (erule io_bind_only)
    apply (erule call_api_only)
   apply (auto dest: io_return_only split: list.splits)
  done

lemma resolveDealByNumber_only:
  "resolveDealByNumber env q w = (r, w') \<Longrightarrow> api_calls_only w w'"
  unfolding resolveDealByNumber_def Let_def
  apply (erule io_bind_only)
   apply (erule call_api_only)
  apply (simp split: list.splits)
   apply (erule io_bind_only)
    apply (erule call_api_only)
   apply (auto dest: io_return_only split: list.splits)
  done

lemma option_step_only:
  assumes "io_bind m (\<lambda>r. io_return (option_to_list r)) w = (res, w')"
    and "\<And>x w1. m w = (x, w1) \<Longrightarrow> api_calls_only w w1"
  shows "api_calls_only w w'"
  using assms(1)
  by (rule io_bind_only) (auto dest: assms(2) io_return_only)

lemma resolve_by_type_only:
  assumes "resolve_by_type env t pat q pid w = (r, w')"
  shows "api_calls_only w w'"
proof (cases t)
  case person
  with assms show ?thesis unfolding resolve_by_type_def
    by (auto split: if_splits dest: resolvePersonByName_only
        option_step_only[OF _ resolvePersonByEmail_only])
next
  case project
  with assms show ?thesis unfolding resolve_by_type_def
    by (auto split: if_splits dest: resolveProjectByName_only
        option_step_only[OF _ resolveProjectByNumber_only])
next
  case company
  with assms show ?thesis unfolding resolve_by_type_def
    by (auto dest: resolveCompanyByName_only)
next
  case deal
  with assms show ?thesis unfolding resolve_by_type_def
    by (auto split: if_splits dest: resolveDealByName_only
        option_step_only[OF _ resolveDealByNumber_only])
next
  case service
  with assms show ?thesis unfolding resolve_by_type_def
    by (auto dest: resolveServiceByName_only)
qed

lemma io_bind_InrE:
  assumes "io_bind m f w = (Inr r, w')"
  obtains v w1 where "m w = (Inr v, w1)" "f v w1 = (Inr r, w')"
  using assms unfolding io_bind_apply by (auto split: prod.splits sum.splits)

lemma io_return_InrD: "io_return v w = (Inr r, w') \<Longrightarrow> r = v"
  by (simp add: io_return_def)

lemma resolvePersonByEmail_result:
  "resolvePersonByEmail env q w = (Inr (Some r), w') \<Longrightarrow> r_type r = person \<and> r_query r = q"
  unfolding resolvePersonByEmail_def
  by (erule io_bind_InrE) (auto simp: io_return_def split: list.splits)

lemma resolveProjectByNumber_result:
  "resolveProjectByNumber env q w = (Inr (Some r), w') \<Longrightarrow> r_type r = project \<and> r_query r = q"
  unfolding resolveProjectByNumber_def Let_def
  apply (erule io_bind_InrE)
  apply (simp split: list.splits)
   apply (erule io_bind_InrE)
   apply (auto simp: io_return_def split: list.splits)
  done

lemma resolveDealByNumber_result:
  "resolveDealByNumber env q w = (Inr (Some r), w') \<Longrightarrow> r_type r = deal \<and> r_query r = q"
  unfolding resolveDealByNumber_def Let_def
  apply (erule io_bind_InrE)
  apply (simp split: list.splits)
   apply (erule io_bind_InrE)
   apply (auto simp: io_return_def split: list.splits)
  done

lemma resolvePersonByName_result:
  "resolvePersonByName env q w = (Inr rs, w') \<Longrightarrow> r \<in> set rs \<Longrightarrow> r_type r = person \<and> r_query r = q"
  unfolding resolvePersonByName_def
  by (erule io_bind_InrE) (auto simp: io_return_def)

lemma resolveProjectByName_result:
  "resolveProjectByName env q w = (Inr rs, w') \<Longrightarrow> r \<in> set rs \<Longrightarrow> r_type r = project \<and> r_query r = q"
  unfolding resolveProjectByName_def
  by (erule io_bind_InrE) (auto simp: io_return_def)

lemma resolveCompanyByName_result:
  "resolveCompanyByName env q w = (Inr rs, w') \<Longrightarrow> r \<in> set rs \<Longrightarrow> r_type r = company \<and> r_query r = q"
  unfolding resolveCompanyByName_def
  by (erule io_bind_InrE) (auto simp: io_return_def)

lemma resolveDealByName_result:
  "resolveDealByName env q w = (Inr rs, w') \<Longrightarrow> r \<in> set rs \<Longrightarrow> r_type r = deal \<and> r_query r = q"
  unfolding resolveDealByName_def
  by (erule io_bind_InrE) (auto simp: io_return_def)

lemma resolveServiceByName_result:
  "resolveServiceByName env q pid w = (Inr rs, w') \<Longrightarrow> r \<in> set rs \<Longrightarrow> r_type r = service \<and> r_query r = q"
  unfolding resolveServiceByName_def Let_def
  by (erule io_bind_InrE) (auto simp: io_return_def)

lemma option_step_result:
  assumes "io_bind m (\<lambda>r. io_return (option_to_list r)) w = (Inr rs, w')" and "r \<in> set rs"
  shows "\<exists>w1. m w = (Inr (Some r), w1)"
  using assms(1)
proof (rule io_bind_InrE)
  fix v w1 assume m: "m w = (Inr v, w1)" and "io_return (option_to_list v) w1 = (Inr rs, w')"
  then have "rs = option_to_list v" by (simp add: io_return_def)
  with assms(2) have "v = Some r" by (cases v) (simp_all add: option_to_list_def)
  with m show ?thesis by blast
qed

lemma resolve_by_type_result:
  assumes "resolve_by_type env t pat q pid w = (Inr rs, w')" and "r \<in> set rs"
  shows "r_type r = t \<and> r_query r = q"
proof (cases t)
  case person
  with assms show ?thesis unfolding resolve_by_type_def
    by (auto split: if_splits dest!: option_step_result
        dest: resolvePersonByName_result resolvePersonByEmail_result)
next
  case project
  with assms show ?thesis unfolding resolve_by_type_def
    by (auto split: if_splits dest!: option_step_result
        dest: resolveProjectByName_result resolveProjectByNumber_result)
next
  case company
  with assms show ?thesis unfolding resolve_by_type_def
    by (auto dest: resolveCompanyByName_result)
next
  case deal
  with assms show ?thesis unfolding resolve_by_type_def
    by (auto split: if_splits dest!: option_step_result
        dest: resolveDealByName_result resolveDealByNumber_result)
next
  case service
  with assms show ?thesis unfolding resolve_by_type_def
    by (auto dest: resolveServiceByName_result)
qed

lemma getCachedResolve_apply:
  assumes "sqlite_cacheGet env org (getResolveCacheKey org t q) (store w) = (g, c)"
  shows "getCachedResolve env org t q w =
    (Inr (case g of Inl _ \<Rightarrow> None | Inr v \<Rightarrow> v),
     \<lparr>events = events w @ [CacheGet org (getResolveCacheKey org t q)], store = c\<rparr>)"
  using assms unfolding getCachedResolve_def io_catch_def call_cacheGet_def io_return_def
  by (cases g) simp_all

lemma setCachedResolve_apply:
  "setCachedResolve env org r w =
    (Inr (),
     \<lparr>events = events w @
        [CacheSet org (getResolveCacheKey org (r_type r) (r_query r)) r ''/resolve''
           (if r_exact r then 24 * 60 * 60 * 1000 else 60 * 60 * 1000)],
      store = snd (sqlite_cacheSet env org (getResolveCacheKey org (r_type r) (r_query r)) r
           ''/resolve'' (if r_exact r then 24 * 60 * 60 * 1000 else 60 * 60 * 1000) (store w))\<rparr>)"
  unfolding setCachedResolve_def io_catch_def call_cacheSet_def io_return_def
    CACHE_TTL_exact_def CACHE_TTL_fuzzy_def
  by (auto split: prod.splits sum.splits)

lemma determine_type_resolved:
  "resolve_determine_type q options = Inr (t, pat) \<Longrightarrow>
   (case o_type options of Some t \<Rightarrow> Some t
    | None \<Rightarrow> map_option d_type (detectResourceType q)) = Some t"
  unfolding resolve_determine_type_def by (auto split: option.splits)

lemma resolve_try_cache_apply:
  assumes "truthy (o_orgId options) = Some org"
    and "resolve_determine_type q options = Inr (t, pat)"
  shows "resolve_try_cache env q options w = getCachedResolve env org t q w"
  unfolding resolve_try_cache_def using assms(1) determine_type_resolved[OF assms(2)]
  by simp

lemma resolve_finish_events:
  "resolve_finish env t q options rs w2 = (x, w3) \<Longrightarrow> \<exists>rest. events w3 = events w2 @ rest"
  unfolding resolve_finish_def io_bind_apply io_throw_def io_return_def
  by (auto simp: setCachedResolve_apply split: list.splits option.splits if_splits)

lemma resolve_finish_single:
  assumes "truthy (o_orgId options) = Some org"
  shows "resolve_finish env t q options [r] w2 =
    (Inr [r],
     \<lparr>events = events w2 @
        [CacheSet org (getResolveCacheKey org (r_type r) (r_query r)) r ''/resolve''
           (if r_exact r then 24 * 60 * 60 * 1000 else 60 * 60 * 1000)],
      store = snd (sqlite_cacheSet env org (getResolveCacheKey org (r_type r) (r_query r)) r
           ''/resolve'' (if r_exact r then 24 * 60 * 60 * 1000 else 60 * 60 * 1000) (store w2))\<rparr>)"
  unfolding resolve_finish_def io_bind_apply io_return_def
  using assms by (simp add: setCachedResolve_apply)

lemma resolve_finish_many:
  assumes "1 < length rs"
  shows "resolve_finish env t q options rs w2 =
    (Inr (if o_first options then [hd rs] else rs), w2)"
  using assms unfolding resolve_finish_def io_bind_apply io_return_def
  by (cases rs) (auto split: option.splits)

lemma resolve_unfold_miss:
  assumes "\<not> isNumericId q"
    and "resolve_try_cache env q options w = (Inr None, w1)"
    and "resolve_determine_type q options = Inr (t, pat)"
  shows "resolve env q options w =
    (case resolve_by_type env t pat q (o_projectId options) w1 of
       (Inl e, w2) \<Rightarrow> (Inl e, w2)
     | (Inr rs, w2) \<Rightarrow> resolve_finish env t q options rs w2)"
  using assms unfolding resolve_def io_bind_apply by simp

lemma resolve_unfold_hit:
  assumes "\<not> isNumericId q"
    and "resolve_try_cache env q options w = (Inr (Some r), w1)"
  shows "resolve env q options w = (Inr [r], w1)"
  using assms unfolding resolve_def io_bind_apply io_return_def by simp

lemma resolve_undetermined:
  assumes "\<not> isNumericId q" and "resolve_determine_type q options = Inl err"
  shows "resolve env q options w = (Inl (Thrown_ResolveError err), w)"
proof -
  from assms(2) have "o_type options = None" "detectResourceType q = None"
    unfolding resolve_determine_type_def by (auto split: option.splits)
  then have "resolve_try_cache env q options w = (Inr None, w)"
    unfolding resolve_try_cache_def io_return_def by (simp split: option.splits)
  with assms show ?thesis unfolding resolve_def io_bind_apply io_throw_def by simp
qed

subsection \<open>Numeric queries\<close>

text \<open>
  Claim C5. A query that matches \<^verbatim>\<open>^\d+$\<close> resolves to exactly one result whose id and
  label are the query and whose \<^verbatim>\<open>exact\<close> is true, whatever the options (so whatever the
  configured type); the world is returned unchanged, so no request went to the API and the
  cache was not touched.
\<close>

theorem resolve_numeric_passthrough:
  "isNumericId query \<Longrightarrow>
   \<exists>r. resolve env query options w = (Inr [r], w) \<and>
       r_id r = query \<and> r_label r = query \<and> r_exact r"
  by (simp add: resolve_def io_return_def)

theorem resolve_numeric_passthrough_witness:
  "isNumericId ''12345'' \<and>
   (\<exists>r. resolve example_env ''12345'' (example_options\<lparr>o_type := Some deal\<rparr>) example_world =
          (Inr [r], example_world) \<and>
        r_id r = ''12345'' \<and> r_label r = ''12345'' \<and> r_exact r)"
proof -
  have n: "isNumericId ''12345''" by code_simp
  from resolve_numeric_passthrough [OF n] n show ?thesis by blast
qed

text \<open>
  Claim C9. When the options carry no type, a numeric query resolves, without an error, to
  the single pass-through result: its id, label and query are the query itself, it is
  exact, and its type is \<^verbatim>\<open>project\<close> whatever the query is. The world is unchanged.
\<close>

theorem resolve_numeric_default_type:
  "isNumericId query \<Longrightarrow> o_type options = None \<Longrightarrow>
   resolve env query options w =
     (Inr [\<lparr>r_id = query, r_type = project, r_label = query, r_query = query,
            r_exact = True\<rparr>], w)"
  by (simp add: resolve_def io_return_def)

theorem resolve_numeric_default_type_witness:
  "isNumericId ''42'' \<and> o_type example_options = None \<and>
   resolve example_env ''42'' example_options example_world =
     (Inr [\<lparr>r_id = ''42'', r_type = project, r_label = ''42'', r_query = ''42'',
            r_exact = True\<rparr>], example_world)"
proof -
  have n: "isNumericId ''42''" by code_simp
  have t: "o_type example_options = None" by (simp add: example_options_def)
  from resolve_numeric_default_type [OF n t] n t show ?thesis by blast
qed

subsection \<open>No match\<close>

text \<open>
  Claim C7. When the cache gave nothing and the lookup chosen for the resource type comes
  back with no match, \<^verbatim>\<open>resolve\<close> throws a \<^verbatim>\<open>ResolveError\<close> that carries the query and
  the attempted type; and whenever \<^verbatim>\<open>resolve\<close> returns, the list it returns is not empty.
\<close>

theorem resolve_not_found:
  "(\<not> isNumericId query \<and>
    resolve_try_cache env query options w = (Inr None, w1) \<and>
    resolve_determine_type query options = Inr (t, pat) \<and>
    resolve_by_type env t pat query (o_projectId options) w1 = (Inr [], w2)
    \<longrightarrow> (\<exists>err. resolve env query options w = (Inl (Thrown_ResolveError err), w2) \<and>
           e_query err = query \<and> e_type err = Some t)) \<and>
   (\<forall>rs w'. resolve env query options w = (Inr rs, w') \<longrightarrow> rs \<noteq> [])"
proof (intro conjI impI allI)
  assume a: "\<not> isNumericId query \<and>
    resolve_try_cache env query options w = (Inr None, w1) \<and>
    resolve_determine_type query options = Inr (t, pat) \<and>
    resolve_by_type env t pat query (o_projectId options) w1 = (Inr [], w2)"
  then show "\<exists>err. resolve env query options w = (Inl (Thrown_ResolveError err), w2) \<and>
           e_query err = query \<and> e_type err = Some t"
    by (simp add: resolve_def io_bind_apply resolve_finish_def io_throw_def)
next
  fix rs w' assume "resolve env query options w = (Inr rs, w')"
  then show "rs \<noteq> []" by (rule resolve_nonempty)
qed

theorem resolve_not_found_witness:
  "\<not> isNumericId ''nobody@example.com'' \<and>
   resolve_try_cache example_env ''nobody@example.com'' example_options example_world =
     (Inr None,
      \<lparr>events = [CacheGet ''org'' ''resolve:org:person:nobody@example.com''], store = []\<rparr>) \<and>
   resolve_determine_type ''nobody@example.com'' example_options = Inr (person, Some ''email'') \<and>
   resolve_by_type example_env person (Some ''email'') ''nobody@example.com''
       (o_projectId example_options)
       \<lparr>events = [CacheGet ''org'' ''resolve:org:person:nobody@example.com''], store = []\<rparr> =
     (Inr [],
      \<lparr>events = [CacheGet ''org'' ''resolve:org:person:nobody@example.com'',
                 ApiCall (getPeople [(''email'', ''nobody@example.com'')] 1)], store = []\<rparr>) \<and>
   (\<exists>err. resolve example_env ''nobody@example.com'' example_options example_world =
       (Inl (Thrown_ResolveError err),
        \<lparr>events = [CacheGet ''org'' ''resolve:org:person:nobody@example.com'',
                   ApiCall (getPeople [(''email'', ''nobody@example.com'')] 1)], store = []\<rparr>) \<and>
      e_query err = ''nobody@example.com'' \<and> e_type err = Some person)"
proof -
  have h: "\<not> isNumericId ''nobody@example.com'' \<and>
   resolve_try_cache example_env ''nobody@example.com'' example_options example_world =
     (Inr None,
      \<lparr>events = [CacheGet ''org'' ''resolve:org:person:nobody@example.com''], store = []\<rparr>) \<and>
   resolve_determine_type ''nobody@example.com'' example_options = Inr (person, Some ''email'') \<and>
   resolve_by_type example_env person (Some ''email'') ''nobody@example.com''
       (o_projectId example_options)
       \<lparr>events = [CacheGet ''org'' ''resolve:org:person:nobody@example.com''], store = []\<rparr> =
     (Inr [],
      \<lparr>events = [CacheGet ''org'' ''resolve:org:person:nobody@example.com'',
                 ApiCall (getPeople [(''email'', ''nobody@example.com'')] 1)], store = []\<rparr>)"
    by code_simp
  from resolve_not_found [THEN conjunct1, rule_format, OF h] h show ?thesis by (intro conjI) blast+
qed

subsection \<open>The resolve cache\<close>

text \<open>
  Claim C1. For a query that is not numeric and a truthy \<^verbatim>\<open>orgId\<close>: when no type can be
  determined, \<^verbatim>\<open>resolve\<close> throws at once and nothing leaves the resolver. Otherwise the
  first thing that leaves it is the read of the cache under the key of (tenant, type,
  lower-cased query). On a hit the cached result is returned and nothing else happens. On
  a miss, a lookup with exactly one result makes only API calls and is followed by one
  write of that result under the same key, with a TTL of 24 hours (in milliseconds) when
  the result is exact and of one hour otherwise; a lookup with more than one result makes
  only API calls and is followed by no write, also when \<^verbatim>\<open>first\<close> cuts the returned list
  down to its head.
\<close>

theorem resolve_cache_protocol:
  assumes nn: "\<not> isNumericId query" and org: "truthy (o_orgId options) = Some org"
  shows
  "(\<forall>err. resolve_determine_type query options = Inl err \<longrightarrow>
      resolve env query options w = (Inl (Thrown_ResolveError err), w)) \<and>
   (\<forall>t pat g c.
      resolve_determine_type query options = Inr (t, pat) \<and>
      sqlite_cacheGet env org (getResolveCacheKey org t query) (store w) = (g, c) \<longrightarrow>
      (let key = getResolveCacheKey org t query;
           w1 = \<lparr>events = events w @ [CacheGet org key], store = c\<rparr>
       in (\<exists>rest. events (snd (resolve env query options w)) = events w @ CacheGet org key # rest) \<and>
          (\<forall>r. g = Inr (Some r) \<longrightarrow> resolve env query options w = (Inr [r], w1)) \<and>
          (\<forall>r w2. (\<forall>r'. g \<noteq> Inr (Some r')) \<and>
              resolve_by_type env t pat query (o_projectId options) w1 = (Inr [r], w2) \<longrightarrow>
              api_calls_only w1 w2 \<and>
              resolve env query options w =
                (Inr [r],
                 \<lparr>events = events w2 @
                    [CacheSet org key r ''/resolve''
                       (if r_exact r then 24 * 60 * 60 * 1000 else 60 * 60 * 1000)],
                  store = snd (sqlite_cacheSet env org key r ''/resolve''
                       (if r_exact r then 24 * 60 * 60 * 1000 else 60 * 60 * 1000) (store w2))\<rparr>)) \<and>
          (\<forall>rs w2. (\<forall>r'. g \<noteq> Inr (Some r')) \<and>
              resolve_by_type env t pat query (o_projectId options) w1 = (Inr rs, w2) \<and>
              1 < length rs \<longrightarrow>
              api_calls_only w1 w2 \<and>
              resolve env query options w =
                (Inr (if o_first options then [hd rs] else rs), w2))))"
proof (intro conjI allI impI)
  fix err assume "resolve_determine_type query options = Inl err"
  with nn show "resolve env query options w = (Inl (Thrown_ResolveError err), w)"
    by (rule resolve_undetermined)
next
  fix t pat g c
  assume a: "resolve_determine_type query options = Inr (t, pat) \<and>
      sqlite_cacheGet env org (getResolveCacheKey org t query) (store w) = (g, c)"
  define key where "key = getResolveCacheKey org t query"
  define w1 where "w1 = \<lparr>events = events w @ [CacheGet org key], store = c\<rparr>"
  from a have det: "resolve_determine_type query options = Inr (t, pat)"
    and get: "sqlite_cacheGet env org key (store w) = (g, c)" unfolding key_def by simp_all
  have tc: "resolve_try_cache env query options w =
      (Inr (case g of Inl _ \<Rightarrow> None | Inr v \<Rightarrow> v), w1)"
    unfolding resolve_try_cache_apply[OF org det] w1_def key_def
    using get unfolding key_def by (rule getCachedResolve_apply)
  have hit: "resolve env query options w = (Inr [r], w1)" if "g = Inr (Some r)" for r
    using nn tc that by (intro resolve_unfold_hit) simp_all
  have miss_tc: "resolve_try_cache env query options w = (Inr None, w1)"
    if "\<forall>r'. g \<noteq> Inr (Some r')"
  proof -
    from that have "(case g of Inl _ \<Rightarrow> None | Inr v \<Rightarrow> v) = None"
      by (cases g) (auto split: sum.splits)
    with tc show ?thesis by simp
  qed
  note miss = resolve_unfold_miss[OF nn miss_tc det]
  have single: "api_calls_only w1 w2 \<and>
      resolve env query options w =
        (Inr [r],
         \<lparr>events = events w2 @
            [CacheSet org key r ''/resolve''
               (if r_exact r then 24 * 60 * 60 * 1000 else 60 * 60 * 1000)],
          store = snd (sqlite_cacheSet env org key r ''/resolve''
               (if r_exact r then 24 * 60 * 60 * 1000 else 60 * 60 * 1000) (store w2))\<rparr>)"
    if m: "\<forall>r'. g \<noteq> Inr (Some r')"
      and bt: "resolve_by_type env t pat query (o_projectId options) w1 = (Inr [r], w2)" for r w2
  proof -
    from resolve_by_type_result[OF bt, of r] have "r_type r = t" "r_query r = query" by simp_all
    then have k: "getResolveCacheKey org (r_type r) (r_query r) = key" unfolding key_def by simp
    from miss[OF m] bt have "resolve env query options w = resolve_finish env t query options [r] w2"
      by simp
    with resolve_finish_single[OF org, of env t query r w2] k resolve_by_type_only[OF bt]
    show ?thesis by simp
  qed
  have many: "api_calls_only w1 w2 \<and>
      resolve env query options w = (Inr (if o_first options then [hd rs] else rs), w2)"
    if m: "\<forall>r'. g \<noteq> Inr (Some r')"
      and bt: "resolve_by_type env t pat query (o_projectId options) w1 = (Inr rs, w2)"
      and len: "1 < length rs" for rs w2
  proof -
    from miss[OF m] bt have "resolve env query options w = resolve_finish env t query options rs w2"
      by simp
    then have "resolve env query options w = (Inr (if o_first options then [hd rs] else rs), w2)"
      by (simp only: resolve_finish_many[OF len])
    with resolve_by_type_only[OF bt] show ?thesis by (rule conjI)
  qed
  have first: "\<exists>rest. events (snd (resolve env query options w)) = events w @ CacheGet org key # rest"
  proof (cases "\<exists>r. g = Inr (Some r)")
    case True
    then obtain r where "g = Inr (Some r)" ..
    from hit[OF this] show ?thesis by (simp add: w1_def)
  next
    case False
    then have m: "\<forall>r'. g \<noteq> Inr (Some r')" by simp
    obtain x w2 where bt: "resolve_by_type env t pat query (o_projectId options) w1 = (x, w2)"
      by (cases "resolve_by_type env t pat query (o_projectId options) w1")
    from resolve_by_type_only[OF bt] obtain cs where
      e2: "events w2 = events w @ CacheGet org key # map ApiCall cs"
      unfolding api_calls_only_def w1_def by auto
    show ?thesis
    proof (cases x)
      case (Inl e)
      with miss[OF m] bt e2 show ?thesis by simp
    next
      case (Inr rs)
      obtain y w3 where f: "resolve_finish env t query options rs w2 = (y, w3)"
        by (cases "resolve_finish env t query options rs w2")
      from resolve_finish_events[OF f] obtain more where "events w3 = events w2 @ more" ..
      with miss[OF m] bt Inr f e2 show ?thesis by simp
    qed
  qed
  from first hit single many
  show "let key = getResolveCacheKey org t query;
           w1 = \<lparr>events = events w @ [CacheGet org key], store = c\<rparr>
       in (\<exists>rest. events (snd (resolve env query options w)) = events w @ CacheGet org key # rest) \<and>
          (\<forall>r. g = Inr (Some r) \<longrightarrow> resolve env query options w = (Inr [r], w1)) \<and>
          (\<forall>r w2. (\<forall>r'. g \<noteq> Inr (Some r')) \<and>
              resolve_by_type env t pat query (o_projectId options) w1 = (Inr [r], w2) \<longrightarrow>
              api_calls_only w1 w2 \<and>
              resolve env query options w =
                (Inr [r],
                 \<lparr>events = events w2 @
                    [CacheSet org key r ''/resolve''
                       (if r_exact r then 24 * 60 * 60 * 1000 else 60 * 60 * 1000)],
                  store = snd (sqlite_cacheSet env org key r ''/resolve''
                       (if r_exact r then 24 * 60 * 60 * 1000 else 60 * 60 * 1000) (store w2))\<rparr>)) \<and>
          (\<forall>rs w2. (\<forall>r'. g \<noteq> Inr (Some r')) \<and>
              resolve_by_type env t pat query (o_projectId options) w1 = (Inr rs, w2) \<and>
              1 < length rs \<longrightarrow>
              api_calls_only w1 w2 \<and>
              resolve env query options w =
                (Inr (if o_first options then [hd rs] else rs), w2))"
    unfolding Let_def key_def[symmetric] w1_def[symmetric] by blast
qed

theorem resolve_cache_protocol_witness:
  "\<not> isNumericId ''user@example.com'' \<and>
   truthy (o_orgId example_options) = Some ''org'' \<and>
   resolve_determine_type ''user@example.com'' example_options = Inr (person, Some ''email'') \<and>
   sqlite_cacheGet example_env ''org'' (getResolveCacheKey ''org'' person ''user@example.com'')
     (store example_world) = (Inr None, []) \<and>
   resolve_by_type example_env person (Some ''email'') ''user@example.com''
     (o_projectId example_options)
     \<lparr>events = events example_world @
        [CacheGet ''org'' (getResolveCacheKey ''org'' person ''user@example.com'')], store = []\<rparr> =
     (Inr [example_john],
      \<lparr>events = [CacheGet ''org'' ''resolve:org:person:user@example.com'',
                 ApiCall (getPeople [(''email'', ''user@example.com'')] 1)], store = []\<rparr>) \<and>
   resolve example_env ''user@example.com'' example_options example_world =
     (Inr [example_john],
      \<lparr>events = [CacheGet ''org'' ''resolve:org:person:user@example.com'',
                 ApiCall (getPeople [(''email'', ''user@example.com'')] 1),
                 CacheSet ''org'' ''resolve:org:person:user@example.com'' example_john
                   ''/resolve'' 86400000],
       store = [(''resolve:org:person:user@example.com'', example_john)]\<rparr>) \<and>
   sqlite_cacheGet example_env ''org'' (getResolveCacheKey ''org'' person ''user@example.com'')
     (store \<lparr>events = [], store = [(''resolve:org:person:user@example.com'', example_john)]\<rparr>) =
     (Inr (Some example_john), [(''resolve:org:person:user@example.com'', example_john)]) \<and>
   resolve example_env ''user@example.com'' example_options
     \<lparr>events = [], store = [(''resolve:org:person:user@example.com'', example_john)]\<rparr> =
     (Inr [example_john],
      \<lparr>events = [CacheGet ''org'' ''resolve:org:person:user@example.com''],
       store = [(''resolve:org:person:user@example.com'', example_john)]\<rparr>) \<and>
   \<not> isNumericId ''Acme'' \<and>
   truthy (o_orgId (example_options\<lparr>o_type := Some company, o_first := True\<rparr>)) = Some ''org'' \<and>
   resolve_determine_type ''Acme'' (example_options\<lparr>o_type := Some company, o_first := True\<rparr>) =
     Inr (company, None) \<and>
   sqlite_cacheGet example_env ''org'' (getResolveCacheKey ''org'' company ''Acme'')
     (store example_world) = (Inr None, []) \<and>
   resolve_by_type example_env company None ''Acme''
     (o_projectId (example_options\<lparr>o_type := Some company, o_first := True\<rparr>))
     \<lparr>events = events example_world @
        [CacheGet ''org'' (getResolveCacheKey ''org'' company ''Acme'')], store = []\<rparr> =
     (Inr example_acme,
      \<lparr>events = [CacheGet ''org'' ''resolve:org:company:acme'',
                 ApiCall (getCompanies [(''query'', ''Acme'')] 10)], store = []\<rparr>) \<and>
   1 < length example_acme \<and>
   resolve example_env ''Acme'' (example_options\<lparr>o_type := Some company, o_first := True\<rparr>)
     example_world =
     (Inr [hd example_acme],
      \<lparr>events = [CacheGet ''org'' ''resolve:org:company:acme'',
                 ApiCall (getCompanies [(''query'', ''Acme'')] 10)], store = []\<rparr>)"
proof -
  let ?q = "''user@example.com''"
  let ?k = "''resolve:org:person:user@example.com''"
  have nn: "\<not> isNumericId ?q" by code_simp
  have org: "truthy (o_orgId example_options) = Some ''org''" by code_simp
  have det: "resolve_determine_type ?q example_options = Inr (person, Some ''email'')"
    by code_simp
  have key: "getResolveCacheKey ''org'' person ?q = ?k" by code_simp
  have get0: "sqlite_cacheGet example_env ''org'' (getResolveCacheKey ''org'' person ?q)
     (store example_world) = (Inr None, [])" by code_simp
  have bt: "resolve_by_type example_env person (Some ''email'') ?q (o_projectId example_options)
     \<lparr>events = events example_world @ [CacheGet ''org'' (getResolveCacheKey ''org'' person ?q)],
      store = []\<rparr> =
     (Inr [example_john],
      \<lparr>events = [CacheGet ''org'' ?k, ApiCall (getPeople [(''email'', ?q)] 1)], store = []\<rparr>)"
    by code_simp
  have set0: "snd (sqlite_cacheSet example_env ''org'' ?k example_john ''/resolve''
      86400000 []) = [(?k, example_john)]" by code_simp
  have ex: "r_exact example_john" by code_simp
  have miss: "\<forall>r'. (Inr None :: cache_error + ResolveResult option) \<noteq> Inr (Some r')" by simp
  from resolve_cache_protocol [OF nn org, of example_env example_world]
  have "\<forall>t pat g c.
      resolve_determine_type ?q example_options = Inr (t, pat) \<and>
      sqlite_cacheGet example_env ''org'' (getResolveCacheKey ''org'' t ?q) (store example_world) = (g, c) \<longrightarrow>
      (\<forall>r w2. (\<forall>r'. g \<noteq> Inr (Some r')) \<and>
              resolve_by_type example_env t pat ?q (o_projectId example_options)
                \<lparr>events = events example_world @ [CacheGet ''org'' (getResolveCacheKey ''org'' t ?q)],
                 store = c\<rparr> = (Inr [r], w2) \<longrightarrow>
              resolve example_env ?q example_options example_world =
                (Inr [r],
                 \<lparr>events = events w2 @
                    [CacheSet ''org'' (getResolveCacheKey ''org'' t ?q) r ''/resolve''
                       (if r_exact r then 24 * 60 * 60 * 1000 else 60 * 60 * 1000)],
                  store = snd (sqlite_cacheSet example_env ''org'' (getResolveCacheKey ''org'' t ?q) r ''/resolve''
                       (if r_exact r then 24 * 60 * 60 * 1000 else 60 * 60 * 1000) (store w2))\<rparr>))"
    unfolding Let_def by blast
  from this[rule_format, OF conjI[OF det get0], OF conjI[OF miss bt]]
  have single: "resolve example_env ?q example_options example_world =
     (Inr [example_john],
      \<lparr>events = [CacheGet ''org'' ?k, ApiCall (getPeople [(''email'', ?q)] 1),
                 CacheSet ''org'' ?k example_john ''/resolve'' 86400000],
       store = [(?k, example_john)]\<rparr>)"
    unfolding key using ex set0 by simp
  let ?w = "\<lparr>events = [], store = [(?k, example_john)]\<rparr> :: (string \<times> ResolveResult) list world"
  have get1: "sqlite_cacheGet example_env ''org'' (getResolveCacheKey ''org'' person ?q)
     (store ?w) = (Inr (Some example_john), [(?k, example_john)])" by code_simp
  from resolve_cache_protocol [OF nn org, of example_env ?w]
  have "\<forall>t pat g c.
      resolve_determine_type ?q example_options = Inr (t, pat) \<and>
      sqlite_cacheGet example_env ''org'' (getResolveCacheKey ''org'' t ?q) (store ?w) = (g, c) \<longrightarrow>
      (\<forall>r. g = Inr (Some r) \<longrightarrow>
         resolve example_env ?q example_options ?w =
           (Inr [r], \<lparr>events = events ?w @ [CacheGet ''org'' (getResolveCacheKey ''org'' t ?q)],
                       store = c\<rparr>))"
    unfolding Let_def by blast
  from this[rule_format, OF conjI[OF det get1], OF refl]
  have hit: "resolve example_env ?q example_options ?w =
     (Inr [example_john], \<lparr>events = [CacheGet ''org'' ?k], store = [(?k, example_john)]\<rparr>)"
    unfolding key by simp
  let ?o = "example_options\<lparr>o_type := Some company, o_first := True\<rparr>"
  let ?a = "''Acme''"
  let ?ka = "''resolve:org:company:acme''"
  have nn2: "\<not> isNumericId ?a" by code_simp
  have org2: "truthy (o_orgId ?o) = Some ''org''" by code_simp
  have det2: "resolve_determine_type ?a ?o = Inr (company, None)" by code_simp
  have key2: "getResolveCacheKey ''org'' company ?a = ?ka" by code_simp
  have get2: "sqlite_cacheGet example_env ''org'' (getResolveCacheKey ''org'' company ?a)
     (store example_world) = (Inr None, [])" by code_simp
  have bt2: "resolve_by_type example_env company None ?a (o_projectId ?o)
     \<lparr>events = events example_world @ [CacheGet ''org'' (getResolveCacheKey ''org'' company ?a)],
      store = []\<rparr> =
     (Inr example_acme,
      \<lparr>events = [CacheGet ''org'' ?ka, ApiCall (getCompanies [(''query'', ?a)] 10)],
       store = []\<rparr>)"
    by code_simp
  have len: "1 < length example_acme" by (simp add: example_acme_def)
  have fst2: "o_first ?o" by simp
  from resolve_cache_protocol [OF nn2 org2, of example_env example_world]
  have "\<forall>t pat g c.
      resolve_determine_type ?a ?o = Inr (t, pat) \<and>
      sqlite_cacheGet example_env ''org'' (getResolveCacheKey ''org'' t ?a) (store example_world) = (g, c) \<longrightarrow>
      (\<forall>rs w2. (\<forall>r'. g \<noteq> Inr (Some r')) \<and>
              resolve_by_type example_env t pat ?a (o_projectId ?o)
                \<lparr>events = events example_world @ [CacheGet ''org'' (getResolveCacheKey ''org'' t ?a)],
                 store = c\<rparr> = (Inr rs, w2) \<and> 1 < length rs \<longrightarrow>
              resolve example_env ?a ?o example_world =
                (Inr (if o_first ?o then [hd rs] else rs), w2))"
    unfolding Let_def by blast
  from this[rule_format, OF conjI[OF det2 get2], OF conjI[OF miss conjI[OF bt2 len]]]
  have many: "resolve example_env ?a ?o example_world =
     (Inr [hd example_acme],
      \<lparr>events = [CacheGet ''org'' ?ka, ApiCall (getCompanies [(''query'', ?a)] 10)],
       store = []\<rparr>)"
    using fst2 by (simp only: if_True)
  from nn org det get0 bt single get1 hit nn2 org2 det2 get2 bt2 len many
  show ?thesis by (intro conjI)
qed

subsection \<open>Filters\<close>

lemma resolveFilterIds_step_passthrough:
  assumes "read_typeMapping typeMapping key = None \<or> isNumericId v"
  shows "resolveFilterIds_step env typeMapping options (key, v) (resolved, metadata) w =
    (Inr (assign_string resolved key v, metadata), w)"
  using assms unfolding resolveFilterIds_step_def io_return_def
  by (auto split: option.splits)

lemma assign_string_other: "k \<noteq> key \<Longrightarrow> assign_string resolved key v k = resolved k"
  by (simp add: assign_string_def)

lemma assign_entry_other: "k \<noteq> key \<Longrightarrow> md_own (assign_entry metadata key e) k = md_own metadata k"
  by (simp add: assign_entry_def)

lemma assign_string_same: "key \<noteq> ''__proto__'' \<Longrightarrow> assign_string resolved key v key = Some v"
  by (simp add: assign_string_def)

lemma resolveFilterIds_store_returns:
  "\<exists>resolved' metadata'.
     resolveFilterIds_store key v (resolved, metadata) results w = (Inr (resolved', metadata'), w) \<and>
     (\<forall>k. k \<noteq> key \<longrightarrow> resolved' k = resolved k \<and> md_own metadata' k = md_own metadata k)"
  unfolding resolveFilterIds_store_def io_return_def
  by (cases results) (simp_all add: assign_string_other assign_entry_other)

lemma try_store_returns:
  fixes m :: "('c world, 'e, ResolveResult list) prog"
  shows "\<exists>resolved' metadata' w'.
     io_catch (io_bind m (resolveFilterIds_store key v (resolved, metadata)))
       (\<lambda>_. io_return (assign_string resolved key v, metadata)) w =
       (Inr (resolved', metadata') :: thrown + _, w') \<and>
     (\<forall>k. k \<noteq> key \<longrightarrow> resolved' k = resolved k \<and> md_own metadata' k = md_own metadata k)"
proof -
  obtain x w1 where r: "m w = (x, w1)" by (cases "m w")
  show ?thesis
  proof (cases x)
    case (Inl e)
    with r show ?thesis
      unfolding io_catch_def io_bind_apply io_return_def by (simp add: assign_string_other)
  next
    case (Inr rs)
    from resolveFilterIds_store_returns[of key v resolved metadata rs w1]
    obtain resolved' metadata' where
      "resolveFilterIds_store key v (resolved, metadata) rs w1 =
         (Inr (resolved', metadata') :: 'e + _, w1)"
      and "\<forall>k. k \<noteq> key \<longrightarrow> resolved' k = resolved k \<and> md_own metadata' k = md_own metadata k"
      by blast
    with r Inr show ?thesis
      unfolding io_catch_def io_bind_apply by simp
  qed
qed

lemma resolveFilterIds_step_returns:
  "\<exists>resolved' metadata' w'.
     resolveFilterIds_step env typeMapping options (key, v) (resolved, metadata) w =
       (Inr (resolved', metadata'), w') \<and>
     (\<forall>k. k \<noteq> key \<longrightarrow> resolved' k = resolved k \<and> md_own metadata' k = md_own metadata k)"
proof (cases "read_typeMapping typeMapping key = None \<or> isNumericId v")
  case True
  then show ?thesis by (simp add: resolveFilterIds_step_passthrough assign_string_other)
next
  case False
  then obtain t where t: "read_typeMapping typeMapping key = Some t" and nn: "\<not> isNumericId v"
    by auto
  show ?thesis
  proof (cases t)
    case (Own_type ty)
    with t nn have "resolveFilterIds_step env typeMapping options (key, v) (resolved, metadata) w =
        io_catch
          (io_bind (resolve env v (options\<lparr>o_type := Some ty, o_first := True\<rparr>))
             (resolveFilterIds_store key v (resolved, metadata)))
          (\<lambda>_. io_return (assign_string resolved key v, metadata)) w"
      unfolding resolveFilterIds_step_def by simp
    with try_store_returns[of "resolve env v (options\<lparr>o_type := Some ty, o_first := True\<rparr>)"
        key v resolved metadata w]
    show ?thesis by simp
  next
    case (Inherited_value inherited)
    with t nn have "resolveFilterIds_step env typeMapping options (key, v) (resolved, metadata) w =
        io_catch
          (io_bind
             (resolve_inherited_type env v (inherited_text inherited) (options\<lparr>o_first := True\<rparr>))
             (resolveFilterIds_store key v (resolved, metadata)))
          (\<lambda>_. io_return (assign_string resolved key v, metadata)) w"
      unfolding resolveFilterIds_step_def by simp
    with try_store_returns[of
        "resolve_inherited_type env v (inherited_text inherited) (options\<lparr>o_first := True\<rparr>)"
        key v resolved metadata w]
    show ?thesis by simp
  qed
qed

lemma resolveFilterIds_loop_returns:
  "\<exists>acc' w'. resolveFilterIds_loop env typeMapping options kvs acc w = (Inr acc', w')"
proof (induction kvs arbitrary: acc w)
  case Nil
  then show ?case by simp
next
  case (Cons kv kvs)
  obtain key v where kv: "kv = (key, v)" by (cases kv)
  obtain resolved metadata where acc: "acc = (resolved, metadata)" by (cases acc)
  from resolveFilterIds_step_returns[of env typeMapping options key v resolved metadata w]
  obtain resolved' metadata' w' where
    "resolveFilterIds_step env typeMapping options (key, v) (resolved, metadata) w =
       (Inr (resolved', metadata'), w')" by blast
  with Cons.IH[of "(resolved', metadata')" w'] kv acc show ?case by simp
qed

lemma resolveFilterIds_loop_other_keys:
  assumes "resolveFilterIds_loop env typeMapping options kvs (resolved, metadata) w =
      (Inr (resolved', metadata'), w')"
    and "key \<notin> fst ` set kvs"
  shows "resolved' key = resolved key \<and> md_own metadata' key = md_own metadata key"
  using assms
proof (induction kvs arbitrary: resolved metadata w)
  case Nil
  then show ?case by simp
next
  case (Cons kv kvs)
  obtain k v where kv: "kv = (k, v)" by (cases kv)
  with Cons.prems(2) have ne: "key \<noteq> k" and notin: "key \<notin> fst ` set kvs" by auto
  from resolveFilterIds_step_returns[of env typeMapping options k v resolved metadata w]
  obtain r1 m1 w1 where
    st: "resolveFilterIds_step env typeMapping options (k, v) (resolved, metadata) w =
       (Inr (r1, m1), w1)"
    and keep: "\<forall>k'. k' \<noteq> k \<longrightarrow> r1 k' = resolved k' \<and> md_own m1 k' = md_own metadata k'" by blast
  from Cons.prems(1) kv st have
    "resolveFilterIds_loop env typeMapping options kvs (r1, m1) w1 = (Inr (resolved', metadata'), w')"
    by simp
  from Cons.IH[OF this notin] keep ne show ?case by simp
qed

lemma resolveFilterIds_loop_passthrough:
  assumes "resolveFilterIds_loop env typeMapping options kvs (resolved, metadata) w =
      (Inr (resolved', metadata'), w')"
    and "distinct (map fst kvs)" and "(key, v) \<in> set kvs"
    and "read_typeMapping typeMapping key = None \<or> isNumericId v"
    and "key \<noteq> ''__proto__''"
  shows "resolved' key = Some v \<and> md_own metadata' key = md_own metadata key"
  using assms(1,2,3)
proof (induction kvs arbitrary: resolved metadata w)
  case Nil
  then show ?case by simp
next
  case (Cons kv kvs)
  obtain k u where kv: "kv = (k, u)" by (cases kv)
  from Cons.prems(2) kv have notin: "k \<notin> fst ` set kvs" and dist: "distinct (map fst kvs)"
    by auto
  from resolveFilterIds_step_returns[of env typeMapping options k u resolved metadata w]
  obtain r1 m1 w1 where
    st: "resolveFilterIds_step env typeMapping options (k, u) (resolved, metadata) w =
       (Inr (r1, m1), w1)"
    and keep: "\<forall>k'. k' \<noteq> k \<longrightarrow> r1 k' = resolved k' \<and> md_own m1 k' = md_own metadata k'" by blast
  from Cons.prems(1) kv st have rest:
    "resolveFilterIds_loop env typeMapping options kvs (r1, m1) w1 = (Inr (resolved', metadata'), w')"
    by simp
  show ?case
  proof (cases "(key, v) = (k, u)")
    case True
    then have eq: "k = key" "u = v" by simp_all
    from st assms(4) have "r1 = assign_string resolved key v" "m1 = metadata"
      unfolding eq by (simp_all add: resolveFilterIds_step_passthrough)
    moreover from resolveFilterIds_loop_other_keys[OF rest] notin eq
    have "resolved' key = r1 key \<and> md_own metadata' key = md_own m1 key" by simp
    ultimately show ?thesis using assms(5) by (simp add: assign_string_same)
  next
    case False
    with Cons.prems(3) kv have mem: "(key, v) \<in> set kvs" by auto
    then have "key \<in> fst ` set kvs" by force
    with notin have "key \<noteq> k" by auto
    with Cons.IH[OF rest dist mem] keep show ?thesis by simp
  qed
qed

text \<open>
  Where the loop does what its comment says ("No type mapping or already a numeric ID"):
  \<^verbatim>\<open>resolveFilterIds\<close> always returns, and for every key other than \<^verbatim>\<open>__proto__\<close> for
  which \<^verbatim>\<open>typeMapping[key]\<close> reads \<^verbatim>\<open>undefined\<close>, or whose value is a numeric id, the
  returned \<^verbatim>\<open>resolved\<close> holds the value unchanged under that key and the returned
  \<^verbatim>\<open>metadata\<close> has no entry for it, whatever the resolution of the other keys did.
\<close>

lemma resolveFilterIds_ordinary_keys:
  assumes "distinct (map fst filters)" and "(key, v) \<in> set filters"
    and "read_typeMapping typeMapping key = None \<or> isNumericId v"
    and "key \<noteq> ''__proto__''"
  shows "\<exists>resolved metadata w'.
     resolveFilterIds env filters typeMapping options w = (Inr (resolved, metadata), w') \<and>
     resolved key = Some v \<and> md_own metadata key = None"
proof -
  from resolveFilterIds_loop_returns[of env typeMapping options filters
      "(Map.empty, empty_metadata)" w]
  obtain resolved metadata w' where
    r: "resolveFilterIds_loop env typeMapping options filters (Map.empty, empty_metadata) w =
      (Inr (resolved, metadata), w')" by (metis surj_pair)
  from resolveFilterIds_loop_passthrough[OF r assms] r show ?thesis
    unfolding resolveFilterIds_def by (simp add: empty_metadata_def)
qed

lemma resolveFilterIds_ordinary_keys_example:
  "\<exists>resolved metadata w'.
      resolveFilterIds example_env example_filters example_typeMapping example_options
        example_world = (Inr (resolved, metadata), w') \<and>
      resolved ''company_id'' = Some ''77'' \<and> md_own metadata ''company_id'' = None \<and>
      resolved ''note'' = Some ''abc'' \<and> md_own metadata ''note'' = None"
proof -
  have d: "distinct (map fst example_filters)" by code_simp
  have m1: "(''company_id'', ''77'') \<in> set example_filters" by code_simp
  have p1: "read_typeMapping example_typeMapping ''company_id'' = None \<or> isNumericId ''77''"
    by code_simp
  have m2: "(''note'', ''abc'') \<in> set example_filters" by code_simp
  have p2: "read_typeMapping example_typeMapping ''note'' = None \<or> isNumericId ''abc''"
    by code_simp
  have n1: "''company_id'' \<noteq> ''__proto__''" and n2: "''note'' \<noteq> ''__proto__''" by simp_all
  from resolveFilterIds_ordinary_keys [OF d m1 p1 n1, of example_env example_options example_world]
    resolveFilterIds_ordinary_keys [OF d m2 p2 n2, of example_env example_options example_world]
  show ?thesis by auto
qed

text \<open>
  Claim C10. The claim says that the value of every key of the filters that has no entry
  in \<^verbatim>\<open>typeMapping\<close>, or whose value is a numeric id, is copied into the returned
  \<^verbatim>\<open>resolved\<close>. For the filters \<^verbatim>\<open>JSON.parse('{"__proto__":"123"}')\<close>, whose one own key is
  \<^verbatim>\<open>__proto__\<close> with the numeric value 123, the loop takes the pass-through branch and runs
  \<^verbatim>\<open>resolved[key] = value\<close>, which stores nothing: whatever the type mapping, the options,
  the collaborators and the world are, the call returns a \<^verbatim>\<open>resolved\<close> without any own
  property and an empty \<^verbatim>\<open>metadata\<close>, and leaves the world as it was.
\<close>

theorem resolveFilterIds_loses_proto_key:
  "isNumericId ''123'' \<and>
   resolveFilterIds env [(''__proto__'', ''123'')] typeMapping options w =
     (Inr (Map.empty, empty_metadata), w) \<and>
   fst (projr (fst
     (resolveFilterIds env [(''__proto__'', ''123'')] typeMapping options w))) ''__proto__'' = None"
proof -
  have n: "isNumericId ''123''" by code_simp
  then have "resolveFilterIds_step env typeMapping options (''__proto__'', ''123'')
      (Map.empty, empty_metadata) w = (Inr (Map.empty, empty_metadata), w)"
    by (simp add: resolveFilterIds_step_passthrough assign_string_def)
  then have "resolveFilterIds env [(''__proto__'', ''123'')] typeMapping options w =
     (Inr (Map.empty, empty_metadata), w)"
    by (simp add: resolveFilterIds_def)
  with n show ?thesis by simp
qed
section \<open>Properties of the response cache\<close>

subsection \<open>Failures of the cache\<close>

lemma io_catch_returns:
  assumes "\<And>e s1. \<exists>v s'. h e s1 = (Inr v, s')"
  shows "\<exists>v s'. io_catch m h s = (Inr v, s')"
proof (cases "m s")
  case (Pair x s1)
  show ?thesis
  proof (cases x)
    case (Inl e)
    with Pair assms[of e s1] show ?thesis by (simp add: io_catch_def)
  next
    case (Inr v)
    with Pair show ?thesis by (simp add: io_catch_def)
  qed
qed

lemma io_catch_return_const: "\<exists>v s'. io_catch m (\<lambda>_. io_return c) s = (Inr v, s')"
  by (rule io_catch_returns) (simp add: io_return_def)

lemma io_catch_degrades: "m s = (Inl e, s1) \<Longrightarrow> io_catch m (\<lambda>_. io_return c) s = (Inr c, s1)"
  by (simp add: io_catch_def io_return_def)

lemma FileCache_get_returns: "\<exists>v s'. FileCache_get rt this now endpoint params orgId s = (Inr v, s')"
proof (cases "fc_enabled this")
  case True
  then show ?thesis unfolding FileCache_get_def by (simp only: not_True_eq_False if_False io_catch_return_const)
next
  case False
  then show ?thesis unfolding FileCache_get_def by (simp add: io_return_def)
qed

lemma io_catch_return_unit: "\<exists>s'. io_catch m (\<lambda>_. io_return ()) s = (Inr (), s')"
  using io_catch_return_const[of m "()" s] by simp

lemma FileCache_set_returns:
  "\<exists>s'. FileCache_set rt this now endpoint params orgId d ttl s = (Inr (), s')"
proof (cases "fc_enabled this")
  case True
  then show ?thesis unfolding FileCache_set_def by (simp only: not_True_eq_False if_False io_catch_return_unit)
next
  case False
  then show ?thesis unfolding FileCache_set_def by (simp add: io_return_def)
qed

lemma FileCache_invalidate_returns:
  "\<exists>s'. FileCache_invalidate rt this pat s = (Inr (), s')"
proof (cases "fc_enabled this")
  case True
  then show ?thesis unfolding FileCache_invalidate_def
    by (simp only: not_True_eq_False if_False io_catch_return_unit)
next
  case False
  then show ?thesis unfolding FileCache_invalidate_def by (simp add: io_return_def)
qed

lemma existsSync_dir_returns: "\<exists>ex s1. existsSync_dir s = (Inr ex, s1)"
  unfolding existsSync_dir_def by (cases "next_fault s") simp

lemma FileCache_stats_returns:
  "\<exists>v s'. FileCache_stats rt this now s = (Inr v, s')"
proof -
  from existsSync_dir_returns obtain ex s1 where e: "existsSync_dir s = (Inr ex, s1)" by blast
  show ?thesis
  proof (cases "\<not> fc_enabled this \<or> \<not> ex")
    case True
    then show ?thesis unfolding FileCache_stats_def io_bind_apply e by (simp add: io_return_def)
  next
    case False
    then show ?thesis unfolding FileCache_stats_def io_bind_apply e
      using io_catch_return_const[of "FileCache_stats_body rt now" zero_stats s1] by simp
  qed
qed

lemma FileCache_cleanup_returns: "\<exists>s'. FileCache_cleanup rt now s = (Inr (), s')"
  unfolding FileCache_cleanup_def by (rule io_catch_return_unit)

lemma getCachedResolve_returns: "\<exists>v w'. getCachedResolve env org t q w = (Inr v, w')"
  unfolding getCachedResolve_def by (rule io_catch_return_const)

lemma setCachedResolve_returns: "\<exists>w'. setCachedResolve env org r w = (Inr (), w')"
  unfolding setCachedResolve_def by (rule io_catch_return_unit)

lemma fst_eqE: assumes "fst p = a" obtains b where "p = (a, b)"
  using assms by (cases p) simp

text \<open>
  Claim C8. Whatever the file system, the JSON codec, the hashing or the resolve cache do
  (any schedule of failing calls, any text in any file), \<^verbatim>\<open>get\<close>, \<^verbatim>\<open>set\<close>,
  \<^verbatim>\<open>invalidate\<close>, \<^verbatim>\<open>clear\<close>, \<^verbatim>\<open>stats\<close>, the sweep, and the resolver's cache read and
  write return and never throw. When the body of \<^verbatim>\<open>get\<close> throws, \<^verbatim>\<open>get\<close> answers null;
  when the body of \<^verbatim>\<open>set\<close> throws, \<^verbatim>\<open>set\<close> returns; when the body of \<^verbatim>\<open>stats\<close>
  throws, the statistics are all zero; when the resolve cache fails on a read, the read
  answers null.
\<close>

theorem cache_failures_never_propagate:
  "(\<exists>v s'. FileCache_get rt this now endpoint params orgId s = (Inr v, s')) \<and>
   (\<exists>s'. FileCache_set rt this now endpoint params orgId d ttl s = (Inr (), s')) \<and>
   (\<exists>s'. FileCache_invalidate rt this pat s = (Inr (), s')) \<and>
   (\<exists>s'. FileCache_clear rt this s = (Inr (), s')) \<and>
   (\<exists>v s'. FileCache_stats rt this now s = (Inr v, s')) \<and>
   (\<exists>s'. FileCache_cleanup rt now s = (Inr (), s')) \<and>
   (\<exists>v w'. getCachedResolve env org t q w = (Inr v, w')) \<and>
   (\<exists>w'. setCachedResolve env org r w = (Inr (), w')) \<and>
   (\<forall>e s1. fc_enabled this \<and> FileCache_get_body rt now endpoint params orgId s = (Inl e, s1) \<longrightarrow>
      FileCache_get rt this now endpoint params orgId s = (Inr None, s1)) \<and>
   (\<forall>e s1. fc_enabled this \<and>
      FileCache_set_body rt now endpoint params orgId d ttl s = (Inl e, s1) \<longrightarrow>
      FileCache_set rt this now endpoint params orgId d ttl s = (Inr (), s1)) \<and>
   (\<forall>e s1 s2. fc_enabled this \<and> existsSync_dir s = (Inr True, s1) \<and>
      FileCache_stats_body rt now s1 = (Inl e, s2) \<longrightarrow>
      FileCache_stats rt this now s = (Inr zero_stats, s2)) \<and>
   (\<forall>e c. sqlite_cacheGet env org (getResolveCacheKey org t q) (store w) = (Inl e, c) \<longrightarrow>
      fst (getCachedResolve env org t q w) = Inr None)"
proof (intro conjI allI impI)
  show "\<exists>v s'. FileCache_get rt this now endpoint params orgId s = (Inr v, s')"
    by (rule FileCache_get_returns)
  show "\<exists>s'. FileCache_set rt this now endpoint params orgId d ttl s = (Inr (), s')"
    by (rule FileCache_set_returns)
  show "\<exists>s'. FileCache_invalidate rt this pat s = (Inr (), s')"
    by (rule FileCache_invalidate_returns)
  show "\<exists>s'. FileCache_clear rt this s = (Inr (), s')"
    unfolding FileCache_clear_def by (rule FileCache_invalidate_returns)
  show "\<exists>v s'. FileCache_stats rt this now s = (Inr v, s')"
    by (rule FileCache_stats_returns)
  show "\<exists>s'. FileCache_cleanup rt now s = (Inr (), s')"
    by (rule FileCache_cleanup_returns)
  show "\<exists>v w'. getCachedResolve env org t q w = (Inr v, w')"
    by (rule getCachedResolve_returns)
  show "\<exists>w'. setCachedResolve env org r w = (Inr (), w')"
    by (rule setCachedResolve_returns)
next
  fix e s1
  assume "fc_enabled this \<and> FileCache_get_body rt now endpoint params orgId s = (Inl e, s1)"
  then show "FileCache_get rt this now endpoint params orgId s = (Inr None, s1)"
    unfolding FileCache_get_def by (simp add: io_catch_degrades)
next
  fix e s1
  assume "fc_enabled this \<and>
      FileCache_set_body rt now endpoint params orgId d ttl s = (Inl e, s1)"
  then show "FileCache_set rt this now endpoint params orgId d ttl s = (Inr (), s1)"
    unfolding FileCache_set_def by (simp add: io_catch_degrades)
next
  fix e s1 s2
  assume "fc_enabled this \<and> existsSync_dir s = (Inr True, s1) \<and>
      FileCache_stats_body rt now s1 = (Inl e, s2)"
  then show "FileCache_stats rt this now s = (Inr zero_stats, s2)"
    unfolding FileCache_stats_def io_bind_apply by (simp add: io_catch_degrades)
next
  fix e c
  assume "sqlite_cacheGet env org (getResolveCacheKey org t q) (store w) = (Inl e, c)"
  then show "fst (getCachedResolve env org t q w) = Inr None"
    by (simp add: getCachedResolve_apply)
qed

theorem cache_failures_never_propagate_witness:
  "fc_enabled \<lparr>fc_enabled = True\<rparr> \<and>
   fst (FileCache_get_body example_runtime 2000 ''/projects'' ''p'' ''org'' example_faulty_fs) =
     Inl FsError \<and>
   fst (FileCache_get example_runtime \<lparr>fc_enabled = True\<rparr> 2000 ''/projects'' ''p'' ''org''
     example_faulty_fs) = Inr None \<and>
   fst (FileCache_set_body example_runtime 2000 ''/projects'' ''p'' ''org'' ''data'' None
     (example_faulty_fs\<lparr>ops := 1\<rparr>)) = Inl FsError \<and>
   fst (FileCache_set example_runtime \<lparr>fc_enabled = True\<rparr> 2000 ''/projects'' ''p'' ''org''
     ''data'' None (example_faulty_fs\<lparr>ops := 1\<rparr>)) = Inr () \<and>
   fst (existsSync_dir example_broken_fs) = Inr True \<and>
   fst (FileCache_stats_body example_runtime 2000 (snd (existsSync_dir example_broken_fs))) =
     Inl FsError \<and>
   fst (FileCache_stats example_runtime \<lparr>fc_enabled = True\<rparr> 2000 example_broken_fs) =
     Inr zero_stats \<and>
   fst (sqlite_cacheGet example_failing_env ''org'' (getResolveCacheKey ''org'' person ''a@b.co'')
     (store \<lparr>events = [], store = ()\<rparr>)) = Inl CacheError \<and>
   fst (getCachedResolve example_failing_env ''org'' person ''a@b.co''
     \<lparr>events = [], store = ()\<rparr>) = (Inr None :: thrown + ResolveResult option)"
proof -
  let ?c = "\<lparr>fc_enabled = True\<rparr>"
  let ?w = "\<lparr>events = [], store = ()\<rparr>"
  have en: "fc_enabled ?c" by simp
  have gb: "fst (FileCache_get_body example_runtime 2000 ''/projects'' ''p'' ''org''
     example_faulty_fs) = Inl FsError" by code_simp
  have sb: "fst (FileCache_set_body example_runtime 2000 ''/projects'' ''p'' ''org'' ''data'' None
     (example_faulty_fs\<lparr>ops := 1\<rparr>)) = Inl FsError" by code_simp
  have ex: "fst (existsSync_dir example_broken_fs) = Inr True" by code_simp
  have stb: "fst (FileCache_stats_body example_runtime 2000 (snd (existsSync_dir example_broken_fs))) =
     Inl FsError" by code_simp
  have cg: "fst (sqlite_cacheGet example_failing_env ''org''
     (getResolveCacheKey ''org'' person ''a@b.co'') (store ?w)) = Inl CacheError" by code_simp
  from gb obtain s1 where gb': "FileCache_get_body example_runtime 2000 ''/projects'' ''p'' ''org''
     example_faulty_fs = (Inl FsError, s1)" by (rule fst_eqE)
  from sb obtain s2 where sb': "FileCache_set_body example_runtime 2000 ''/projects'' ''p'' ''org''
     ''data'' None (example_faulty_fs\<lparr>ops := 1\<rparr>) = (Inl FsError, s2)" by (rule fst_eqE)
  from ex obtain s3 where ex': "existsSync_dir example_broken_fs = (Inr True, s3)" by (rule fst_eqE)
  from stb ex' obtain s4 where stb': "FileCache_stats_body example_runtime 2000 s3 = (Inl FsError, s4)"
    by (auto elim: fst_eqE)
  from cg obtain c where cg': "sqlite_cacheGet example_failing_env ''org''
     (getResolveCacheKey ''org'' person ''a@b.co'') (store ?w) = (Inl CacheError, c)"
    by (rule fst_eqE)
  have g: "fst (FileCache_get example_runtime ?c 2000 ''/projects'' ''p'' ''org''
     example_faulty_fs) = Inr None"
    using cache_failures_never_propagate [of example_runtime ?c 2000 "''/projects''" "''p''"
        "''org''" example_faulty_fs] en gb'
    by (metis fst_conv)
  have s: "fst (FileCache_set example_runtime ?c 2000 ''/projects'' ''p'' ''org''
     ''data'' None (example_faulty_fs\<lparr>ops := 1\<rparr>)) = Inr ()"
    using cache_failures_never_propagate [of example_runtime ?c 2000 "''/projects''" "''p''"
        "''org''" "example_faulty_fs\<lparr>ops := 1\<rparr>" "''data''" None] en sb'
    by (metis fst_conv)
  have st: "fst (FileCache_stats example_runtime ?c 2000 example_broken_fs) = Inr zero_stats"
    using cache_failures_never_propagate [of example_runtime ?c 2000 "''/projects''" "''p''"
        "''org''" example_broken_fs] en ex' stb'
    by (metis fst_conv)
  have r: "fst (getCachedResolve example_failing_env ''org'' person ''a@b.co'' ?w) =
     (Inr None :: thrown + ResolveResult option)"
    using cache_failures_never_propagate [where env = example_failing_env and org = "''org''"
        and t = person and q = "''a@b.co''" and w = ?w and rt = example_runtime] cg'
    by blast
  from en gb g sb s ex stb st cg r show ?thesis by (intro conjI)
qed

subsection \<open>Default TTLs\<close>

lemma startsWith_take:
  "startsWith e p \<Longrightarrow> n \<le> length p \<Longrightarrow> take n e = take n p"
  unfolding startsWith_def by (metis min.absorb1 take_take)

lemma startsWith_exclusive:
  assumes "startsWith e p" "startsWith e q" "3 \<le> length p" "3 \<le> length q"
  shows "take 3 p = take 3 q"
  using startsWith_take[OF assms(1,3)] startsWith_take[OF assms(2,4)] by simp

lemma default_ttl_patterns_exclusive:
  "\<not> (startsWith e ''/projects'' \<and> startsWith e ''/people'')"
  "\<not> (startsWith e ''/projects'' \<and> startsWith e ''/services'')"
  "\<not> (startsWith e ''/projects'' \<and> startsWith e ''/time_entries'')"
  "\<not> (startsWith e ''/projects'' \<and> startsWith e ''/tasks'')"
  "\<not> (startsWith e ''/projects'' \<and> startsWith e ''/budgets'')"
  "\<not> (startsWith e ''/people'' \<and> startsWith e ''/services'')"
  "\<not> (startsWith e ''/people'' \<and> startsWith e ''/time_entries'')"
  "\<not> (startsWith e ''/people'' \<and> startsWith e ''/tasks'')"
  "\<not> (startsWith e ''/people'' \<and> startsWith e ''/budgets'')"
  "\<not> (startsWith e ''/services'' \<and> startsWith e ''/time_entries'')"
  "\<not> (startsWith e ''/services'' \<and> startsWith e ''/tasks'')"
  "\<not> (startsWith e ''/services'' \<and> startsWith e ''/budgets'')"
  "\<not> (startsWith e ''/time_entries'' \<and> startsWith e ''/tasks'')"
  "\<not> (startsWith e ''/time_entries'' \<and> startsWith e ''/budgets'')"
  "\<not> (startsWith e ''/tasks'' \<and> startsWith e ''/budgets'')"
  using startsWith_exclusive[of e] by fastforce+

lemma getTTL_default: "getTTL endpoint None = claimed_default_ttl endpoint"
  using default_ttl_patterns_exclusive[of endpoint]
  unfolding getTTL_def claimed_default_ttl_def longest_matching_def longer_match_def
    DEFAULT_TTLS_def claimed_ttl_table_def
  by (simp split: if_splits)

lemma FileCache_set_body_cases:
  assumes "FileCache_set_body rt now endpoint params orgId d ttl_option s = (x, s')"
  shows "(files s' = files s \<and> (dir_present s \<and> \<not> faults s (ops s) \<longrightarrow>
            (\<forall>key content. cache_key rt endpoint params orgId = Inr key \<longrightarrow>
               json_stringify rt
                 \<lparr>ce_data = d, ce_timestamp = now, ce_ttl = getTTL endpoint ttl_option,
                  ce_endpoint = endpoint, ce_params = params\<rparr> \<noteq> Inr content))) \<or>
         (\<exists>key content. cache_key rt endpoint params orgId = Inr key \<and>
            json_stringify rt
              \<lparr>ce_data = d, ce_timestamp = now, ce_ttl = getTTL endpoint ttl_option,
               ce_endpoint = endpoint, ce_params = params\<rparr> = Inr content \<and>
            files s' = AList.update (key @ ''.json'') content (files s) \<and>
            pending_cleanups s' = Suc (pending_cleanups s) \<and> x = Inr ())"
  using assms
  unfolding FileCache_set_body_def getCacheKey_def io_bind_apply io_lift_def Let_def
    writeFileSync_def setImmediate_cleanup_def next_fault_def
  by (auto split: sum.splits if_splits)

text \<open>
  Claim C3. Without a TTL of its own, a \<^verbatim>\<open>set\<close> uses the value of the longest pattern of
  the table (\<^verbatim>\<open>/projects\<close>, \<^verbatim>\<open>/people\<close>, \<^verbatim>\<open>/services\<close>: 3600; \<^verbatim>\<open>/time_entries\<close>:
  300; \<^verbatim>\<open>/tasks\<close>, \<^verbatim>\<open>/budgets\<close>: 900) that is a prefix of the endpoint, and 300 when
  none is; a TTL given with the call wins. (The source takes the first matching pattern;
  no pattern of the table is a prefix of another, so that is the longest one.) \<^verbatim>\<open>set\<close>
  always returns; it leaves the files as they are or writes, under the key's file name,
  the text of the entry that carries this TTL; and it does write it when the cache is
  enabled, key and text can be computed, the directory exists and the write does not
  fail.
\<close>

theorem set_default_ttl:
  "getTTL endpoint None = claimed_default_ttl endpoint \<and>
   getTTL endpoint (Some t) = t \<and>
   (let ttl = (case ttl_option of None \<Rightarrow> claimed_default_ttl endpoint | Some t' \<Rightarrow> t');
        entry = \<lparr>ce_data = d, ce_timestamp = now, ce_ttl = ttl, ce_endpoint = endpoint,
                 ce_params = params\<rparr>
    in \<exists>s'. FileCache_set rt this now endpoint params orgId d ttl_option s = (Inr (), s') \<and>
         (files s' = files s \<or>
          (\<exists>key content. cache_key rt endpoint params orgId = Inr key \<and>
             json_stringify rt entry = Inr content \<and>
             files s' = AList.update (key @ ''.json'') content (files s))) \<and>
         (\<forall>key content.
            fc_enabled this \<and> cache_key rt endpoint params orgId = Inr key \<and>
            json_stringify rt entry = Inr content \<and> dir_present s \<and> \<not> faults s (ops s) \<longrightarrow>
            map_of (files s') (key @ ''.json'') = Some content \<and>
            pending_cleanups s' = Suc (pending_cleanups s)))"
proof -
  define ttl where "ttl = (case ttl_option of None \<Rightarrow> claimed_default_ttl endpoint | Some t' \<Rightarrow> t')"
  define entry where "entry = \<lparr>ce_data = d, ce_timestamp = now, ce_ttl = ttl,
     ce_endpoint = endpoint, ce_params = params\<rparr>"
  have ttl: "getTTL endpoint ttl_option = ttl"
    unfolding ttl_def by (cases ttl_option) (simp_all add: getTTL_default, simp add: getTTL_def)
  have custom: "getTTL endpoint (Some t) = t" by (simp add: getTTL_def)
  have main: "\<exists>s'. FileCache_set rt this now endpoint params orgId d ttl_option s = (Inr (), s') \<and>
         (files s' = files s \<or>
          (\<exists>key content. cache_key rt endpoint params orgId = Inr key \<and>
             json_stringify rt entry = Inr content \<and>
             files s' = AList.update (key @ ''.json'') content (files s))) \<and>
         (\<forall>key content.
            fc_enabled this \<and> cache_key rt endpoint params orgId = Inr key \<and>
            json_stringify rt entry = Inr content \<and> dir_present s \<and> \<not> faults s (ops s) \<longrightarrow>
            map_of (files s') (key @ ''.json'') = Some content \<and>
            pending_cleanups s' = Suc (pending_cleanups s))"
  proof (cases "fc_enabled this")
    case False
    then show ?thesis unfolding FileCache_set_def by (simp add: io_return_def)
  next
    case True
    obtain x s1 where b: "FileCache_set_body rt now endpoint params orgId d ttl_option s = (x, s1)"
      by (cases "FileCache_set_body rt now endpoint params orgId d ttl_option s")
    have r: "FileCache_set rt this now endpoint params orgId d ttl_option s = (Inr (), s1)"
      using True b unfolding FileCache_set_def io_catch_def io_return_def
      by (cases x) simp_all
    from FileCache_set_body_cases[OF b] show ?thesis
      unfolding r ttl entry_def[symmetric]
      by (auto simp: update_Some_unfold map_of_eq_None_iff)
  qed
  from getTTL_default custom main show ?thesis
    unfolding Let_def ttl_def[symmetric] entry_def[symmetric] by blast
qed

theorem set_default_ttl_witness:
  "claimed_default_ttl ''/projects/123'' = 3600 \<and>
   fc_enabled \<lparr>fc_enabled = True\<rparr> \<and>
   cache_key example_runtime ''/projects/123'' ''p'' ''org'' = Inr ''org-p'' \<and>
   json_stringify example_runtime
     \<lparr>ce_data = ''data'', ce_timestamp = 5000, ce_ttl = 3600, ce_endpoint = ''/projects/123'',
      ce_params = ''p''\<rparr> =
     Inr (Some \<lparr>ce_data = ''data'', ce_timestamp = 5000, ce_ttl = 3600,
                 ce_endpoint = ''/projects/123'', ce_params = ''p''\<rparr>, 100) \<and>
   dir_present example_empty_fs \<and>
   \<not> faults example_empty_fs (ops example_empty_fs) \<and>
   map_of (files (snd (FileCache_set example_runtime \<lparr>fc_enabled = True\<rparr> 5000 ''/projects/123''
      ''p'' ''org'' ''data'' None example_empty_fs))) ''org-p.json'' =
     Some (Some \<lparr>ce_data = ''data'', ce_timestamp = 5000, ce_ttl = 3600,
                  ce_endpoint = ''/projects/123'', ce_params = ''p''\<rparr>, 100) \<and>
   getTTL ''/unknown'' None = 300 \<and>
   getTTL ''/tasks'' (Some 5) = 5"
proof -
  let ?c = "\<lparr>fc_enabled = True\<rparr>"
  let ?e = "\<lparr>ce_data = ''data'', ce_timestamp = 5000, ce_ttl = 3600,
     ce_endpoint = ''/projects/123'', ce_params = ''p''\<rparr> :: (string, string) CacheEntry"
  have c: "claimed_default_ttl ''/projects/123'' = 3600" by code_simp
  have c2: "claimed_default_ttl ''/unknown'' = 300" by code_simp
  have en: "fc_enabled ?c" by simp
  have k: "cache_key example_runtime ''/projects/123'' ''p'' ''org'' = Inr ''org-p''" by code_simp
  have j: "json_stringify example_runtime ?e = Inr (Some ?e, 100)" by code_simp
  have dp: "dir_present example_empty_fs" by code_simp
  have nf: "\<not> faults example_empty_fs (ops example_empty_fs)" by code_simp
  note T = set_default_ttl [of "''/projects/123''" 5 None "''data''" 5000 "''p''" example_runtime ?c
      "''org''" example_empty_fs, unfolded Let_def option.case c]
  from T obtain s' where
    r: "FileCache_set example_runtime ?c 5000 ''/projects/123'' ''p'' ''org'' ''data'' None
          example_empty_fs = (Inr (), s')"
    and w: "\<forall>key content.
            fc_enabled ?c \<and> cache_key example_runtime ''/projects/123'' ''p'' ''org'' = Inr key \<and>
            json_stringify example_runtime ?e = Inr content \<and> dir_present example_empty_fs \<and>
            \<not> faults example_empty_fs (ops example_empty_fs) \<longrightarrow>
            map_of (files s') (key @ ''.json'') = Some content \<and>
            pending_cleanups s' = Suc (pending_cleanups example_empty_fs)"
    by blast
  from w en k j dp nf have "map_of (files s') (''org-p'' @ ''.json'') = Some (Some ?e, 100)"
    by blast
  with r have stored: "map_of (files (snd (FileCache_set example_runtime ?c 5000 ''/projects/123''
      ''p'' ''org'' ''data'' None example_empty_fs))) ''org-p.json'' = Some (Some ?e, 100)"
    by simp
  from set_default_ttl [of "''/unknown''" 5 None "''data''" 5000 "''p''" example_runtime ?c
      "''org''" example_empty_fs] c2
  have u: "getTTL ''/unknown'' None = 300" by simp
  from set_default_ttl [of "''/tasks''" 5 None "''data''" 5000 "''p''" example_runtime ?c
      "''org''" example_empty_fs]
  have v: "getTTL ''/tasks'' (Some 5) = 5" by (elim conjE)
  from c en k j dp nf stored u v show ?thesis by (intro conjI)
qed
subsection \<open>The sweep on a healthy state\<close>









lemma total_size_append: "total_size (xs @ ys) = total_size xs + total_size ys"
  by (simp add: total_size_def)













lemma fi_size_info_of: "fi_size (info_of rt f) = byte_length rt (snd f)"
  by (simp add: info_of_def)





















text \<open>
  The first pass keeps a file whose text parses to something that is not an entry (here
  \<^verbatim>\<open>{}\<close> and an object without a TTL), whatever the time: only the unreadable file and the
  expired entry are deleted.
\<close>

lemma cleanup_keeps_non_entries:
  "map fst (files (snd (FileCache_cleanup example_loose_runtime 1000000000 example_loose_fs))) =
     [''empty_object.json'', ''no_ttl.json'']"
  by code_simp


subsection \<open>The sweep does not depend on later failures\<close>

lemma fault_localI:
  assumes "\<And>s. ops s \<le> ops (snd (P s))"
    and "\<And>s N. ops (snd (P s)) \<le> N \<Longrightarrow>
           P (without_later_faults N s) = (fst (P s), without_later_faults N (snd (P s)))"
  shows "fault_local P"
  using assms unfolding fault_local_def by blast




lemma fault_local_throw: "fault_local (io_throw e)"
  by (rule fault_localI) (simp_all add: io_throw_def)

















lemma files_without_later_faults [simp]: "files (without_later_faults N s) = files s"
  by (simp add: without_later_faults_def)



























section \<open>The rate limiter: the sliding window\<close>

lemma length_filter_mono:
  "(\<And>x. x \<in> set xs \<Longrightarrow> P x \<Longrightarrow> Q x) \<Longrightarrow> length (filter P xs) \<le> length (filter Q xs)"
proof (induction xs)
  case Nil
  then show ?case by simp
next
  case (Cons x xs)
  then show ?case by (cases "P x") (auto simp: le_SucI)
qed

lemma limiter_inv_new: "limiter_inv config (new_limiter config t0)"
  by (simp add: limiter_inv_def new_limiter_def)

lemma acquire_pass_cases:
  "acquire_pass now w =
     (if length (filter (\<lambda>t. \<not> t < now - rw_windowMs w) (rw_timestamps w)) < rw_limit w
      then (Admitted,
            w\<lparr>rw_timestamps := filter (\<lambda>t. \<not> t < now - rw_windowMs w) (rw_timestamps w) @ [now]\<rparr>)
      else (Wait (case filter (\<lambda>t. \<not> t < now - rw_windowMs w) (rw_timestamps w) of
                    [] \<Rightarrow> rw_windowMs w
                  | oldest # _ \<Rightarrow> rw_windowMs w - (now - oldest)),
            w\<lparr>rw_timestamps := filter (\<lambda>t. \<not> t < now - rw_windowMs w) (rw_timestamps w)\<rparr>))"
  by (simp add: acquire_pass_def prune_def Let_def split: list.splits)

lemma pruned_is_recent:
  assumes "limiter_inv config L" and "lim_clock L \<le> now"
  shows "filter (\<lambda>t. \<not> t < now - rw_windowMs (lim_windows L c)) (rw_timestamps (lim_windows L c)) =
         filter (\<lambda>a. now - snd (config c) \<le> a) (lim_admitted L c)"
proof -
  from assms(1) have W: "rw_windowMs (lim_windows L c) = snd (config c)"
    and J: "\<forall>q. lim_clock L \<le> q \<longrightarrow>
             filter (\<lambda>a. q - snd (config c) \<le> a) (rw_timestamps (lim_windows L c)) =
             filter (\<lambda>a. q - snd (config c) \<le> a) (lim_admitted L c)"
    unfolding limiter_inv_def by blast+
  have "(\<lambda>t. \<not> t < now - snd (config c)) = (\<lambda>a. now - snd (config c) \<le> a)" by auto
  with J assms(2) show ?thesis unfolding W by simp
qed

lemma attempt_cases:
  assumes inv: "limiter_inv config L"
  shows "attempt c d L =
    (let now = lim_clock L + int d;
         recent = filter (\<lambda>a. now - snd (config c) \<le> a) (lim_admitted L c)
     in if length recent < fst (config c)
        then (Admitted,
              \<lparr>lim_clock = now,
               lim_windows = (lim_windows L)(c := (lim_windows L c)\<lparr>rw_timestamps := recent @ [now]\<rparr>),
               lim_admitted = (lim_admitted L)(c := lim_admitted L c @ [now])\<rparr>)
        else (Wait (case recent of [] \<Rightarrow> snd (config c)
                    | oldest # _ \<Rightarrow> snd (config c) - (now - oldest)),
              \<lparr>lim_clock = now,
               lim_windows = (lim_windows L)(c := (lim_windows L c)\<lparr>rw_timestamps := recent\<rparr>),
               lim_admitted = lim_admitted L\<rparr>))"
proof -
  have le: "lim_clock L \<le> lim_clock L + int d" by simp
  from inv have W: "rw_windowMs (lim_windows L c) = snd (config c)"
    and Lm: "rw_limit (lim_windows L c) = fst (config c)"
    unfolding limiter_inv_def by blast+
  note P = pruned_is_recent[OF inv le, of c]
  show ?thesis
    unfolding attempt_def acquire_pass_cases P Let_def
    by (simp add: W Lm split: list.splits)
qed

lemma limiter_inv_attempt:
  assumes inv: "limiter_inv config L"
  shows "limiter_inv config (snd (attempt c d L))"
proof -
  define now where "now = lim_clock L + int d"
  define recent where "recent = filter (\<lambda>a. now - snd (config c) \<le> a) (lim_admitted L c)"
  have now: "lim_clock L \<le> now" unfolding now_def by simp
  from inv have cfg: "\<And>c'. rw_limit (lim_windows L c') = fst (config c')"
      "\<And>c'. rw_windowMs (lim_windows L c') = snd (config c')"
    and J: "\<And>c' q. lim_clock L \<le> q \<Longrightarrow>
             filter (\<lambda>a. q - snd (config c') \<le> a) (rw_timestamps (lim_windows L c')) =
             filter (\<lambda>a. q - snd (config c') \<le> a) (lim_admitted L c')"
    and B: "\<And>c' t. length (filter (\<lambda>a. t - snd (config c') \<le> a \<and> a \<le> t) (lim_admitted L c'))
                 \<le> fst (config c')"
    unfolding limiter_inv_def by blast+
  have recent_q: "filter (\<lambda>a. q - snd (config c) \<le> a) recent =
      filter (\<lambda>a. q - snd (config c) \<le> a) (lim_admitted L c)" if "now \<le> q" for q
    unfolding recent_def filter_filter using that by (intro filter_cong) auto
  show ?thesis
  proof (cases "length recent < fst (config c)")
    case True
    then have a: "snd (attempt c d L) =
        \<lparr>lim_clock = now,
         lim_windows = (lim_windows L)(c := (lim_windows L c)\<lparr>rw_timestamps := recent @ [now]\<rparr>),
         lim_admitted = (lim_admitted L)(c := lim_admitted L c @ [now])\<rparr>"
      unfolding attempt_cases[OF inv] Let_def now_def[symmetric] recent_def[symmetric] by simp
    have bound: "length (filter (\<lambda>a. t - snd (config c) \<le> a \<and> a \<le> t) (lim_admitted L c @ [now]))
        \<le> fst (config c)" for t
    proof (cases "t - snd (config c) \<le> now \<and> now \<le> t")
      case False
      then show ?thesis using B[of t c] by auto
    next
      case inside: True
      have "length (filter (\<lambda>a. t - snd (config c) \<le> a \<and> a \<le> t) (lim_admitted L c))
          \<le> length recent"
        unfolding recent_def using inside by (intro length_filter_mono) auto
      with True inside show ?thesis by simp
    qed
    show ?thesis
      unfolding a limiter_inv_def
      using cfg J B bound recent_q now by (auto simp: recent_q)
  next
    case False
    then have a: "snd (attempt c d L) =
        \<lparr>lim_clock = now,
         lim_windows = (lim_windows L)(c := (lim_windows L c)\<lparr>rw_timestamps := recent\<rparr>),
         lim_admitted = lim_admitted L\<rparr>"
      unfolding attempt_cases[OF inv] Let_def now_def[symmetric] recent_def[symmetric] by simp
    show ?thesis
      unfolding a limiter_inv_def
      using cfg J B recent_q now by (auto simp: recent_q)
  qed
qed

lemma limiter_inv_run: "limiter_inv config L \<Longrightarrow> limiter_inv config (run es L)"
proof (induction es arbitrary: L)
  case Nil
  then show ?case by simp
next
  case (Cons e es)
  obtain c d where e: "e = (c, d)" by (cases e)
  from Cons.prems have "limiter_inv config (snd (attempt c d L))" by (rule limiter_inv_attempt)
  with Cons.IH e show ?case by simp
qed

lemma run_append: "run (es @ es') L = run es' (run es L)"
  by (induction es arbitrary: L) auto

lemma acquire_is_run: "\<exists>es'. snd (acquire c wait lates L) = run es' L"
proof (induction lates arbitrary: wait L)
  case Nil
  have "snd (acquire c wait [] L) = run [] L" by simp
  then show ?case by blast
next
  case (Cons late lates)
  obtain r L' where a: "attempt c (nat wait + late) L = (r, L')"
    by (cases "attempt c (nat wait + late) L")
  show ?case
  proof (cases r)
    case Admitted
    with a have "snd (acquire c wait (late # lates) L) = run [(c, nat wait + late)] L" by simp
    then show ?thesis by blast
  next
    case (Wait w)
    from Cons.IH[of w L'] obtain es' where "snd (acquire c w lates L') = run es' L'" by blast
    with a Wait have "snd (acquire c wait (late # lates) L) = run ((c, nat wait + late) # es') L"
      by simp
    then show ?thesis by blast
  qed
qed

lemma limiter_inv_reachable: "limiter_inv config (run es (new_limiter config t0))"
  using limiter_inv_new by (rule limiter_inv_run)

lemma admitted_within_bound:
  assumes "limiter_inv config L"
  shows "length (admitted_within L c t) \<le> fst (config c)"
    and "length (admitted_within_open L c t) \<le> fst (config c)"
proof -
  from assms have W: "rw_windowMs (lim_windows L c) = snd (config c)"
    and B: "length (filter (\<lambda>a. t - snd (config c) \<le> a \<and> a \<le> t) (lim_admitted L c))
                 \<le> fst (config c)"
    unfolding limiter_inv_def by blast+
  show "length (admitted_within L c t) \<le> fst (config c)"
    unfolding admitted_within_def W by (rule B)
  have "length (admitted_within_open L c t) \<le>
      length (filter (\<lambda>a. t - snd (config c) \<le> a \<and> a \<le> t) (lim_admitted L c))"
    unfolding admitted_within_open_def W by (rule length_filter_mono) simp
  with B show "length (admitted_within_open L c t) \<le> fst (config c)" by simp
qed

text \<open>
  Claim C2. Take any configuration of limits and windows, any start time and any
  interleaving \<open>es\<close> of passes of \<^verbatim>\<open>acquire\<close> by any number of tasks on any classes, and let
  \<open>L\<close> be the limiter after them. For every class \<open>c\<close> and every time \<open>t\<close>, the trailing
  interval of length \<^verbatim>\<open>windowMs\<close> that ends at \<open>t\<close> holds at most \<^verbatim>\<open>limit\<close> admitted time
  stamps of \<open>c\<close>, whether the far end of the interval is counted or not; the limit and the
  window length of the class are those of the configuration. A further pass at the time
  \<open>now\<close> prunes the window to the admissions that are not older than \<^verbatim>\<open>now-windowMs\<close>. If
  fewer than \<^verbatim>\<open>limit\<close> remain, the pass admits: \<open>now\<close> is appended to the window and is the
  one new admission. Otherwise admitting now would exceed the limit (the remaining ones
  and \<open>now\<close> lie in the interval that ends at \<open>now\<close>) and the pass suspends: it returns a
  wait that ends when the oldest remaining time stamp is \<^verbatim>\<open>windowMs\<close> old, the window holds
  the pruned time stamps and nothing is appended, and no admission is recorded for any
  class. A pass leaves the other classes as they were. The state after the pass, and the
  state after a whole call of \<^verbatim>\<open>acquire\<close> with its waits and re-checks, are again states
  reached by an interleaving of passes, so that the bound holds at every point in time.
\<close>

theorem sliding_window_never_exceeded:
  "(let L = run es (new_limiter config t0);
        now = lim_clock L + int delay;
        recent = filter (\<lambda>a. now - snd (config c) \<le> a) (lim_admitted L c);
        r = fst (attempt c delay L);
        L' = snd (attempt c delay L)
    in length (admitted_within L c t) \<le> fst (config c) \<and>
       length (admitted_within_open L c t) \<le> fst (config c) \<and>
       rw_limit (lim_windows L c) = fst (config c) \<and>
       rw_windowMs (lim_windows L c) = snd (config c) \<and>
       rw_timestamps (prune now (lim_windows L c)) = recent \<and>
       (length recent < fst (config c) \<longrightarrow>
          r = Admitted \<and> lim_admitted L' c = lim_admitted L c @ [now] \<and>
          rw_timestamps (lim_windows L' c) = recent @ [now]) \<and>
       (\<not> length recent < fst (config c) \<longrightarrow>
          (\<exists>w. r = Wait w \<and> (recent \<noteq> [] \<longrightarrow> now + w = hd recent + snd (config c))) \<and>
          lim_admitted L' = lim_admitted L \<and>
          rw_timestamps (lim_windows L' c) = recent) \<and>
       (\<forall>c'. c' \<noteq> c \<longrightarrow>
          lim_windows L' c' = lim_windows L c' \<and> lim_admitted L' c' = lim_admitted L c') \<and>
       L' = run (es @ [(c, delay)]) (new_limiter config t0) \<and>
       (\<exists>es'. snd (acquire c wait lates L) = run (es @ es') (new_limiter config t0)))"
proof -
  define L where "L = run es (new_limiter config t0)"
  define now where "now = lim_clock L + int delay"
  define recent where "recent = filter (\<lambda>a. now - snd (config c) \<le> a) (lim_admitted L c)"
  have inv: "limiter_inv config L" unfolding L_def by (rule limiter_inv_reachable)
  note b = admitted_within_bound[OF inv, of c t]
  from inv have cfg: "rw_limit (lim_windows L c) = fst (config c)"
      "rw_windowMs (lim_windows L c) = snd (config c)"
    unfolding limiter_inv_def by blast+
  have pr: "rw_timestamps (prune now (lim_windows L c)) = recent"
    unfolding prune_def recent_def
    using pruned_is_recent[OF inv, of now c] by (simp add: now_def)
  note a = attempt_cases[OF inv, of c delay, unfolded Let_def, folded now_def, folded recent_def]
  have adm: "r = Admitted \<and> lim_admitted L' c = lim_admitted L c @ [now] \<and>
          rw_timestamps (lim_windows L' c) = recent @ [now]"
    if "length recent < fst (config c)" "r = fst (attempt c delay L)" "L' = snd (attempt c delay L)"
    for r L'
    using that a by simp
  have ref: "(\<exists>w. r = Wait w \<and> (recent \<noteq> [] \<longrightarrow> now + w = hd recent + snd (config c))) \<and>
          lim_admitted L' = lim_admitted L \<and> rw_timestamps (lim_windows L' c) = recent"
    if "\<not> length recent < fst (config c)" "r = fst (attempt c delay L)"
      "L' = snd (attempt c delay L)" for r L'
    using that a by (cases recent) simp_all
  have other: "lim_windows (snd (attempt c delay L)) c' = lim_windows L c' \<and>
      lim_admitted (snd (attempt c delay L)) c' = lim_admitted L c'" if "c' \<noteq> c" for c'
    using that a by (cases "length recent < fst (config c)") simp_all
  have step: "snd (attempt c delay L) = run (es @ [(c, delay)]) (new_limiter config t0)"
    unfolding L_def run_append by simp
  from acquire_is_run[of c wait lates L] obtain es' where
    "snd (acquire c wait lates L) = run es' L" by blast
  then have acq: "\<exists>es'. snd (acquire c wait lates L) = run (es @ es') (new_limiter config t0)"
    unfolding L_def run_append by blast
  from b cfg pr adm ref other step acq show ?thesis
    unfolding Let_def L_def[symmetric] now_def[symmetric] recent_def[symmetric] by blast
qed

theorem sliding_window_never_exceeded_witness:
  "lim_admitted example_two_admitted ''regular'' = [5000, 5000] \<and>
   lim_clock example_two_admitted = 5000 \<and>
   length (admitted_within example_two_admitted ''regular'' 6000) \<le> 2 \<and>
   \<not> length (filter (\<lambda>a. 5000 + int 0 - 1000 \<le> a) [5000, 5000 :: int]) < 2 \<and>
   (\<exists>w. fst (attempt ''regular'' 0 example_two_admitted) = Wait w \<and> 5000 + w = 5000 + 1000) \<and>
   lim_admitted (snd (attempt ''regular'' 0 example_two_admitted)) =
     lim_admitted example_two_admitted \<and>
   rw_timestamps (lim_windows (snd (attempt ''regular'' 0 example_two_admitted)) ''regular'') =
     [5000, 5000] \<and>
   lim_admitted (snd (attempt ''regular'' 0 example_two_admitted)) ''reports'' =
     lim_admitted example_two_admitted ''reports'' \<and>
   fst (attempt ''regular'' 0 (new_limiter example_config 5000)) = Admitted \<and>
   lim_admitted (snd (attempt ''regular'' 0 (new_limiter example_config 5000))) ''regular'' =
     [5000] \<and>
   \<not> fst (acquire ''regular'' 0 [0, 0] example_two_admitted) \<and>
   fst (acquire ''regular'' 0 [0, 0, 1] example_two_admitted) \<and>
   lim_admitted (snd (acquire ''regular'' 0 [0, 0, 1] example_two_admitted)) ''regular'' =
     [5000, 5000, 6001] \<and>
   (\<exists>es'. snd (acquire ''regular'' 0 [0, 0, 1] example_two_admitted) =
      run ([(''regular'', 0), (''regular'', 0)] @ es') (new_limiter example_config 5000))"
proof -
  have adm: "lim_admitted example_two_admitted ''regular'' = [5000, 5000]"
    unfolding example_two_admitted_def by code_simp
  have clock: "lim_clock example_two_admitted = 5000"
    unfolding example_two_admitted_def by code_simp
  have full: "\<not> length (filter (\<lambda>a. 5000 + int 0 - 1000 \<le> a) [5000, 5000 :: int]) < 2"
    by simp
  have cfg: "fst (example_config ''regular'') = 2" "snd (example_config ''regular'') = 1000"
    by (simp_all add: example_config_def)
  note refused = sliding_window_never_exceeded
    [of "[(''regular'', 0), (''regular'', 0)]" example_config 5000 0 "''regular''" 6000 0
        "[0, 0, 1]",
     unfolded Let_def, folded example_two_admitted_def, unfolded adm clock cfg]
  note r1 = refused [THEN conjunct1]
  note refused7 = refused [THEN conjunct2, THEN conjunct2, THEN conjunct2, THEN conjunct2,
      THEN conjunct2, THEN conjunct2]
  note on_refusal = refused7 [THEN conjunct1, THEN mp, OF full]
  from on_refusal [THEN conjunct1]
  have r2: "\<exists>w. fst (attempt ''regular'' 0 example_two_admitted) = Wait w \<and>
               5000 + w = 5000 + 1000"
    by simp
  note r3 = on_refusal [THEN conjunct2, THEN conjunct1]
  from on_refusal [THEN conjunct2, THEN conjunct2]
  have r4: "rw_timestamps (lim_windows (snd (attempt ''regular'' 0 example_two_admitted))
               ''regular'') = [5000, 5000]"
    by simp
  have ne: "''reports'' \<noteq> ''regular''" by simp
  note r5 = refused7 [THEN conjunct2, THEN conjunct1, THEN spec, THEN mp, OF ne, THEN conjunct2]
  note r6 = refused7 [THEN conjunct2, THEN conjunct2, THEN conjunct2]
  have empty: "lim_admitted (new_limiter example_config 5000) ''regular'' = []"
    "lim_clock (new_limiter example_config 5000) = 5000"
    by (simp_all add: new_limiter_def)
  note admitted = sliding_window_never_exceeded
    [of "[]" example_config 5000 0 "''regular''" 5000 0 "[]",
     unfolded Let_def run.simps empty cfg]
  have room: "length (filter (\<lambda>a. 5000 + int 0 - 1000 \<le> a) ([] :: int list)) < 2" by simp
  note on_admission = admitted [THEN conjunct2, THEN conjunct2, THEN conjunct2, THEN conjunct2,
      THEN conjunct2, THEN conjunct1, THEN mp, OF room]
  note a1 = on_admission [THEN conjunct1]
  from on_admission [THEN conjunct2, THEN conjunct1]
  have a2: "lim_admitted (snd (attempt ''regular'' 0 (new_limiter example_config 5000)))
               ''regular'' = [5000]"
    by simp
  have q1: "\<not> fst (acquire ''regular'' 0 [0, 0] example_two_admitted)"
    unfolding example_two_admitted_def by code_simp
  have q2: "fst (acquire ''regular'' 0 [0, 0, 1] example_two_admitted)"
    unfolding example_two_admitted_def by code_simp
  have q3: "lim_admitted (snd (acquire ''regular'' 0 [0, 0, 1] example_two_admitted)) ''regular'' =
      [5000, 5000, 6001]"
    unfolding example_two_admitted_def by code_simp
  show ?thesis
    by (intro conjI) (fact adm clock full r1 r2 r3 r4 r5 r6 a1 a2 q1 q2 q3)+
qed

end
